(* ===== verification/Relay_Prelude.thy ===== *)
theory Relay_Prelude
  imports Main "HOL-Library.Sublist" "HOL-Library.Char_ord" "HOL-Library.List_Lexorder"
    "HOL-Library.Product_Lexorder" "HOL-Library.Multiset"
begin

text \<open>
  Shared vocabulary of the development: the collections the component theories fill, the
  result type of fallible Go functions, generic facts on lists and stable sorting, and the
  locale through which every state machine of the development gets its reachable-state
  invariants.
\<close>

section \<open>Collections of facts\<close>

named_theorems go_strings \<open>characteristic equations of the modelled Go string functions\<close>
named_theorems result_simps \<open>how results of fallible calls compose\<close>

section \<open>Results of fallible functions\<close>

text \<open>
  A Go function returning \<open>(T, error)\<close> is a function into \<open>'e + 'a\<close>: \<open>Inl\<close> for a
  non-nil error, \<open>Inr\<close> for the value.
\<close>

type_synonym ('e, 'a) result = "'e + 'a"

type_synonym labels = "string \<rightharpoonup> string"

definition is_ok :: "('e, 'a) result \<Rightarrow> bool" where
  "is_ok r = (case r of Inl _ \<Rightarrow> False | Inr _ \<Rightarrow> True)"

lemma is_ok_simps [simp]: "\<not> is_ok (Inl e)" "is_ok (Inr v)"
  by (simp_all add: is_ok_def)

lemma is_ok_iff [result_simps]: "is_ok r \<longleftrightarrow> (\<exists>v. r = Inr v)"
  by (cases r) auto

text \<open>Running a fallible step over a list, stopping at the first error.\<close>

fun map_result :: "('a \<Rightarrow> ('e, 'b) result) \<Rightarrow> 'a list \<Rightarrow> ('e, 'b list) result" where
  "map_result f [] = Inr []"
| "map_result f (x # xs) =
     (case f x of
        Inl e \<Rightarrow> Inl e
      | Inr y \<Rightarrow> (case map_result f xs of Inl e \<Rightarrow> Inl e | Inr ys \<Rightarrow> Inr (y # ys)))"

lemma map_result_Inr_iff [result_simps]:
  "map_result f xs = Inr ys \<longleftrightarrow> list_all2 (\<lambda>x y. f x = Inr y) xs ys"
proof (induction xs arbitrary: ys)
  case (Cons x xs)
  show ?case
  proof (cases ys)
    case (Cons z zs)
    with Cons.IH [of zs] show ?thesis by (auto split: sum.splits)
  qed (auto split: sum.splits)
qed auto

lemma map_result_total: "(\<And>x. x \<in> set xs \<Longrightarrow> f x = Inr (g x)) \<Longrightarrow> map_result f xs = Inr (map g xs)"
  by (induction xs) auto

section \<open>Lists\<close>

lemma snoc_cases_prefix: "prefix xs (ys @ [y]) \<longleftrightarrow> prefix xs ys \<or> xs = ys @ [y]"
  by (rule prefix_snoc [of xs ys y, THEN trans]) auto

lemma prefix_append_exists: "prefix xs ys \<longleftrightarrow> (\<exists>zs. ys = xs @ zs)"
  by (auto simp: prefix_def)

lemma suffix_append_exists: "suffix xs ys \<longleftrightarrow> (\<exists>zs. ys = zs @ xs)"
  by (auto simp: suffix_def)

lemma suffix_take_drop: "suffix xs ys \<Longrightarrow> take (length ys - length xs) ys @ xs = ys"
  by (auto simp: suffix_def)

lemma find_unique:
  "x \<in> set xs \<Longrightarrow> P x \<Longrightarrow> (\<And>y. y \<in> set xs \<Longrightarrow> P y \<Longrightarrow> y = x) \<Longrightarrow> find P xs = Some x"
proof (induction xs)
  case (Cons z zs)
  show ?case
  proof (cases "P z")
    case True
    from Cons.prems(3) [OF _ True] have "z = x" by simp
    with True show ?thesis by simp
  next
    case False
    with Cons.prems(1,2) have "x \<in> set zs" by auto
    from Cons.IH [OF this Cons.prems(2)] Cons.prems(3) have "find P zs = Some x" by simp
    with False show ?thesis by simp
  qed
qed simp

lemma length_filter_other:
  "distinct (map f xs) \<Longrightarrow> x \<in> set xs \<Longrightarrow> Suc (length (filter (\<lambda>y. f y \<noteq> f x) xs)) = length xs"
proof (induction xs)
  case (Cons a xs)
  show ?case
  proof (cases "f a = f x")
    case True
    with Cons.prems(1) have "\<forall>y\<in>set xs. f y \<noteq> f x"
      by (metis distinct.simps(2) image_eqI list.simps(9) set_map)
    then have "filter (\<lambda>y. f y \<noteq> f x) xs = xs" by simp
    with True show ?thesis by simp
  next
    case False
    with Cons.prems have "x \<in> set xs" by auto
    with Cons False show ?thesis by simp
  qed
qed simp

section \<open>Stable sorting\<close>

text \<open>
  \<open>sort.SliceStable\<close> with a comparison that is the order of a key is the library's
  \<^const>\<open>sort_key\<close>. Two facts carry the results about it: the elements of one key keep their
  order, and so lists that agree on every key class sort to the same list.
\<close>

lemma sort_key_cong_classes:
  assumes mset: "mset xs = mset ys"
    and cls: "\<And>k. filter (\<lambda>x. f x = k) xs = filter (\<lambda>x. f x = k) ys"
  shows "sort_key f xs = sort_key f ys"
proof (rule properties_for_sort_key [symmetric])
  show "mset (sort_key f xs) = mset ys" using mset by simp
  show "sorted (map f (sort_key f xs))" by simp
  show "filter (\<lambda>x. f k = f x) (sort_key f xs) = filter (\<lambda>x. f k = f x) ys"
    if "k \<in> set (sort_key f xs)" for k
    using cls [of "f k"] sort_key_stable [of f "f k" xs] by (simp add: eq_commute)
qed

section \<open>State machines\<close>

text \<open>
  The states a machine reaches from its initial states, and the one proof every invariant
  of the development rests on: an invariant that holds initially and is kept by each step
  holds in every reachable state.
\<close>

inductive reachable :: "('s \<Rightarrow> bool) \<Rightarrow> ('s \<Rightarrow> 's \<Rightarrow> bool) \<Rightarrow> 's \<Rightarrow> bool"
  for start :: "'s \<Rightarrow> bool" and step :: "'s \<Rightarrow> 's \<Rightarrow> bool" where
  reach_start: "start s \<Longrightarrow> reachable start step s"
| reach_step: "reachable start step s \<Longrightarrow> step s t \<Longrightarrow> reachable start step t"

lemma reachable_steps: "step\<^sup>*\<^sup>* s t \<Longrightarrow> reachable start step s \<Longrightarrow> reachable start step t"
  by (induction rule: rtranclp_induct) (auto intro: reach_step)

locale machine_invariant =
  fixes start :: "'s \<Rightarrow> bool"
    and step :: "'s \<Rightarrow> 's \<Rightarrow> bool"
    and inv :: "'s \<Rightarrow> bool"
  assumes inv_start: "start s \<Longrightarrow> inv s"
    and inv_step: "inv s \<Longrightarrow> step s t \<Longrightarrow> inv t"
begin

lemma reachable_inv: "reachable start step s \<Longrightarrow> inv s"
  by (induction rule: reachable.induct) (auto intro: inv_start inv_step)

lemma steps_inv: "step\<^sup>*\<^sup>* s t \<Longrightarrow> inv s \<Longrightarrow> inv t"
  by (induction rule: rtranclp_induct) (auto intro: inv_step)

end

end
