(* ===== verification/Go_Strings.thy ===== *)
theory Go_Strings
  imports Relay_Prelude
begin

text \<open>
  The functions of Go's \<open>strings\<close> package that the relay uses, on byte strings
  (\<^typ>\<open>string\<close> is a list of 8-bit characters, as a Go string is a sequence of bytes).
  \<open>HasPrefix\<close> and \<open>HasSuffix\<close> are the library's \<^const>\<open>prefix\<close> and \<^const>\<open>suffix\<close>.
  Case mapping and white space follow the ASCII rules; bytes from 128 up are left alone.
\<close>

section \<open>Case and white space\<close>

definition lower_char :: "char \<Rightarrow> char" where
  "lower_char c =
     (if (65::nat) \<le> of_char c \<and> of_char c \<le> (90::nat) then char_of (of_char c + 32 :: nat) else c)"

definition ToLower :: "string \<Rightarrow> string" where
  "ToLower s = map lower_char s"

definition EqualFold :: "string \<Rightarrow> string \<Rightarrow> bool" where
  "EqualFold s t \<longleftrightarrow> ToLower s = ToLower t"

definition is_space :: "char \<Rightarrow> bool" where
  "is_space c \<longleftrightarrow> (9::nat) \<le> of_char c \<and> of_char c \<le> (13::nat) \<or> c = CHR '' ''"

definition trim_with :: "(char \<Rightarrow> bool) \<Rightarrow> string \<Rightarrow> string" where
  "trim_with p s = rev (dropWhile p (rev (dropWhile p s)))"

definition TrimSpace :: "string \<Rightarrow> string" where
  "TrimSpace s = trim_with is_space s"

definition TrimRight :: "char set \<Rightarrow> string \<Rightarrow> string" where
  "TrimRight cs s = rev (dropWhile (\<lambda>c. c \<in> cs) (rev s))"

definition TrimSuffix :: "string \<Rightarrow> string \<Rightarrow> string" where
  "TrimSuffix s suf = (if suffix suf s then take (length s - length suf) s else s)"

lemma of_char_less_256: "(of_char c :: nat) < 256"
  using of_char_mod_256 [of c, where 'a = nat] mod_less_divisor [of 256 "of_char c :: nat"] by simp

lemma lower_char_idem [simp]: "lower_char (lower_char c) = lower_char c"
proof (cases "(65::nat) \<le> of_char c \<and> of_char c \<le> (90::nat)")
  case True
  then have "of_char (char_of (of_char c + 32 :: nat)) = (of_char c + 32 :: nat)"
    by (simp add: of_char_of)
  with True show ?thesis by (simp add: lower_char_def)
next
  case False
  then have "lower_char c = c" by (auto simp: lower_char_def)
  then show ?thesis by simp
qed

lemma length_ToLower [simp]: "length (ToLower s) = length s"
  by (simp add: ToLower_def)

lemma ToLower_idem [simp]: "ToLower (ToLower s) = ToLower s"
  by (simp add: ToLower_def)

lemma ToLower_append [go_strings]: "ToLower (s @ t) = ToLower s @ ToLower t"
  by (simp add: ToLower_def)

lemma EqualFold_refl [simp]: "EqualFold s s"
  by (simp add: EqualFold_def)

lemma EqualFold_sym: "EqualFold s t \<Longrightarrow> EqualFold t s"
  by (simp add: EqualFold_def)

lemma EqualFold_trans: "EqualFold s t \<Longrightarrow> EqualFold t u \<Longrightarrow> EqualFold s u"
  by (simp add: EqualFold_def)

lemma TrimSuffix_append [go_strings]: "TrimSuffix (s @ suf) suf = s"
  by (auto simp: TrimSuffix_def suffix_def)

lemma TrimSuffix_no [go_strings]: "\<not> suffix suf s \<Longrightarrow> TrimSuffix s suf = s"
  by (simp add: TrimSuffix_def)

lemma TrimSuffix_snoc [go_strings]:
  "TrimSuffix (s @ [c]) [d] = (if c = d then s else s @ [c])"
  by (simp add: TrimSuffix_def)

lemma TrimSuffix_Nil [simp]: "suf \<noteq> [] \<Longrightarrow> TrimSuffix [] suf = []"
  by (simp add: TrimSuffix_def)

lemma TrimRight_no_trailing: "TrimRight cs s = [] \<or> last (TrimRight cs s) \<notin> cs"
proof (cases "TrimRight cs s = []")
  case False
  then have "dropWhile (\<lambda>c. c \<in> cs) (rev s) \<noteq> []" by (simp add: TrimRight_def)
  from hd_dropWhile [OF this] False show ?thesis by (simp add: TrimRight_def last_rev)
qed simp

section \<open>Searching\<close>

text \<open>\<open>strings.Index\<close>: the offset of the first occurrence of \<open>p\<close>, if there is one.\<close>

fun Index :: "string \<Rightarrow> string \<Rightarrow> nat option" where
  "Index [] p = (if p = [] then Some 0 else None)"
| "Index (c # s) p = (if prefix p (c # s) then Some 0 else map_option Suc (Index s p))"

lemma Index_Some_split:
  "Index s p = Some i \<Longrightarrow> s = take i s @ p @ drop (i + length p) s"
proof (induction s p arbitrary: i rule: Index.induct)
  case (2 c s p)
  then show ?case by (auto split: if_splits simp: prefix_def)
qed (auto split: if_splits)

lemma Index_Some_least:
  "Index s p = Some i \<Longrightarrow> s = u @ p @ v \<Longrightarrow> i \<le> length u"
proof (induction s p arbitrary: i u rule: Index.induct)
  case (2 c s p)
  show ?case
  proof (cases u)
    case Nil
    with "2.prems" have "prefix p (c # s)" by simp
    with "2.prems"(1) show ?thesis by simp
  next
    case (Cons d u')
    with "2.prems" "2.IH" show ?thesis by (auto split: if_splits)
  qed
qed (auto split: if_splits)

lemma Index_None_iff: "Index s p = None \<longleftrightarrow> (\<nexists>u v. s = u @ p @ v)"
proof (induction s p rule: Index.induct)
  case (2 c s p)
  show ?case
  proof
    assume *: "Index (c # s) p = None"
    then have np: "\<not> prefix p (c # s)" and "Index s p = None"
      by (auto split: if_splits)
    with 2 have no: "\<nexists>u v. s = u @ p @ v" by simp
    show "\<nexists>u v. c # s = u @ p @ v"
    proof clarify
      fix u v assume "c # s = u @ p @ v"
      with np no show False by (cases u) (auto simp: prefix_def)
    qed
  next
    assume *: "\<nexists>u v. c # s = u @ p @ v"
    have "\<not> prefix p (c # s)"
      using * by (force simp: prefix_def)
    moreover have "\<nexists>u v. s = u @ p @ v"
      using * by (metis append_Cons)
    ultimately show "Index (c # s) p = None" using 2 by simp
  qed
qed auto

text \<open>\<open>strings.IndexByte\<close> and \<open>strings.IndexAny\<close> are only used to cut a string there.\<close>

definition cut_before :: "char set \<Rightarrow> string \<Rightarrow> string" where
  "cut_before cs s = takeWhile (\<lambda>c. c \<notin> cs) s"

lemma cut_before_clean: "set (cut_before cs s) \<inter> cs = {}"
  by (auto simp: cut_before_def dest: set_takeWhileD)

lemma cut_before_subset: "set (cut_before cs s) \<subseteq> set s"
  by (auto simp: cut_before_def dest: set_takeWhileD)

lemma cut_before_id: "set s \<inter> cs = {} \<Longrightarrow> cut_before cs s = s"
  by (auto simp: cut_before_def takeWhile_eq_all_conv)

section \<open>Splitting and joining\<close>

text \<open>\<open>strings.Split\<close> and \<open>strings.Join\<close> with a one-byte separator.\<close>

fun Split :: "char \<Rightarrow> string \<Rightarrow> string list" where
  "Split c [] = [[]]"
| "Split c (x # xs) =
     (if x = c then [] # Split c xs
      else (case Split c xs of [] \<Rightarrow> [[x]] | y # ys \<Rightarrow> (x # y) # ys))"

fun Join :: "char \<Rightarrow> string list \<Rightarrow> string" where
  "Join c [] = []"
| "Join c [x] = x"
| "Join c (x # y # ys) = x @ c # Join c (y # ys)"

lemma Split_not_Nil [simp]: "Split c s \<noteq> []"
  by (cases s) (auto split: list.splits)

lemma Join_Split [simp]: "Join c (Split c s) = s"
proof (induction s)
  case (Cons x s)
  show ?case
  proof (cases "Split c s")
    case (Cons y ys)
    with Cons.IH show ?thesis by (cases ys) auto
  qed simp
qed simp

lemma Split_no_sep: "x \<in> set (Split c s) \<Longrightarrow> c \<notin> set x"
proof (induction s arbitrary: x)
  case (Cons a s)
  then show ?case by (cases "Split c s") (auto split: if_splits)
qed simp

lemma Split_chars: "x \<in> set (Split c s) \<Longrightarrow> set x \<subseteq> set s"
proof (induction s arbitrary: x)
  case (Cons a s)
  show ?case
  proof (cases "Split c s")
    case (Cons y ys)
    with Cons.prems Cons.IH [of x] Cons.IH [of y] show ?thesis
      by (auto split: if_splits)
  qed (use Cons.prems in \<open>simp\<close>)
qed simp

lemma Split_single [go_strings]: "c \<notin> set s \<Longrightarrow> Split c s = [s]"
  by (induction s) auto

lemma Split_append_sep: "Split c (s @ c # t) = Split c s @ Split c t"
  by (induction s) (auto split: list.splits)

lemma Split_append_first: "c \<notin> set s \<Longrightarrow> Split c (s @ c # t) = s # Split c t"
  by (simp add: Split_append_sep Split_single)

lemma Split_Join: "xs \<noteq> [] \<Longrightarrow> (\<And>x. x \<in> set xs \<Longrightarrow> c \<notin> set x) \<Longrightarrow> Split c (Join c xs) = xs"
  by (induction c xs rule: Join.induct) (auto simp: Split_single Split_append_first)

lemma Join_Cons: "xs \<noteq> [] \<Longrightarrow> Join c (x # xs) = x @ c # Join c xs"
  by (cases xs) auto

lemma Join_append: "xs \<noteq> [] \<Longrightarrow> ys \<noteq> [] \<Longrightarrow> Join c (xs @ ys) = Join c xs @ c # Join c ys"
proof (induction c xs rule: Join.induct)
  case (2 c x)
  then show ?case by (simp add: Join_Cons)
qed auto

lemma set_Join: "set (Join c xs) \<subseteq> insert c (\<Union>x\<in>set xs. set x)"
  by (induction c xs rule: Join.induct) auto

lemma Split_last: "suffix [c] s \<Longrightarrow> last (Split c s) = []"
  by (auto simp: suffix_def Split_append_sep)

lemma Split_singleton_iff: "Split c s = [x] \<longleftrightarrow> s = x \<and> c \<notin> set s"
  by (metis Join_Split Join.simps(2) Split_no_sep Split_single list.set_intros(1))

end
