(* ===== verification/Normalize.thy ===== *)
theory Normalize
  imports Go_Strings
begin

unbundle bit_operations_syntax

text \<open>
  \<open>internal/policy/normalize.go\<close>: the canonical form of a request target that every path rule
  is matched against. The file gives the three functions of the source, the shape of what they
  return, and the meaning of the segment loop: it computes the one dot-free list that
  cancelling \<open>x/..\<close> pairs in any order can reach.
\<close>

section \<open>The functions\<close>

text \<open>Every error wraps \<open>ErrMalformedPath\<close>; the constructors keep which check failed.\<close>

datatype path_error =
    ControlByte nat
  | TruncatedEscape string
  | InvalidEscape string
  | EncodedSeparator string
  | EncodedNUL string
  | DoubleEncoded string
  | LiteralBackslash string
  | EscapesRoot string

definition unhex :: "char \<Rightarrow> nat option" where
  "unhex c =
     (if (48::nat) \<le> of_char c \<and> of_char c \<le> (57::nat) then Some (of_char c - 48)
      else if (97::nat) \<le> of_char c \<and> of_char c \<le> (102::nat) then Some (of_char c - 97 + 10)
      else if (65::nat) \<le> of_char c \<and> of_char c \<le> (70::nat) then Some (of_char c - 65 + 10)
      else None)"

text \<open>The body of the decoding loop; \<open>s\<close> is the whole input, which the errors quote.\<close>

fun decode_from :: "string \<Rightarrow> string \<Rightarrow> (path_error, string) result" where
  "decode_from s [] = Inr []"
| "decode_from s (x # xs) =
     (if x \<noteq> CHR ''%'' then
        (case decode_from s xs of Inl e \<Rightarrow> Inl e | Inr b \<Rightarrow> Inr (x # b))
      else
        (case xs of
           h # l # rest \<Rightarrow>
             (case (unhex h, unhex l) of
                (Some hi, Some lo) \<Rightarrow>
                  (let c = char_of (push_bit 4 hi OR lo) in
                   if c = CHR ''/'' \<or> c = CHR 0x5C then Inl (EncodedSeparator s)
                   else if c = CHR 0x00 then Inl (EncodedNUL s)
                   else (case decode_from s rest of Inl e \<Rightarrow> Inl e | Inr b \<Rightarrow> Inr (c # b)))
              | _ \<Rightarrow> Inl (InvalidEscape [x, h, l]))
         | _ \<Rightarrow> Inl (TruncatedEscape s)))"

definition decodeOnce :: "string \<Rightarrow> (path_error, string) result" where
  "decodeOnce s = (if CHR ''%'' \<notin> set s then Inr s else decode_from s s)"

definition is_control :: "char \<Rightarrow> bool" where
  "is_control c \<longleftrightarrow> of_char c < (32::nat) \<or> c = CHR 0x7F"

fun control_at :: "nat \<Rightarrow> string \<Rightarrow> nat option" where
  "control_at i [] = None"
| "control_at i (c # s) = (if is_control c then Some i else control_at (Suc i) s)"

text \<open>The loop over the segments: \<open>out\<close> is the slice the code appends to and truncates.\<close>

fun normalize_segments ::
    "string \<Rightarrow> string list \<Rightarrow> string list \<Rightarrow> (path_error, string list) result" where
  "normalize_segments target [] out = Inr out"
| "normalize_segments target (seg # segs) out =
     (let seg = cut_before {CHR '';''} seg in
      if seg = [] \<or> seg = ''.'' then normalize_segments target segs out
      else if seg = ''..'' then
        (if out = [] then Inl (EscapesRoot target)
         else normalize_segments target segs (butlast out))
      else normalize_segments target segs (out @ [seg]))"

definition NormalizePath :: "string \<Rightarrow> (path_error, string) result" where
  "NormalizePath target0 =
     (if target0 = [] then Inr ''/'' else
      let target = cut_before {CHR ''?'', CHR ''#''} target0 in
      if target = [] then Inr ''/'' else
      case control_at 0 target of Some i \<Rightarrow> Inl (ControlByte i) | None \<Rightarrow>
      case decodeOnce target of Inl e \<Rightarrow> Inl e | Inr decoded0 \<Rightarrow>
      if CHR ''%'' \<in> set decoded0 then Inl (DoubleEncoded target) else
      if CHR 0x5C \<in> set decoded0 then Inl (LiteralBackslash target) else
      let decoded = (if prefix ''/'' decoded0 then decoded0 else CHR ''/'' # decoded0) in
      case normalize_segments target (Split (CHR ''/'') decoded) [] of Inl e \<Rightarrow> Inl e | Inr out \<Rightarrow>
      let normalized = CHR ''/'' # Join (CHR ''/'') out in
      Inr (if out \<noteq> [] \<and> suffix ''/'' decoded then normalized @ ''/'' else normalized))"

section \<open>Decoding\<close>

lemma unhex_less_16: "unhex c = Some n \<Longrightarrow> n < 16"
  by (auto simp: unhex_def split: if_splits)

text \<open>\<open>hi<<4 | lo\<close> on the two nibbles is the byte they denote; nothing is lost at width 8.\<close>

lemma nibbles_value:
  assumes "lo < 16"
  shows "push_bit 4 hi OR lo = 16 * hi + (lo::nat)"
proof -
  have "take_bit 4 lo = lo" using assms by (simp add: take_bit_nat_eq_self)
  moreover have "push_bit 4 hi AND take_bit 4 lo = 0" by (simp add: bit_eq_iff bit_simps)
  ultimately have "push_bit 4 hi + lo = push_bit 4 hi OR lo"
    by (intro disjunctive_add_eq_or) simp
  then show ?thesis by (simp add: push_bit_eq_mult)
qed

lemma decode_from_chars:
  "decode_from s xs = Inr b \<Longrightarrow> set b \<subseteq> set xs \<union> - {CHR ''/'', CHR 0x5C, CHR 0x00}"
proof (induction s xs arbitrary: b rule: decode_from.induct)
  case (2 s x xs)
  show ?case
  proof (cases "x = CHR ''%''")
    case False
    with "2.prems" "2.IH"(1) show ?thesis by (fastforce split: sum.splits)
  next
    case True
    with "2.prems" obtain h l rest hi lo b' where *: "xs = h # l # rest" "unhex h = Some hi"
      "unhex l = Some lo" "decode_from s rest = Inr b'" "b = char_of (push_bit 4 hi OR lo) # b'"
      "char_of (push_bit 4 hi OR lo) \<notin> {CHR ''/'', CHR 0x5C, CHR 0x00}"
      by (auto simp: Let_def split: list.splits option.splits sum.splits if_splits)
    with True "2.IH"(2) [of h "l # rest" l rest] show ?thesis by (fastforce simp: Let_def)
  qed
qed simp

lemma decode_from_plain: "CHR ''%'' \<notin> set xs \<Longrightarrow> decode_from s xs = Inr xs"
  by (induction xs) auto

lemma decodeOnce_chars:
  "decodeOnce s = Inr b \<Longrightarrow> set b \<subseteq> set s \<union> - {CHR ''/'', CHR 0x5C, CHR 0x00}"
  by (auto simp: decodeOnce_def dest: decode_from_chars split: if_splits)

lemma decodeOnce_is_decode_from: "decodeOnce s = decode_from s s"
  by (simp add: decodeOnce_def decode_from_plain)

lemma control_at_None_iff: "control_at i s = None \<longleftrightarrow> (\<forall>c\<in>set s. \<not> is_control c)"
  by (induction s arbitrary: i) auto

lemma NUL_is_control [simp]: "is_control (CHR 0x00)"
  by (simp add: is_control_def)

section \<open>Shape of the result\<close>

definition clean_segment :: "string \<Rightarrow> bool" where
  "clean_segment seg \<longleftrightarrow> seg \<notin> {[], ''.'', ''..''} \<and>
     set seg \<inter> {CHR ''/'', CHR '';'', CHR ''%'', CHR 0x5C, CHR 0x00} = {}"

text \<open>All the syntax of paths needs is that a segment is not empty and has no separator.\<close>

definition plain_segment :: "string \<Rightarrow> bool" where
  "plain_segment seg \<longleftrightarrow> seg \<noteq> [] \<and> CHR ''/'' \<notin> set seg"

lemma clean_plain: "clean_segment seg \<Longrightarrow> plain_segment seg"
  by (auto simp: clean_segment_def plain_segment_def)

lemma list_clean_plain: "list_all clean_segment segs \<Longrightarrow> list_all plain_segment segs"
  by (auto simp: list_all_iff clean_plain)

text \<open>How a list of segments is written as a path, with or without a trailing slash.\<close>

definition render :: "string list \<Rightarrow> bool \<Rightarrow> string" where
  "render segs slash =
     CHR ''/'' # Join (CHR ''/'') segs @ (if segs \<noteq> [] \<and> slash then ''/'' else [])"

definition canonical_path :: "string \<Rightarrow> bool" where
  "canonical_path p \<longleftrightarrow> (\<exists>segs slash. list_all clean_segment segs \<and> p = render segs slash)"

lemma clean_segment_no_slash: "clean_segment seg \<Longrightarrow> CHR ''/'' \<notin> set seg"
  by (auto simp: clean_segment_def)

lemma cut_semicolon [simp]: "clean_segment seg \<Longrightarrow> cut_before {CHR '';''} seg = seg"
  by (rule cut_before_id) (auto simp: clean_segment_def)

lemma normalize_segments_clean:
  assumes "normalize_segments t segs out = Inr r"
    and "list_all clean_segment out"
    and "\<forall>seg\<in>set segs. set seg \<inter> {CHR ''/'', CHR ''%'', CHR 0x5C, CHR 0x00} = {}"
  shows "list_all clean_segment r"
  using assms
proof (induction t segs out rule: normalize_segments.induct)
  case (2 t seg segs out)
  let ?c = "cut_before {CHR '';''} seg"
  have c: "set ?c \<inter> {CHR ''/'', CHR '';'', CHR ''%'', CHR 0x5C, CHR 0x00} = {}"
    using "2.prems"(3) cut_before_clean [of "{CHR '';''}" seg] cut_before_subset [of "{CHR '';''}" seg]
    by auto
  have segs: "\<forall>seg\<in>set segs. set seg \<inter> {CHR ''/'', CHR ''%'', CHR 0x5C, CHR 0x00} = {}"
    using "2.prems"(3) by simp
  consider "?c = [] \<or> ?c = ''.''" | "?c = ''..''" | "?c \<notin> {[], ''.'', ''..''}" by auto
  then show ?case
  proof cases
    case 1
    with "2.prems" segs "2.IH"(1) [OF refl] show ?thesis by simp
  next
    case 2
    with "2.prems"(1) have ne: "out \<noteq> []" and r: "normalize_segments t segs (butlast out) = Inr r"
      by (auto split: if_splits)
    from "2.prems"(2) have "list_all clean_segment (butlast out)"
      by (auto simp: list_all_iff dest: in_set_butlastD)
    with 2 ne r segs "2.IH"(2) [OF refl] show ?thesis by simp
  next
    case 3
    with c have "clean_segment ?c" by (simp add: clean_segment_def)
    with 3 "2.prems" segs "2.IH"(3) [OF refl] show ?thesis by (simp add: Let_def)
  qed
qed simp

lemma NormalizePath_cases:
  assumes "NormalizePath t = Inr p"
  obtains (root) "p = ''/''"
  | (segs) target decoded0 decoded out where
      "target = cut_before {CHR ''?'', CHR ''#''} t" "control_at 0 target = None"
      "decodeOnce target = Inr decoded0" "CHR ''%'' \<notin> set decoded0" "CHR 0x5C \<notin> set decoded0"
      "decoded = (if prefix ''/'' decoded0 then decoded0 else CHR ''/'' # decoded0)"
      "normalize_segments target (Split (CHR ''/'') decoded) [] = Inr out"
      "p = render out (suffix ''/'' decoded)"
proof (cases "t = [] \<or> cut_before {CHR ''?'', CHR ''#''} t = []")
  case True
  with assms have "p = ''/''" by (auto simp: NormalizePath_def Let_def split: if_splits)
  then show ?thesis by (rule root)
next
  case False
  define target where "target = cut_before {CHR ''?'', CHR ''#''} t"
  from False have ne: "t \<noteq> []" "target \<noteq> []" by (simp_all add: target_def)
  note eq = assms [unfolded NormalizePath_def Let_def, folded target_def, simplified ne if_False]
  from eq have ctl: "control_at 0 target = None" by (simp split: option.splits)
  then obtain decoded0 where dec: "decodeOnce target = Inr decoded0"
    using eq by (simp split: sum.splits)
  with eq ctl have clean: "CHR ''%'' \<notin> set decoded0" "CHR 0x5C \<notin> set decoded0"
    by (simp_all split: if_splits)
  define decoded where
    "decoded = (if prefix ''/'' decoded0 then decoded0 else CHR ''/'' # decoded0)"
  have eq2: "(case normalize_segments target (Split (CHR ''/'') decoded) [] of Inl e \<Rightarrow> Inl e
     | Inr out \<Rightarrow> Inr (if out \<noteq> [] \<and> suffix ''/'' decoded then (CHR ''/'' # Join (CHR ''/'') out) @ ''/''
                         else CHR ''/'' # Join (CHR ''/'') out)) = Inr p"
    using eq [unfolded ctl dec option.case sum.case, folded decoded_def] clean by simp
  then obtain out where out: "normalize_segments target (Split (CHR ''/'') decoded) [] = Inr out"
    by (simp split: sum.splits)
  with eq2 have "p = render out (suffix ''/'' decoded)"
    by (auto simp: render_def split: if_splits)
  with target_def ctl dec clean decoded_def out show ?thesis by (rule segs)
qed

lemma decoded_no_NUL:
  assumes "control_at 0 target = None" "decodeOnce target = Inr decoded"
  shows "CHR 0x00 \<notin> set decoded"
proof
  assume "CHR 0x00 \<in> set decoded"
  with decodeOnce_chars [OF assms(2)] have "CHR 0x00 \<in> set target" by auto
  with assms(1) show False by (auto simp: control_at_None_iff)
qed

lemma NormalizePath_canonical: "NormalizePath t = Inr p \<Longrightarrow> canonical_path p"
proof (erule NormalizePath_cases)
  assume "p = ''/''"
  then show "canonical_path p"
    unfolding canonical_path_def by (intro exI [of _ "[]"] exI [of _ False]) (simp add: render_def)
next
  fix target decoded0 decoded out
  assume *: "control_at 0 target = None" "decodeOnce target = Inr decoded0"
    "CHR ''%'' \<notin> set decoded0" "CHR 0x5C \<notin> set decoded0"
    "decoded = (if prefix ''/'' decoded0 then decoded0 else CHR ''/'' # decoded0)"
    "normalize_segments target (Split (CHR ''/'') decoded) [] = Inr out"
    "p = render out (suffix ''/'' decoded)"
  let ?bad = "{CHR ''/'', CHR ''%'', CHR 0x5C, CHR 0x00}"
  have "set decoded \<subseteq> insert (CHR ''/'') (set decoded0)" using *(5) by auto
  then have bad: "set decoded \<inter> (?bad - {CHR ''/''}) = {}"
    using *(3,4) decoded_no_NUL [OF *(1,2)] by auto
  have "set seg \<inter> ?bad = {}" if "seg \<in> set (Split (CHR ''/'') decoded)" for seg
    using Split_chars [OF that] Split_no_sep [OF that] bad by blast
  then have "list_all clean_segment out"
    by (intro normalize_segments_clean [OF *(6)]) auto
  with *(7) show "canonical_path p" by (auto simp: canonical_path_def)
qed

section \<open>What the segment loop computes\<close>

text \<open>
  An origin server resolves dot segments by cancelling: it may drop an empty or \<open>.\<close> segment
  anywhere and remove any ordinary segment together with the \<open>..\<close> that follows it, in any
  order. The loop's result is the one dot-free list this can end in.
\<close>

definition ordinary :: "string \<Rightarrow> bool" where
  "ordinary seg \<longleftrightarrow> seg \<notin> {[], ''.'', ''..''}"

inductive cancel :: "string list \<Rightarrow> string list \<Rightarrow> bool" where
  cancel_skip: "seg \<in> {[], ''.''} \<Longrightarrow> cancel (xs @ seg # ys) (xs @ ys)"
| cancel_up: "ordinary seg \<Longrightarrow> cancel (xs @ seg # ''..'' # ys) (xs @ ys)"

definition strip_params :: "string list \<Rightarrow> string list" where
  "strip_params = map (cut_before {CHR '';''})"

text \<open>The same walk without the error texts and on stripped segments.\<close>

fun walk :: "string list \<Rightarrow> string list \<Rightarrow> string list option" where
  "walk out [] = Some out"
| "walk out (seg # segs) =
     (if seg \<in> {[], ''.''} then walk out segs
      else if seg = ''..'' then (if out = [] then None else walk (butlast out) segs)
      else walk (out @ [seg]) segs)"

lemma normalize_segments_walk:
  "normalize_segments t segs out =
     (case walk out (strip_params segs) of None \<Rightarrow> Inl (EscapesRoot t) | Some r \<Rightarrow> Inr r)"
  by (induction t segs out rule: normalize_segments.induct) (simp_all add: strip_params_def Let_def)

lemma walk_append:
  "walk out (xs @ ys) = (case walk out xs of None \<Rightarrow> None | Some r \<Rightarrow> walk r ys)"
  by (induction out xs rule: walk.induct) auto

lemma walk_ordinary: "list_all ordinary xs \<Longrightarrow> walk out xs = Some (out @ xs)"
  by (induction xs arbitrary: out) (auto simp: ordinary_def)

lemma walk_cancel: "cancel xs ys \<Longrightarrow> walk out xs = walk out ys"
proof (induction rule: cancel.induct)
  case (cancel_skip seg xs ys)
  then show ?case by (auto simp: walk_append split: option.splits)
next
  case (cancel_up seg xs ys)
  then have "walk r (seg # ''..'' # ys) = walk r ys" for r by (simp add: ordinary_def)
  then show ?case by (simp add: walk_append del: walk.simps split: option.splits)
qed

lemma walk_cancels: "cancel\<^sup>*\<^sup>* xs ys \<Longrightarrow> walk out xs = walk out ys"
  by (induction rule: rtranclp_induct) (auto dest: walk_cancel)

lemma cancel_reaches_walk:
  "list_all ordinary out \<Longrightarrow> walk out segs = Some r \<Longrightarrow>
     cancel\<^sup>*\<^sup>* (out @ segs) r \<and> list_all ordinary r"
proof (induction out segs rule: walk.induct)
  case (2 out seg segs)
  consider "seg \<in> {[], ''.''}" | "seg = ''..''" | "ordinary seg" by (auto simp: ordinary_def)
  then show ?case
  proof cases
    case 1
    then have "cancel (out @ seg # segs) (out @ segs)" by (rule cancel_skip)
    with 1 "2.prems" "2.IH"(1) show ?thesis by (auto intro: converse_rtranclp_into_rtranclp)
  next
    case 2
    with "2.prems" obtain out' x where out: "out = out' @ [x]" and w: "walk out' segs = Some r"
      by (cases out rule: rev_cases) auto
    with "2.prems" have "ordinary x" "list_all ordinary out'" by auto
    moreover from 2 out \<open>ordinary x\<close> have "cancel (out @ seg # segs) (out' @ segs)"
      using cancel_up [of x out' segs] by simp
    ultimately show ?thesis
      using 2 out w "2.IH"(2) by (auto intro: converse_rtranclp_into_rtranclp)
  next
    case 3
    with "2.prems" "2.IH"(3) show ?thesis by (auto simp: ordinary_def)
  qed
qed simp

lemma walk_iff_cancel:
  "walk [] segs = Some r \<longleftrightarrow> cancel\<^sup>*\<^sup>* segs r \<and> list_all ordinary r"
  using cancel_reaches_walk [of "[]" segs r] walk_cancels [of segs r "[]"] walk_ordinary [of r "[]"]
  by auto

section \<open>Normal forms are fixed points\<close>

lemma clean_segment_ordinary: "clean_segment seg \<Longrightarrow> ordinary seg"
  by (simp add: clean_segment_def ordinary_def)

lemma strip_params_clean: "list_all clean_segment segs \<Longrightarrow> strip_params segs = segs"
  by (induction segs) (auto simp: strip_params_def)

lemma Split_render:
  assumes "list_all plain_segment segs"
  shows "Split (CHR ''/'') (render segs slash) =
    [] # (if segs = [] then [[]] else segs @ (if slash then [[]] else []))"
proof (cases "segs = []")
  case False
  have "Split (CHR ''/'') (Join (CHR ''/'') segs) = segs"
    using assms False by (intro Split_Join) (auto simp: list_all_iff plain_segment_def)
  with False show ?thesis
    using Split_append_sep [of "CHR ''/''" "Join (CHR ''/'') segs" "[]"] by (simp add: render_def)
qed (simp add: render_def)

lemma suffix_slash_render:
  assumes "list_all plain_segment segs"
  shows "suffix ''/'' (render segs slash) \<longleftrightarrow> segs = [] \<or> slash"
proof
  assume suf: "suffix ''/'' (render segs slash)"
  show "segs = [] \<or> slash"
  proof (rule ccontr)
    assume *: "\<not> ?thesis"
    with Split_last [OF suf] Split_render [OF assms, of slash] have "last segs = []" by simp
    moreover from * have "last segs \<in> set segs" by simp
    ultimately show False using assms by (auto simp: list_all_iff plain_segment_def)
  qed
qed (auto simp: render_def suffix_def)

lemma walk_Split_render:
  assumes "list_all clean_segment segs"
  shows "walk [] (strip_params (Split (CHR ''/'') (render segs slash))) = Some segs"
proof -
  have "list_all ordinary segs"
    using assms by (auto simp: list_all_iff clean_segment_ordinary)
  then have "walk [] segs = Some segs" by (simp add: walk_ordinary)
  moreover have "strip_params (segs @ [[]]) = segs @ [[]]"
    using strip_params_clean [OF assms] by (simp add: strip_params_def cut_before_def)
  ultimately show ?thesis
    using strip_params_clean [OF assms] Split_render [OF list_clean_plain [OF assms], of slash]
    by (simp add: strip_params_def cut_before_def walk_append)
qed

lemma set_render:
  "list_all clean_segment segs \<Longrightarrow> set (render segs slash) \<inter> {CHR ''%'', CHR 0x5C} = {}"
  using set_Join [of "CHR ''/''" segs] by (fastforce simp: render_def list_all_iff clean_segment_def)

lemma NormalizePath_fixed:
  assumes "canonical_path p" and plain: "\<forall>c\<in>set p. c \<noteq> CHR ''?'' \<and> c \<noteq> CHR ''#'' \<and> \<not> is_control c"
  shows "NormalizePath p = Inr p"
proof -
  from assms(1) obtain segs slash where segs: "list_all clean_segment segs" and p: "p = render segs slash"
    by (auto simp: canonical_path_def)
  have ne: "p \<noteq> []" and pre: "prefix ''/'' p" by (simp_all add: p render_def)
  have cut: "cut_before {CHR ''?'', CHR ''#''} p = p" using plain by (intro cut_before_id) auto
  have ctl: "control_at 0 p = None" using plain by (simp add: control_at_None_iff)
  have bad: "CHR ''%'' \<notin> set p" "CHR 0x5C \<notin> set p" using set_render [OF segs, of slash] p by auto
  then have dec: "decodeOnce p = Inr p" by (simp add: decodeOnce_def)
  have loop: "normalize_segments p (Split (CHR ''/'') p) [] = Inr segs"
    using walk_Split_render [OF segs, of slash] by (simp add: normalize_segments_walk p)
  have slash: "suffix ''/'' p \<longleftrightarrow> segs = [] \<or> slash" using suffix_slash_render [OF list_clean_plain [OF segs]] p by simp
  show ?thesis
    unfolding NormalizePath_def Let_def cut if_not_P [OF ne] ctl option.case dec sum.case
      if_not_P [OF bad(1)] if_not_P [OF bad(2)] if_P [OF pre] loop slash
    by (auto simp: p render_def)
qed

end
