(* ===== verification/Matching.thy ===== *)
theory Matching
  imports Normalize
begin

text \<open>
  \<open>internal/policy/match.go\<close>: host, port, path and method patterns. Each matcher of the source
  is followed by the specification it implements: \<open>wildcard\<close> for one segment, \<open>segments_match\<close>
  for segment lists, a label equation for hosts, list prefixes for literal path rules.
\<close>

section \<open>Hosts\<close>

definition canonicalHost :: "string \<Rightarrow> string" where
  "canonicalHost h = TrimSuffix (ToLower (TrimSpace h)) ''.''"

definition MatchHost :: "string \<Rightarrow> string \<Rightarrow> bool" where
  "MatchHost pattern0 host0 =
     (let pattern = canonicalHost pattern0; host = canonicalHost host0 in
      if pattern = [] \<or> host = [] then False
      else if pattern = ''*'' \<or> pattern = ''**'' then True
      else if prefix ''**.'' pattern then
        (let suf = drop 2 pattern in suffix suf host \<and> length suf < length host)
      else if prefix ''*.'' pattern then
        (let suf = drop 1 pattern in
         if \<not> suffix suf host \<or> length host \<le> length suf then False
         else (let label = take (length host - length suf) host in
               label \<noteq> [] \<and> CHR ''.'' \<notin> set label))
      else pattern = host)"

lemma MatchHost_canonical_host: "canonicalHost h = canonicalHost h' \<Longrightarrow> MatchHost p h = MatchHost p h'"
  by (simp add: MatchHost_def)

lemma MatchHost_exact:
  assumes "\<not> prefix ''*.'' (canonicalHost p)" "\<not> prefix ''**.'' (canonicalHost p)"
    and "canonicalHost p \<noteq> ''*''" "canonicalHost p \<noteq> ''**''"
  shows "MatchHost p h \<longleftrightarrow> canonicalHost p \<noteq> [] \<and> canonicalHost h = canonicalHost p"
  using assms by (auto simp: MatchHost_def Let_def)

lemma MatchHost_one_label:
  assumes "canonicalHost p = ''*.'' @ s" "s \<noteq> []"
  shows "MatchHost p h \<longleftrightarrow>
    (\<exists>label. label \<noteq> [] \<and> CHR ''.'' \<notin> set label \<and> canonicalHost h = label @ CHR ''.'' # s)"
proof
  assume "MatchHost p h"
  with assms have suf: "suffix (CHR ''.'' # s) (canonicalHost h)"
    and lab: "take (length (canonicalHost h) - length (CHR ''.'' # s)) (canonicalHost h) \<noteq> []"
      "CHR ''.'' \<notin> set (take (length (canonicalHost h) - length (CHR ''.'' # s)) (canonicalHost h))"
    by (auto simp: MatchHost_def Let_def split: if_splits)
  from lab suffix_take_drop [OF suf] show "\<exists>label. label \<noteq> [] \<and> CHR ''.'' \<notin> set label \<and>
      canonicalHost h = label @ CHR ''.'' # s"
    by metis
next
  assume "\<exists>label. label \<noteq> [] \<and> CHR ''.'' \<notin> set label \<and> canonicalHost h = label @ CHR ''.'' # s"
  then obtain label where "label \<noteq> []" "CHR ''.'' \<notin> set label"
    "canonicalHost h = label @ CHR ''.'' # s" by blast
  with assms show "MatchHost p h" by (auto simp: MatchHost_def Let_def suffix_def)
qed

lemma MatchHost_any_depth:
  assumes "canonicalHost p = ''**.'' @ s" "s \<noteq> []"
  shows "MatchHost p h \<longleftrightarrow> (\<exists>labels. labels \<noteq> [] \<and> canonicalHost h = labels @ CHR ''.'' # s)"
proof -
  let ?h = "canonicalHost h" and ?suf = "CHR ''.'' # s"
  have "MatchHost p h \<longleftrightarrow> ?h \<noteq> [] \<and> suffix ?suf ?h \<and> length ?suf < length ?h"
    using assms by (simp add: MatchHost_def Let_def)
  also have "\<dots> \<longleftrightarrow> (\<exists>labels. labels \<noteq> [] \<and> ?h = labels @ ?suf)"
    by (auto simp: suffix_def)
  finally show ?thesis .
qed

section \<open>Ports and methods\<close>

definition DefaultPorts :: "int list" where
  "DefaultPorts = [80, 443]"

definition MatchPort :: "int list \<Rightarrow> int \<Rightarrow> bool" where
  "MatchPort ports0 port =
     (let ports = (if ports0 = [] then DefaultPorts else ports0) in list_ex (\<lambda>p. p = port) ports)"

lemma MatchPort_iff: "MatchPort ports port \<longleftrightarrow> port \<in> (if ports = [] then {80, 443} else set ports)"
  by (auto simp: MatchPort_def DefaultPorts_def list_ex_iff)

definition MatchMethod :: "string list \<Rightarrow> string \<Rightarrow> bool" where
  "MatchMethod methods m = (if methods = [] then True else list_ex (\<lambda>x. EqualFold x m) methods)"

lemma MatchMethod_iff: "MatchMethod methods m \<longleftrightarrow> methods = [] \<or> ToLower m \<in> ToLower ` set methods"
  by (auto simp: MatchMethod_def list_ex_iff EqualFold_def image_iff eq_commute)

section \<open>One path segment\<close>

text \<open>The loop over the parts between the first and the last; \<open>None\<close> is the early \<open>return false\<close>.\<close>

fun match_parts :: "string list \<Rightarrow> string \<Rightarrow> string option" where
  "match_parts [] seg = Some seg"
| "match_parts (part # parts) seg =
     (if part = [] then match_parts parts seg
      else (case Index seg part of
              None \<Rightarrow> None
            | Some i \<Rightarrow> match_parts parts (drop (i + length part) seg)))"

definition matchSegment :: "string \<Rightarrow> string \<Rightarrow> bool" where
  "matchSegment pattern seg0 =
     (if pattern = ''*'' then True
      else if CHR ''*'' \<notin> set pattern then pattern = seg0
      else (let parts = Split (CHR ''*'') pattern in
            if \<not> prefix (hd parts) seg0 then False
            else (let seg = drop (length (hd parts)) seg0 in
                  case match_parts (butlast (tl parts)) seg of
                    None \<Rightarrow> False
                  | Some rest \<Rightarrow> suffix (last parts) rest)))"

text \<open>What it should accept: \<open>*\<close> stands for any string, every other character for itself.\<close>

inductive wildcard :: "string \<Rightarrow> string \<Rightarrow> bool" where
  wild_Nil: "wildcard [] []"
| wild_char: "c \<noteq> CHR ''*'' \<Longrightarrow> wildcard p s \<Longrightarrow> wildcard (c # p) (c # s)"
| wild_star: "wildcard p s \<Longrightarrow> wildcard (CHR ''*'' # p) (u @ s)"

inductive_simps wildcard_Nil: "wildcard [] s"
inductive_simps wildcard_Cons: "wildcard (c # p) s"

lemma wildcard_literal: "CHR ''*'' \<notin> set u \<Longrightarrow> wildcard (u @ p) s \<longleftrightarrow> (\<exists>v. s = u @ v \<and> wildcard p v)"
proof (induction u arbitrary: s)
  case (Cons c u)
  then show ?case by (auto simp: wildcard_Cons)
qed simp

lemma wildcard_star_iff: "wildcard (CHR ''*'' # p) s \<longleftrightarrow> (\<exists>u v. s = u @ v \<and> wildcard p v)"
  by (auto simp: wildcard_Cons)

lemma wildcard_plain: "CHR ''*'' \<notin> set p \<Longrightarrow> wildcard p s \<longleftrightarrow> s = p"
  using wildcard_literal [of p "[]" s] by (auto simp: wildcard_Nil)

text \<open>
  Leftmost matching loses nothing: what follows an occurrence further right also follows,
  with more in front, the first occurrence.
\<close>

fun gaps_match :: "string list \<Rightarrow> string \<Rightarrow> string \<Rightarrow> bool" where
  "gaps_match [] final seg \<longleftrightarrow> suffix final seg"
| "gaps_match (p # ps) final seg \<longleftrightarrow> (\<exists>u v. seg = u @ p @ v \<and> gaps_match ps final v)"

lemma gaps_match_more:
  assumes "gaps_match ps final v"
  shows "gaps_match ps final (w @ v)"
proof (cases ps)
  case (Cons p qs)
  with assms obtain x y where xy: "v = x @ p @ y" "gaps_match qs final y" by auto
  then have "w @ v = (w @ x) @ p @ y" by simp
  with Cons xy(2) show ?thesis by (metis gaps_match.simps(2))
qed (use assms in \<open>auto simp: suffix_def\<close>)

lemma gaps_match_empty_part: "gaps_match ([] # ps) final seg \<longleftrightarrow> gaps_match ps final seg"
  by (auto intro: gaps_match_more)

lemma match_parts_complete:
  "(case match_parts ps seg of None \<Rightarrow> False | Some r \<Rightarrow> suffix final r) \<longleftrightarrow> gaps_match ps final seg"
proof (induction ps seg rule: match_parts.induct)
  case (2 part parts seg)
  show ?case
  proof (cases "part = []")
    case True
    with 2(1) show ?thesis by (metis gaps_match_empty_part match_parts.simps(2))
  next
    case ne: False
    show ?thesis
    proof (cases "Index seg part")
      case None
      then have "\<not> gaps_match (part # parts) final seg" by (auto simp: Index_None_iff)
      with None ne show ?thesis by simp
    next
      case (Some i)
      let ?rest = "drop (i + length part) seg"
      have "gaps_match (part # parts) final seg \<longleftrightarrow> gaps_match parts final ?rest"
      proof
        assume "gaps_match (part # parts) final seg"
        then obtain u v where uv: "seg = u @ part @ v" "gaps_match parts final v" by auto
        have "i \<le> length u" using Index_Some_least [OF Some uv(1)] .
        with uv(1) have "?rest = drop (i + length part) (u @ part) @ v" by simp
        then have "\<exists>w. ?rest = w @ v" by blast
        with uv(2) show "gaps_match parts final ?rest" by (auto intro: gaps_match_more)
      next
        assume "gaps_match parts final ?rest"
        with Index_Some_split [OF Some] show "gaps_match (part # parts) final seg" by auto
      qed
      with 2(2) [OF ne Some] Some ne show ?thesis by simp
    qed
  qed
qed simp

lemma wildcard_gaps:
  assumes "\<forall>p\<in>set (ps @ [final]). CHR ''*'' \<notin> set p"
  shows "wildcard (CHR ''*'' # Join (CHR ''*'') (ps @ [final])) seg \<longleftrightarrow> gaps_match ps final seg"
  using assms
proof (induction ps arbitrary: seg)
  case Nil
  then show ?case by (auto simp: wildcard_star_iff wildcard_plain suffix_def)
next
  case (Cons p ps)
  have "Join (CHR ''*'') ((p # ps) @ [final]) = p @ CHR ''*'' # Join (CHR ''*'') (ps @ [final])"
    by (simp add: Join_Cons)
  with Cons show ?case by (auto simp: wildcard_star_iff [of "p @ _"] wildcard_literal)
qed

lemma matchSegment_wildcard: "matchSegment pattern seg \<longleftrightarrow> wildcard pattern seg"
proof (cases "CHR ''*'' \<in> set pattern")
  case False
  then show ?thesis by (auto simp: matchSegment_def wildcard_plain)
next
  case True
  define parts where "parts = Split (CHR ''*'') pattern"
  have clean: "\<forall>p\<in>set parts. CHR ''*'' \<notin> set p" by (auto simp: parts_def dest: Split_no_sep)
  have pat: "Join (CHR ''*'') parts = pattern" by (simp add: parts_def)
  have "parts \<noteq> []" by (simp add: parts_def)
  moreover have "tl parts \<noteq> []"
  proof
    assume "tl parts = []"
    with \<open>parts \<noteq> []\<close> have "parts = [hd parts]" by (cases parts) auto
    with True show False by (metis Split_singleton_iff parts_def)
  qed
  ultimately obtain p ps l where parts: "parts = p # ps @ [l]"
    by (metis append_butlast_last_id list.collapse)
  have "pattern = p @ CHR ''*'' # Join (CHR ''*'') (ps @ [l])"
    using pat by (simp add: parts Join_Cons)
  then have "wildcard pattern seg \<longleftrightarrow> (\<exists>v. seg = p @ v \<and> gaps_match ps l v)"
    using clean by (simp add: parts wildcard_literal wildcard_gaps)
  also have "\<dots> \<longleftrightarrow> prefix p seg \<and> gaps_match ps l (drop (length p) seg)"
    by (auto simp: prefix_def)
  also have "\<dots> \<longleftrightarrow> matchSegment pattern seg"
  proof (cases "pattern = ''*''")
    case True
    with parts_def parts have "ps = []" "p = []" "l = []" by simp_all
    with True show ?thesis by (simp add: matchSegment_def)
  next
    case False
    with True parts show ?thesis
      by (auto simp: matchSegment_def Let_def parts_def [symmetric]
          match_parts_complete [symmetric] split: option.splits)
  qed
  finally show ?thesis by simp
qed

section \<open>Segment lists\<close>

definition splitSegments :: "string \<Rightarrow> string list" where
  "splitSegments p0 =
     (let p = trim_with (\<lambda>c. c = CHR ''/'') p0 in if p = [] then [] else Split (CHR ''/'') p)"

fun matchGlob :: "string list \<Rightarrow> string list \<Rightarrow> bool" where
  "matchGlob [] path = (path = [])"
| "matchGlob (p # ps) path =
     (if p = ''**'' then
        (if ps = [] then True
         else list_ex (\<lambda>i. matchGlob ps (drop i path)) [0..<Suc (length path)])
      else (case path of
              [] \<Rightarrow> False
            | seg # rest \<Rightarrow> (if \<not> matchSegment p seg then False else matchGlob ps rest)))"

inductive segments_match :: "string list \<Rightarrow> string list \<Rightarrow> bool" where
  sm_Nil: "segments_match [] []"
| sm_deep: "segments_match ps path \<Longrightarrow> segments_match (''**'' # ps) (skipped @ path)"
| sm_one: "p \<noteq> ''**'' \<Longrightarrow> wildcard p seg \<Longrightarrow> segments_match ps path \<Longrightarrow>
    segments_match (p # ps) (seg # path)"

inductive_simps segments_match_Nil: "segments_match [] path"
inductive_simps segments_match_Cons: "segments_match (p # ps) path"

lemma segments_match_deep_only: "segments_match [''**''] path"
  using sm_deep [OF sm_Nil, of path] by simp

lemma matchGlob_segments_match: "matchGlob pattern path \<longleftrightarrow> segments_match pattern path"
proof (induction pattern arbitrary: path)
  case Nil
  then show ?case by (simp add: segments_match_Nil)
next
  case (Cons p ps)
  show ?case
  proof (cases "p = ''**''")
    case deep: True
    show ?thesis
    proof (cases "ps = []")
      case True
      with deep show ?thesis by (simp add: segments_match_deep_only)
    next
      case False
      have "(\<exists>i\<le>length path. segments_match ps (drop i path)) \<longleftrightarrow>
          (\<exists>u v. path = u @ v \<and> segments_match ps v)"
        by (metis append_eq_conv_conj append_take_drop_id length_append le_add1)
      moreover have "matchGlob (p # ps) path \<longleftrightarrow> (\<exists>i\<le>length path. segments_match ps (drop i path))"
        using deep False Cons.IH by (simp add: list_ex_iff Bex_def less_Suc_eq_le del: upt_Suc)
      ultimately show ?thesis using deep by (auto simp: segments_match_Cons)
    qed
  next
    case False
    with Cons.IH show ?thesis
      by (auto simp: segments_match_Cons matchSegment_wildcard split: list.splits)
  qed
qed

section \<open>Paths\<close>

definition MatchPath :: "string \<Rightarrow> bool \<Rightarrow> string \<Rightarrow> bool" where
  "MatchPath pattern0 exact path =
     (let pattern1 = (if pattern0 = [] then ''/'' else pattern0);
          pattern = (if \<not> prefix ''/'' pattern1 then CHR ''/'' # pattern1 else pattern1) in
      if CHR ''*'' \<in> set pattern then matchGlob (splitSegments pattern) (splitSegments path)
      else if exact then path = pattern \<or> TrimSuffix path ''/'' = TrimSuffix pattern ''/''
      else if suffix ''/'' pattern then
        prefix pattern path \<or> TrimSuffix path ''/'' = TrimSuffix pattern ''/''
      else path = pattern \<or> prefix (pattern @ ''/'') path)"

lemma trim_with_core:
  assumes "\<forall>c\<in>set u \<union> set v. P c" "s \<noteq> []" "\<not> P (hd s)" "\<not> P (last s)"
  shows "trim_with P (u @ s @ v) = s"
proof -
  have "dropWhile P (u @ s @ v) = s @ v"
    using assms by (cases s) (auto simp: dropWhile_append2)
  moreover have "dropWhile P (rev (s @ v)) = rev s"
    using assms dropWhile_append2 [of "rev v" P "rev s"] by (cases s rule: rev_cases) auto
  ultimately show ?thesis by (simp add: trim_with_def)
qed

lemma hd_Join: "segs \<noteq> [] \<Longrightarrow> hd segs \<noteq> [] \<Longrightarrow> hd (Join c segs) = hd (hd segs)"
  by (induction c segs rule: Join.induct) (auto simp: hd_append)

lemma last_Join: "segs \<noteq> [] \<Longrightarrow> last segs \<noteq> [] \<Longrightarrow> last (Join c segs) = last (last segs)"
proof (induction c segs rule: Join.induct)
  case (3 c x y ys)
  then have "Join c (y # ys) \<noteq> []" by (cases ys) (auto split: if_splits)
  with 3 show ?case by simp
qed auto

lemma Join_plain_ends:
  assumes "segs \<noteq> []" "list_all plain_segment segs"
  shows "Join (CHR ''/'') segs \<noteq> []" "hd (Join (CHR ''/'') segs) \<noteq> CHR ''/''"
    "last (Join (CHR ''/'') segs) \<noteq> CHR ''/''"
proof -
  have plain: "plain_segment (hd segs)" "plain_segment (last segs)"
    using assms by (auto simp: list_all_iff)
  with assms(1) show "hd (Join (CHR ''/'') segs) \<noteq> CHR ''/''"
    by (metis hd_Join hd_in_set plain_segment_def)
  from plain assms(1) show "last (Join (CHR ''/'') segs) \<noteq> CHR ''/''"
    by (metis last_Join last_in_set plain_segment_def)
  from plain assms(1) show "Join (CHR ''/'') segs \<noteq> []"
    by (cases segs rule: remdups_adj.cases) (auto simp: plain_segment_def)
qed

lemma splitSegments_render:
  assumes "list_all plain_segment segs"
  shows "splitSegments (render segs slash) = segs"
proof (cases "segs = []")
  case True
  then show ?thesis by (simp add: splitSegments_def render_def trim_with_def)
next
  case False
  let ?j = "Join (CHR ''/'') segs"
  have "render segs slash = ''/'' @ ?j @ (if slash then ''/'' else [])"
    using False by (simp add: render_def)
  then have "trim_with (\<lambda>c. c = CHR ''/'') (render segs slash) = ?j"
    using Join_plain_ends [OF False assms]
    by (simp only: ) (rule trim_with_core, auto)
  moreover have "Split (CHR ''/'') ?j = segs"
    using assms False by (intro Split_Join) (auto simp: list_all_iff plain_segment_def)
  ultimately show ?thesis
    using Join_plain_ends(1) [OF False assms] by (simp add: splitSegments_def)
qed

lemma render_inject:
  assumes "list_all plain_segment xs" "list_all plain_segment ys" "render xs s = render ys s'"
  shows "xs = ys"
  using assms splitSegments_render by metis

lemma TrimSuffix_render:
  assumes "list_all plain_segment segs"
  shows "TrimSuffix (render segs slash) ''/'' = (if segs = [] then [] else render segs False)"
proof (cases "segs = [] \<or> slash")
  case True
  then show ?thesis
    using TrimSuffix_append [of "CHR ''/'' # Join (CHR ''/'') segs" "''/''"]
      TrimSuffix_append [of "[]" "''/''"]
    by (cases "segs = []") (simp_all add: render_def)
next
  case False
  then have "\<not> suffix ''/'' (render segs slash)" using suffix_slash_render [OF assms] by simp
  with False show ?thesis by (simp add: TrimSuffix_no)
qed

lemma TrimSuffix_render_eq:
  assumes "list_all plain_segment xs" "list_all plain_segment ys"
  shows "TrimSuffix (render xs s) ''/'' = TrimSuffix (render ys s') ''/'' \<longleftrightarrow> xs = ys"
  using assms by (auto simp: TrimSuffix_render dest: render_inject) (simp_all add: render_def)

text \<open>A path extends \<open>segs\<close> by a separator exactly when its segments extend \<open>segs\<close>.\<close>

lemma prefix_render:
  assumes segs: "list_all plain_segment segs" "segs \<noteq> []" and path: "list_all plain_segment path"
  shows "prefix (render segs False @ ''/'') (render path slash) \<longleftrightarrow>
    prefix segs path \<and> (segs = path \<longrightarrow> slash)"
proof
  assume "prefix (render segs False @ ''/'') (render path slash)"
  then obtain z where z: "render path slash = render segs False @ CHR ''/'' # z"
    by (auto simp: prefix_def)
  have "Split (CHR ''/'') (render path slash) = ([] # segs) @ Split (CHR ''/'') z"
    using Split_render [OF segs(1), of False] segs(2) by (simp add: z Split_append_sep)
  then have eq: "segs @ Split (CHR ''/'') z =
      (if path = [] then [[]] else path @ (if slash then [[]] else []))"
    using Split_render [OF path, of slash] by simp
  obtain z' w where zw: "Split (CHR ''/'') z = z' @ [w]"
    by (metis Split_not_Nil rev_exhaust)
  show "prefix segs path \<and> (segs = path \<longrightarrow> slash)"
  proof (cases "path \<noteq> [] \<and> \<not> slash")
    case True
    with eq zw show ?thesis by (auto simp: prefix_def)
  next
    case False
    with eq zw segs(2) have "(segs @ z') @ [w] = path @ [[]] \<and> (path = [] \<longrightarrow> segs = [])"
      by (auto split: if_splits)
    with False segs(2) have "path = segs @ z'" "path \<noteq> []" by (simp_all del: append_assoc)
    with False show ?thesis by auto
  qed
next
  assume *: "prefix segs path \<and> (segs = path \<longrightarrow> slash)"
  then obtain rest where rest: "path = segs @ rest" by (auto simp: prefix_def)
  show "prefix (render segs False @ ''/'') (render path slash)"
  proof (cases "rest = []")
    case True
    with rest * segs(2) show ?thesis by (simp add: render_def)
  next
    case False
    with rest segs(2) show ?thesis by (auto simp: render_def Join_append prefix_def)
  qed
qed

lemma MatchPath_render:
  assumes "list_all plain_segment segs" "\<forall>seg\<in>set segs. CHR ''*'' \<notin> set seg"
  shows "MatchPath (render segs s) exact path =
    (if exact then path = render segs s \<or> TrimSuffix path ''/'' = TrimSuffix (render segs s) ''/''
     else if suffix ''/'' (render segs s) then
       prefix (render segs s) path \<or> TrimSuffix path ''/'' = TrimSuffix (render segs s) ''/''
     else path = render segs s \<or> prefix (render segs s @ ''/'') path)"
proof -
  have "CHR ''*'' \<notin> set (render segs s)"
    using assms(2) set_Join [of "CHR ''/''" segs] by (auto simp: render_def)
  moreover have "render segs s \<noteq> []" "prefix ''/'' (render segs s)" by (simp_all add: render_def)
  ultimately show ?thesis by (simp add: MatchPath_def Let_def)
qed

lemma MatchPath_literal_prefix:
  assumes segs: "list_all plain_segment segs" "\<forall>seg\<in>set segs. CHR ''*'' \<notin> set seg"
    and path: "list_all plain_segment path"
  shows "MatchPath (render segs s) False (render path slash) \<longleftrightarrow> prefix segs path"
proof (cases "segs = []")
  case True
  have "MatchPath (render [] s) False (render path slash)"
    by (subst MatchPath_render) (simp_all add: render_def)
  with True show ?thesis by simp
next
  case ne: False
  note extends = prefix_render [OF segs(1) ne path, of slash]
  show ?thesis
  proof (cases s)
    case True
    have eq: "render segs s = render segs False @ ''/''" using True ne by (simp add: render_def)
    have "MatchPath (render segs s) False (render path slash) \<longleftrightarrow>
        prefix (render segs False @ ''/'') (render path slash) \<or> path = segs"
      unfolding MatchPath_render [OF segs] TrimSuffix_render_eq [OF path segs(1)]
      using suffix_slash_render [OF segs(1), of s] True eq by simp
    with extends show ?thesis by auto
  next
    case False
    have same: "render path slash = render segs False \<longleftrightarrow> segs = path \<and> \<not> slash"
      using ne render_inject [OF path segs(1), of slash False] by (auto simp: render_def)
    have "MatchPath (render segs s) False (render path slash) \<longleftrightarrow>
        render path slash = render segs False \<or> prefix (render segs False @ ''/'') (render path slash)"
      unfolding MatchPath_render [OF segs]
      using suffix_slash_render [OF segs(1), of s] False ne by simp
    with extends same show ?thesis by auto
  qed
qed

lemma MatchPath_literal_exact:
  assumes segs: "list_all plain_segment segs" "\<forall>seg\<in>set segs. CHR ''*'' \<notin> set seg"
    and path: "list_all plain_segment path"
  shows "MatchPath (render segs s) True (render path slash) \<longleftrightarrow> path = segs"
  using TrimSuffix_render_eq [OF path segs(1)] render_inject [OF path segs(1)]
  by (auto simp: MatchPath_render [OF segs])

lemma MatchPath_wildcard:
  assumes "CHR ''*'' \<in> set pattern" "prefix ''/'' pattern" "list_all plain_segment path"
  shows "MatchPath pattern exact (render path slash) \<longleftrightarrow> segments_match (splitSegments pattern) path"
  using assms
  by (auto simp: MatchPath_def Let_def matchGlob_segments_match splitSegments_render)

end
