(* ===== verification/Netip.thy ===== *)
theory Netip
  imports Go_Strings "HOL-Library.Word"
begin

unbundle bit_operations_syntax

text \<open>
  What the relay uses of Go's \<open>net/netip\<close>, \<open>net\<close> and \<open>strconv\<close>: addresses and prefixes with
  their parsers and membership test, \<open>SplitHostPort\<close>/\<open>JoinHostPort\<close>, and decimal numbers.
  Addresses are machine words of their width, IPv6 addresses carry their zone.
\<close>

section \<open>Decimal and hexadecimal numbers\<close>

definition digit_char :: "nat \<Rightarrow> char" where
  "digit_char d = (if d < 10 then char_of (48 + d) else char_of (87 + d))"

fun in_base :: "nat \<Rightarrow> nat \<Rightarrow> string" where
  "in_base b n =
     (if n < b \<or> b < 2 then [digit_char n] else in_base b (n div b) @ [digit_char (n mod b)])"

declare in_base.simps [simp del]

definition Itoa :: "int \<Rightarrow> string" where
  "Itoa i = (if i < 0 then CHR ''-'' # in_base 10 (nat (- i)) else in_base 10 (nat i))"

definition is_digit :: "char \<Rightarrow> bool" where
  "is_digit c \<longleftrightarrow> (48::nat) \<le> of_char c \<and> of_char c \<le> (57::nat)"

definition dec_value :: "string \<Rightarrow> nat" where
  "dec_value s = foldl (\<lambda>v c. 10 * v + (of_char c - 48)) 0 s"

text \<open>
  \<open>strconv.Atoi\<close> on a 64-bit platform: an optional sign, then digits only, within range.
\<close>

definition Atoi :: "string \<Rightarrow> int option" where
  "Atoi s =
     (let neg = (s \<noteq> [] \<and> hd s = CHR ''-'');
          body = (if s \<noteq> [] \<and> (hd s = CHR ''-'' \<or> hd s = CHR ''+'') then tl s else s) in
      if body = [] \<or> \<not> list_all is_digit body then None
      else (let v = int (dec_value body); r = (if neg then - v else v) in
            if r < - (2 ^ 63) \<or> 2 ^ 63 \<le> r then None else Some r))"

lemma of_char_digit: "d < 10 \<Longrightarrow> (of_char (digit_char d) :: nat) = 48 + d"
  by (simp add: digit_char_def of_char_of)

lemma in_base_10_digits: "list_all is_digit (in_base 10 n)"
proof (induction n rule: less_induct)
  case (less n)
  have "is_digit (digit_char (n mod 10))" "n < 10 \<Longrightarrow> is_digit (digit_char n)"
    by (simp_all add: is_digit_def of_char_digit)
  with less show ?case by (subst in_base.simps) simp
qed

lemma dec_value_in_base: "dec_value (in_base 10 n) = n"
proof (induction n rule: less_induct)
  case (less n)
  show ?case
  proof (cases "n < 10")
    case True
    then show ?thesis by (subst in_base.simps) (simp add: dec_value_def of_char_digit)
  next
    case False
    then have "dec_value (in_base 10 (n div 10)) = n div 10" by (intro less) simp
    with False show ?thesis
      by (subst in_base.simps) (simp add: dec_value_def of_char_digit)
  qed
qed

lemma in_base_not_Nil [simp]: "in_base b n \<noteq> []"
  by (subst in_base.simps) simp

lemma Atoi_Itoa: "0 \<le> i \<Longrightarrow> i < 2 ^ 63 \<Longrightarrow> Atoi (Itoa i) = Some i"
proof -
  assume i: "0 \<le> i" "i < 2 ^ 63"
  let ?s = "in_base 10 (nat i)"
  have "is_digit (hd ?s)" using in_base_10_digits [of "nat i"] by (cases ?s) auto
  then have "hd ?s \<noteq> CHR ''-'' \<and> hd ?s \<noteq> CHR ''+''" by (auto simp: is_digit_def)
  with i show ?thesis
    using in_base_10_digits [of "nat i"] by (simp add: Atoi_def Itoa_def Let_def dec_value_in_base)
qed

section \<open>Addresses\<close>

text \<open>An IPv6 address carries its zone, empty for none.\<close>

datatype addr = V4 "32 word" | V6 "128 word" string

fun Is4 :: "addr \<Rightarrow> bool" where
  "Is4 (V4 _) = True"
| "Is4 (V6 _ _) = False"

fun hasZone :: "addr \<Rightarrow> bool" where
  "hasZone (V4 _) = False"
| "hasZone (V6 _ z) = (z \<noteq> [])"

text \<open>\<open>Unmap\<close> turns an IPv4-mapped IPv6 address into the IPv4 address, dropping any zone.\<close>

fun Unmap :: "addr \<Rightarrow> addr" where
  "Unmap (V4 w) = V4 w"
| "Unmap (V6 w z) = (if drop_bit 32 w = 0xFFFF then V4 (ucast w) else V6 w z)"

lemma Unmap_idem [simp]: "Unmap (Unmap a) = Unmap a"
  by (cases a) auto

section \<open>Prefixes\<close>

record ip_prefix =
  pfx_Addr :: addr
  pfx_Bits :: nat

definition mask_addr :: "addr \<Rightarrow> nat \<Rightarrow> addr" where
  "mask_addr a bits =
     (case a of V4 w \<Rightarrow> V4 (w AND NOT (mask (32 - bits)))
              | V6 w _ \<Rightarrow> V6 (w AND NOT (mask (128 - bits))) [])"

definition Masked :: "ip_prefix \<Rightarrow> ip_prefix" where
  "Masked p = p\<lparr>pfx_Addr := mask_addr (pfx_Addr p) (pfx_Bits p)\<rparr>"

definition Contains :: "ip_prefix \<Rightarrow> addr \<Rightarrow> bool" where
  "Contains p ip =
     (if hasZone ip then False
      else (case (pfx_Addr p, ip) of
              (V4 a, V4 b) \<Rightarrow> drop_bit (32 - pfx_Bits p) (a XOR b) = 0
            | (V6 a _, V6 b _) \<Rightarrow> (a XOR b) AND NOT (mask (128 - pfx_Bits p)) = 0
            | _ \<Rightarrow> False))"

lemma xor_0_iff: "a XOR b = 0 \<longleftrightarrow> a = (b::'a::len word)"
  by (auto simp: bit_eq_iff bit_simps)

lemma and_not_mask_0: "x AND NOT (mask k) = 0 \<longleftrightarrow> drop_bit k (x::'a::len word) = 0"
proof
  assume "x AND NOT (mask k) = 0"
  then have "bit (x AND NOT (mask k)) (k + n) = bit (0::'a word) (k + n)" for n by simp
  then show "drop_bit k x = 0" by (auto simp: bit_eq_iff bit_simps dest: bit_imp_le_length)
next
  assume *: "drop_bit k x = 0"
  show "x AND NOT (mask k) = 0"
  proof (rule bit_eqI)
    fix n
    have "bit (drop_bit k x) (n - k) = bit (0::'a word) (n - k)" using * by simp
    then show "bit (x AND NOT (mask k)) n = bit 0 n"
      by (cases "k \<le> n") (auto simp: bit_simps)
  qed
qed

lemma drop_bit_word_eq:
  "drop_bit k a = drop_bit k b \<longleftrightarrow> unat a div 2 ^ k = unat b div 2 ^ k" for a b :: "'a::len word"
proof -
  have "unat (drop_bit k c) = unat c div 2 ^ k" for c :: "'a word"
    using unat_drop_bit_eq [of k c] drop_bit_eq_div [of k "unat c"] by (rule trans)
  then show ?thesis by (simp only: word_unat_eq_iff)
qed

text \<open>Membership as arithmetic: the two addresses agree on what is left of the prefix length.\<close>

lemma Contains_V4:
  "Contains p (V4 b) \<longleftrightarrow>
     (\<exists>a. pfx_Addr p = V4 a \<and> unat a div 2 ^ (32 - pfx_Bits p) = unat b div 2 ^ (32 - pfx_Bits p))"
  by (auto simp: Contains_def xor_0_iff drop_bit_xor drop_bit_word_eq split: addr.splits)

lemma Contains_V6:
  "Contains p (V6 b z) \<longleftrightarrow> z = [] \<and>
     (\<exists>a za. pfx_Addr p = V6 a za \<and>
        unat a div 2 ^ (128 - pfx_Bits p) = unat b div 2 ^ (128 - pfx_Bits p))"
  by (auto simp: Contains_def and_not_mask_0 xor_0_iff drop_bit_xor drop_bit_word_eq split: addr.splits)

lemma div_eq_iff_range:
  "(n::nat) div k = m div k \<longleftrightarrow> k * (m div k) \<le> n \<and> n < k * (m div k) + k" if "0 < k"
proof
  assume "n div k = m div k"
  with that show "k * (m div k) \<le> n \<and> n < k * (m div k) + k"
    by (metis add_less_cancel_left mod_less_divisor mult_div_mod_eq le_add1)
next
  assume *: "k * (m div k) \<le> n \<and> n < k * (m div k) + k"
  then obtain r where "n = k * (m div k) + r" "r < k"
    using le_Suc_ex by fastforce
  then show "n div k = m div k" using that by simp
qed

lemma div_masked:
  "unat (a AND NOT (mask k)) div 2 ^ k = unat (a::'a::len word) div 2 ^ k"
proof -
  have "drop_bit k (a AND NOT (mask k)) = drop_bit k a"
    by (auto simp: bit_eq_iff bit_simps dest: bit_imp_le_length)
  then show ?thesis by (simp only: drop_bit_word_eq)
qed

lemma Contains_Masked [simp]: "Contains (Masked p) ip = Contains p ip"
  by (cases ip; cases "pfx_Addr p")
    (auto simp: Contains_V4 Contains_V6 Masked_def mask_addr_def div_masked)

section \<open>Parsing addresses\<close>

text \<open>\<open>parseIPv4Fields\<close>: the finished fields, the value and digit count of the current one.\<close>

fun parse_v4 :: "nat list \<Rightarrow> nat \<Rightarrow> nat \<Rightarrow> string \<Rightarrow> nat list option" where
  "parse_v4 octets val digLen [] = (if length octets < 3 then None else Some (octets @ [val]))"
| "parse_v4 octets val digLen (c # cs) =
     (if is_digit c then
        (if digLen = 1 \<and> val = 0 then None
         else (let val' = val * 10 + (of_char c - 48) in
               if 255 < val' then None else parse_v4 octets val' (Suc digLen) cs))
      else if c = CHR ''.'' then
        (if digLen = 0 \<or> cs = [] then None
         else if length octets = 3 then None
         else parse_v4 (octets @ [val]) 0 0 cs)
      else None)"

definition from_base :: "nat \<Rightarrow> nat list \<Rightarrow> nat" where
  "from_base b ds = foldl (\<lambda>v d. v * b + d) 0 ds"

definition parseIPv4 :: "string \<Rightarrow> addr option" where
  "parseIPv4 s = map_option (\<lambda>fs. V4 (of_nat (from_base 256 fs))) (parse_v4 [] 0 0 s)"

definition hex_digit :: "char \<Rightarrow> nat option" where
  "hex_digit c =
     (let n = of_char c :: nat in
      if 48 \<le> n \<and> n \<le> 57 then Some (n - 48)
      else if 97 \<le> n \<and> n \<le> 102 then Some (n - 97 + 10)
      else if 65 \<le> n \<and> n \<le> 70 then Some (n - 65 + 10)
      else None)"

definition is_hex :: "char \<Rightarrow> bool" where
  "is_hex c \<longleftrightarrow> hex_digit c \<noteq> None"

definition hex_value :: "string \<Rightarrow> nat" where
  "hex_value s = foldl (\<lambda>v c. v * 16 + (case hex_digit c of None \<Rightarrow> 0 | Some d \<Rightarrow> d)) 0 s"

text \<open>
  The group loop of \<open>parseIPv6\<close>: the 16-bit groups read so far, where the ellipsis was, and
  what is left to read.
\<close>

function v6_groups ::
    "nat list \<Rightarrow> nat option \<Rightarrow> string \<Rightarrow> (nat list \<times> nat option \<times> string) option" where
  "v6_groups groups ell s =
     (if 8 \<le> length groups then Some (groups, ell, s)
      else
        let hex = takeWhile is_hex s; rest = dropWhile is_hex s in
        if 4 < length hex \<or> hex = [] then None
        else if rest \<noteq> [] \<and> hd rest = CHR ''.'' then
          (if ell = None \<and> length groups \<noteq> 6 then None
           else if 8 < length groups + 2 then None
           else (case parse_v4 [] 0 0 s of
                   Some [a, b, c, d] \<Rightarrow> Some (groups @ [a * 256 + b, c * 256 + d], ell, [])
                 | _ \<Rightarrow> None))
        else
          let groups' = groups @ [hex_value hex] in
          (case rest of
             [] \<Rightarrow> Some (groups', ell, [])
           | c # s1 \<Rightarrow>
               if c \<noteq> CHR '':'' \<or> s1 = [] then None
               else if hd s1 = CHR '':'' then
                 (if ell \<noteq> None then None
                  else if tl s1 = [] then Some (groups', Some (length groups'), [])
                  else v6_groups groups' (Some (length groups')) (tl s1))
               else v6_groups groups' ell s1))"
  by pat_completeness auto
termination
  by (relation "measure (\<lambda>(groups, _, _). 8 - length groups)") auto

declare v6_groups.simps [simp del]

definition expand_groups :: "nat list \<Rightarrow> nat option \<Rightarrow> string \<Rightarrow> nat list option" where
  "expand_groups groups ell s =
     (if s \<noteq> [] then None
      else if length groups < 8 then
        (case ell of None \<Rightarrow> None
         | Some e \<Rightarrow> Some (take e groups @ replicate (8 - length groups) 0 @ drop e groups))
      else (if ell \<noteq> None then None else Some groups))"

definition parseIPv6 :: "string \<Rightarrow> addr option" where
  "parseIPv6 s0 =
     (let zoned = CHR ''%'' \<in> set s0;
          s1 = cut_before {CHR ''%''} s0;
          zone = drop (Suc (length s1)) s0 in
      if zoned \<and> zone = [] then None
      else
        let lead = prefix ''::'' s1; s2 = (if lead then drop 2 s1 else s1) in
        if lead \<and> s2 = [] then Some (V6 0 zone)
        else (case v6_groups [] (if lead then Some 0 else None) s2 of
                None \<Rightarrow> None
              | Some (groups, ell, rest) \<Rightarrow>
                  map_option (\<lambda>gs. V6 (of_nat (from_base 65536 gs)) zone)
                    (expand_groups groups ell rest)))"

fun ParseAddr_from :: "string \<Rightarrow> string \<Rightarrow> addr option" where
  "ParseAddr_from s [] = None"
| "ParseAddr_from s (c # cs) =
     (if c = CHR ''.'' then parseIPv4 s
      else if c = CHR '':'' then parseIPv6 s
      else if c = CHR ''%'' then None
      else ParseAddr_from s cs)"

definition ParseAddr :: "string \<Rightarrow> addr option" where
  "ParseAddr s = ParseAddr_from s s"

section \<open>Parsing prefixes\<close>

text \<open>The part after the last \<open>c\<close>, and the part before it.\<close>

definition cut_last :: "char \<Rightarrow> string \<Rightarrow> (string \<times> string) option" where
  "cut_last c s =
     (if c \<notin> set s then None
      else (let tail = rev (takeWhile (\<lambda>x. x \<noteq> c) (rev s)) in
            Some (take (length s - Suc (length tail)) s, tail)))"

definition ParsePrefix :: "string \<Rightarrow> ip_prefix option" where
  "ParsePrefix s =
     (case cut_last (CHR ''/'') s of
        None \<Rightarrow> None
      | Some (a, bitsStr) \<Rightarrow>
          (case ParseAddr a of
             None \<Rightarrow> None
           | Some ip \<Rightarrow>
               if hasZone ip then None
               else if 1 < length bitsStr \<and> (hd bitsStr = CHR ''0'' \<or> \<not> is_digit (hd bitsStr)) then None
               else (case Atoi bitsStr of
                       None \<Rightarrow> None
                     | Some bits \<Rightarrow>
                         if bits < 0 \<or> (if Is4 ip then 32 else 128) < bits then None
                         else Some \<lparr>pfx_Addr = ip, pfx_Bits = nat bits\<rparr>)))"

lemma ParsePrefix_no_zone: "ParsePrefix s = Some p \<Longrightarrow> \<not> hasZone (pfx_Addr p)"
  by (auto simp: ParsePrefix_def Let_def split: option.splits if_splits)

section \<open>Printing addresses\<close>

definition byte_at :: "32 word \<Rightarrow> nat \<Rightarrow> nat" where
  "byte_at w i = unat w div 256 ^ i mod 256"

definition string4 :: "32 word \<Rightarrow> string" where
  "string4 w = Join (CHR ''.'') (map (\<lambda>i. in_base 10 (byte_at w i)) [3, 2, 1, 0])"

definition v6u16 :: "128 word \<Rightarrow> nat \<Rightarrow> nat" where
  "v6u16 w i = unat w div 65536 ^ (7 - i) mod 65536"

text \<open>The longest run of at least two zero groups, the first of equal ones.\<close>

definition zero_run :: "nat list \<Rightarrow> nat \<Rightarrow> nat" where
  "zero_run gs i = length (takeWhile (\<lambda>g. g = 0) (drop i gs))"

definition best_run :: "nat list \<Rightarrow> (nat \<times> nat) option" where
  "best_run gs =
     foldl (\<lambda>best i. let l = zero_run gs i in
              if 2 \<le> l \<and> (case best of None \<Rightarrow> True | Some (_, bl) \<Rightarrow> bl < l) then Some (i, l) else best)
       None [0..<8]"

definition string6 :: "128 word \<Rightarrow> string" where
  "string6 w =
     (let gs = map (v6u16 w) [0..<8]; show_gs = (\<lambda>xs. Join (CHR '':'') (map (in_base 16) xs)) in
      case best_run gs of
        None \<Rightarrow> show_gs gs
      | Some (i, l) \<Rightarrow> show_gs (take i gs) @ ''::'' @ show_gs (drop (i + l) gs))"

definition addr_String :: "addr \<Rightarrow> string" where
  "addr_String a =
     (case a of
        V4 w \<Rightarrow> string4 w
      | V6 w z \<Rightarrow>
          (if drop_bit 32 w = 0xFFFF then ''::ffff:'' @ string4 (ucast w) else string6 w) @
          (if z = [] then [] else CHR ''%'' # z))"

section \<open>Host and port\<close>

definition JoinHostPort :: "string \<Rightarrow> string \<Rightarrow> string" where
  "JoinHostPort host port =
     (if CHR '':'' \<in> set host then ''['' @ host @ '']:'' @ port else host @ '':'' @ port)"

text \<open>\<open>SplitHostPort\<close>: every error is \<open>None\<close>; no caller looks at which one it was.\<close>

definition SplitHostPort :: "string \<Rightarrow> (string \<times> string) option" where
  "SplitHostPort hp =
     (case cut_last (CHR '':'') hp of
        None \<Rightarrow> None
      | Some (before, port) \<Rightarrow>
          if hd hp = CHR ''['' then
            (let inside = cut_before {CHR '']''} (tl hp) in
             if CHR '']'' \<notin> set hp then None
             else if before \<noteq> ''['' @ inside @ '']'' then None
             else if CHR ''['' \<in> set (tl hp) \<or> CHR '']'' \<in> set port then None
             else Some (inside, port))
          else if CHR '':'' \<in> set before then None
          else if CHR ''['' \<in> set hp \<or> CHR '']'' \<in> set hp then None
          else Some (before, port))"

lemma cut_last_append: "c \<notin> set t \<Longrightarrow> cut_last c (s @ c # t) = Some (s, t)"
proof -
  assume "c \<notin> set t"
  then have "takeWhile (\<lambda>x. x \<noteq> c) (rev t @ c # rev s) = rev t"
    by (subst takeWhile_append2) auto
  then show ?thesis by (simp add: cut_last_def Let_def)
qed

lemma SplitHostPort_JoinHostPort:
  assumes host: "set host \<inter> {CHR ''['', CHR '']''} = {}"
    and port: "set port \<inter> {CHR '':'', CHR ''['', CHR '']''} = {}"
  shows "SplitHostPort (JoinHostPort host port) = Some (host, port)"
proof (cases "CHR '':'' \<in> set host")
  case True
  have "cut_before {CHR '']''} (host @ CHR '']'' # CHR '':'' # port) = host"
    unfolding cut_before_def by (subst takeWhile_append2) (use host in auto)
  moreover have "cut_last (CHR '':'') (''['' @ host @ '']:'' @ port) = Some (''['' @ host @ '']'', port)"
    using cut_last_append [of "CHR '':''" port "''['' @ host @ '']''"] port by simp
  ultimately show ?thesis
    using True host port by (simp add: SplitHostPort_def JoinHostPort_def)
next
  case False
  have "hd (host @ CHR '':'' # port) \<noteq> CHR ''[''" using host by (cases host) auto
  then show ?thesis
    using False host port cut_last_append [of "CHR '':''" port host]
    by (simp add: SplitHostPort_def JoinHostPort_def)
qed

section \<open>Evaluating the parsers\<close>

lemma replicate_numeral: "replicate (numeral k) x = x # replicate (pred_numeral k) x"
  by (simp add: numeral_eq_Suc)

text \<open>The equations by which the simplifier evaluates a parser on a literal.\<close>

lemmas parse_eval = ParsePrefix_def cut_last_def ParseAddr_def parseIPv4_def parseIPv6_def Let_def
  is_digit_def Atoi_def dec_value_def from_base_def cut_before_def v6_groups.simps is_hex_def
  hex_digit_def hex_value_def expand_groups_def replicate_numeral

end
