(* ===== verification/Policy_Types.thy ===== *)
theory Policy_Types
  imports Netip
begin

text \<open>
  The API types of \<open>api/v1alpha1/types.go\<close> and the workload identity of
  \<open>internal/identity/identity.go\<close>. Kubernetes label selectors are third-party data: their
  type is the parameter \<open>'ls\<close>, and the function that turns one into a predicate on label sets
  (\<open>metav1.LabelSelectorAsSelector\<close>) is an argument of the definitions that call it.
\<close>

section \<open>TLS modes\<close>

text \<open>\<open>TLSMode\<close> is a Go string with two named values; the empty string is a third.\<close>

type_synonym tls_mode = string

definition TLSModeTunnel :: tls_mode where
  "TLSModeTunnel = ''tunnel''"

definition TLSModeInspect :: tls_mode where
  "TLSModeInspect = ''inspect''"

lemma tls_modes_differ [simp]: "TLSModeTunnel \<noteq> TLSModeInspect" "TLSModeInspect \<noteq> TLSModeTunnel"
  by (simp_all add: TLSModeTunnel_def TLSModeInspect_def)

section \<open>EgressPolicy\<close>

record path_rule =
  rule_Path :: string
  rule_Exact :: bool
  rule_Methods :: "string list"
  rule_AllowUpgrade :: bool

record destination =
  dst_Host :: string
  dst_Ports :: "int list"
  dst_TLSMode :: tls_mode
  dst_Paths :: "path_rule list"

record 'ls workload_selector =
  sel_Namespace :: "'ls option"
  sel_Pod :: "'ls option"

record 'ls egress_policy =
  pol_Name :: string
  pol_Selector :: "'ls workload_selector"
  pol_Destinations :: "destination list"
  pol_Upstream :: string

section \<open>UpstreamProxy\<close>

record secret_ref =
  ref_Name :: string
  ref_Namespace :: string
  ref_UsernameKey :: string
  ref_PasswordKey :: string

record upstream_proxy =
  up_Name :: string
  up_URL :: string
  up_Credentials :: "secret_ref option"
  up_NoProxy :: "string list"

section \<open>Workload identity\<close>

record identity =
  id_Namespace :: string
  id_Pod :: string
  id_ServiceAccount :: string
  id_PodLabels :: labels
  id_NamespaceLabels :: labels
  id_SourceIP :: addr

section \<open>Label selectors\<close>

text \<open>
  \<open>LabelSelectorAsSelector\<close> either rejects a selector (with a message) or yields the
  predicate that \<open>Selector.Matches\<close> evaluates.
\<close>

type_synonym 'ls as_selector = "'ls \<Rightarrow> (string, labels \<Rightarrow> bool) result"

text \<open>
  A concrete instance used by the witnesses: a selector that lists the labels it requires,
  as \<open>matchLabels\<close> does, with an empty key rejected.
\<close>

definition match_labels :: "(string \<times> string) list as_selector" where
  "match_labels ls =
     (if list_ex (\<lambda>(k, v). k = []) ls then Inl ''invalid label key''
      else Inr (\<lambda>m. list_all (\<lambda>(k, v). m k = Some v) ls))"

end
