(* ===== verification/Engine.thy ===== *)
theory Engine
  imports Matching Policy_Types
begin

text \<open>
  \<open>internal/policy/engine.go\<close>: the two authorization stages. The lister the engine reads from is
  an interface of the code; here it is the locale \<open>policy_lister\<close>, which the snapshot store
  interprets, and the values it returns are arguments of the functions. The reason strings are
  kept as what they are formatted from.
\<close>

section \<open>Decisions\<close>

datatype engine_error =
    ListFailed string
  | SelectorFailed string string
  | NoUpstream string "string option"

datatype reason =
    NoWorkloadIdentity
  | NoPolicySelects string
  | NoDestinationAllows nat string string int
  | AllowedBy "string list"
  | ConnectionNotAuthorized
  | MalformedTarget path_error
  | WholeHost string
  | RuleAllows string string
  | NoRuleAllows string string string bool

record matched_destination =
  md_Policy :: string
  md_Upstream :: string
  md_Destination :: destination
  md_specificity :: int

record connect_decision =
  cd_Allowed :: bool
  cd_Reason :: "reason option"
  cd_Host :: string
  cd_Port :: int
  cd_TLSMode :: tls_mode
  cd_Matched :: "matched_destination list"
  cd_Upstream :: string

record request_decision =
  rd_Allowed :: bool
  rd_Reason :: reason
  rd_Policy :: string
  rd_Upstream :: string
  rd_Rule :: string

definition refuse :: "reason \<Rightarrow> request_decision" where
  "refuse why = \<lparr>rd_Allowed = False, rd_Reason = why, rd_Policy = [], rd_Upstream = [], rd_Rule = []\<rparr>"

section \<open>Selectors and specificity\<close>

definition selects ::
    "'ls as_selector \<Rightarrow> 'ls workload_selector \<Rightarrow> identity \<Rightarrow> (string, bool) result" where
  "selects as_sel sel wid =
     (case sel_Namespace sel of
        None \<Rightarrow> Inr False
      | Some ns \<Rightarrow>
          (case as_sel ns of
             Inl e \<Rightarrow> Inl e
           | Inr nsSel \<Rightarrow>
               if \<not> nsSel (id_NamespaceLabels wid) then Inr False
               else (case sel_Pod sel of
                       None \<Rightarrow> Inr True
                     | Some ps \<Rightarrow>
                         (case as_sel ps of
                            Inl e \<Rightarrow> Inl e
                          | Inr podSel \<Rightarrow> Inr (podSel (id_PodLabels wid))))))"

definition hostSpecificity :: "string \<Rightarrow> int" where
  "hostSpecificity pattern =
     (if pattern = ''*'' \<or> pattern = ''**'' then 0
      else if prefix ''**.'' pattern then 1
      else if prefix ''*.'' pattern then 2
      else 3)"

section \<open>The connect stage\<close>

definition match_destinations ::
    "string \<Rightarrow> int \<Rightarrow> 'ls egress_policy \<Rightarrow> matched_destination list" where
  "match_destinations host port pol =
     map (\<lambda>dst. \<lparr>md_Policy = pol_Name pol, md_Upstream = pol_Upstream pol,
                 md_Destination = dst, md_specificity = hostSpecificity (dst_Host dst)\<rparr>)
       (filter (\<lambda>dst. MatchHost (dst_Host dst) host \<and> MatchPort (dst_Ports dst) port)
         (pol_Destinations pol))"

text \<open>The loop over the policies; \<open>selected\<close> and \<open>matched\<close> are the two variables it updates.\<close>

fun connect_loop ::
    "'ls as_selector \<Rightarrow> identity \<Rightarrow> string \<Rightarrow> int \<Rightarrow> 'ls egress_policy list \<Rightarrow> nat \<Rightarrow>
     matched_destination list \<Rightarrow> (engine_error, nat \<times> matched_destination list) result" where
  "connect_loop as_sel wid host port [] selected matched = Inr (selected, matched)"
| "connect_loop as_sel wid host port (pol # pols) selected matched =
     (case selects as_sel (pol_Selector pol) wid of
        Inl e \<Rightarrow> Inl (SelectorFailed (pol_Name pol) e)
      | Inr ok \<Rightarrow>
          if \<not> ok then connect_loop as_sel wid host port pols selected matched
          else connect_loop as_sel wid host port pols (Suc selected)
                 (matched @ match_destinations host port pol))"

text \<open>
  The comparison of the stable sort: higher specificity first, then the smaller policy name,
  byte by byte.
\<close>

definition sort_rank :: "matched_destination \<Rightarrow> int \<times> string" where
  "sort_rank m = (- md_specificity m, md_Policy m)"

fun policyNames_loop :: "string list \<Rightarrow> matched_destination list \<Rightarrow> string list" where
  "policyNames_loop names [] = names"
| "policyNames_loop names (m # ms) =
     (if md_Policy m \<in> set names then policyNames_loop names ms
      else policyNames_loop (names @ [md_Policy m]) ms)"

definition policyNames :: "connect_decision \<Rightarrow> string list" where
  "policyNames d = policyNames_loop [] (cd_Matched d)"

definition denyReason :: "identity \<Rightarrow> string \<Rightarrow> int \<Rightarrow> nat \<Rightarrow> reason" where
  "denyReason wid host port selected =
     (if selected = 0 then NoPolicySelects (id_Namespace wid)
      else NoDestinationAllows selected (id_Namespace wid) host port)"

definition AuthorizeConnect ::
    "'ls as_selector \<Rightarrow> (string, 'ls egress_policy list) result \<Rightarrow> identity option \<Rightarrow> string \<Rightarrow> int \<Rightarrow>
     (engine_error, connect_decision) result" where
  "AuthorizeConnect as_sel listed id_opt host port =
     (let dec = \<lparr>cd_Allowed = False, cd_Reason = None, cd_Host = host, cd_Port = port,
                 cd_TLSMode = TLSModeTunnel, cd_Matched = [], cd_Upstream = []\<rparr> in
      case id_opt of
        None \<Rightarrow> Inr (dec\<lparr>cd_Reason := Some NoWorkloadIdentity\<rparr>)
      | Some wid \<Rightarrow>
          (case listed of
             Inl e \<Rightarrow> Inl (ListFailed e)
           | Inr policies \<Rightarrow>
               (case connect_loop as_sel wid host port policies 0 [] of
                  Inl e \<Rightarrow> Inl e
                | Inr (selected, matched) \<Rightarrow>
                    if matched = [] then
                      Inr (dec\<lparr>cd_Reason := Some (denyReason wid host port selected)\<rparr>)
                    else
                      let sorted = sort_key sort_rank matched;
                          dec1 = dec\<lparr>cd_Matched := sorted, cd_Allowed := True,
                                     cd_Upstream := md_Upstream (sorted ! 0)\<rparr>;
                          dec2 = (if list_ex (\<lambda>m. dst_TLSMode (md_Destination m) = TLSModeInspect) sorted
                                  then dec1\<lparr>cd_TLSMode := TLSModeInspect\<rparr> else dec1)
                      in Inr (dec2\<lparr>cd_Reason := Some (AllowedBy (policyNames dec2))\<rparr>))))"

section \<open>The request stage\<close>

text \<open>The first rule of a destination that admits the request, as the inner loop finds it.\<close>

fun first_rule :: "string \<Rightarrow> string \<Rightarrow> bool \<Rightarrow> path_rule list \<Rightarrow> path_rule option" where
  "first_rule path meth upgrade [] = None"
| "first_rule path meth upgrade (rule # rules) =
     (if \<not> MatchPath (rule_Path rule) (rule_Exact rule) path \<or> \<not> MatchMethod (rule_Methods rule) meth
        then first_rule path meth upgrade rules
      else if upgrade \<and> \<not> rule_AllowUpgrade rule then first_rule path meth upgrade rules
      else Some rule)"

fun request_loop ::
    "string \<Rightarrow> string \<Rightarrow> bool \<Rightarrow> matched_destination list \<Rightarrow> request_decision option" where
  "request_loop path meth upgrade [] = None"
| "request_loop path meth upgrade (m # ms) =
     (if dst_Paths (md_Destination m) = [] then
        (if upgrade \<and> dst_TLSMode (md_Destination m) = TLSModeInspect
           then request_loop path meth upgrade ms
         else Some \<lparr>rd_Allowed = True, rd_Reason = WholeHost (md_Policy m), rd_Policy = md_Policy m,
                    rd_Upstream = md_Upstream m, rd_Rule = ''host grant''\<rparr>)
      else (case first_rule path meth upgrade (dst_Paths (md_Destination m)) of
              None \<Rightarrow> request_loop path meth upgrade ms
            | Some rule \<Rightarrow>
                Some \<lparr>rd_Allowed = True, rd_Reason = RuleAllows (md_Policy m) (rule_Path rule),
                      rd_Policy = md_Policy m, rd_Upstream = md_Upstream m,
                      rd_Rule = rule_Path rule\<rparr>))"

definition AuthorizeRequest ::
    "connect_decision option \<Rightarrow> string \<Rightarrow> string \<Rightarrow> bool \<Rightarrow> request_decision" where
  "AuthorizeRequest conn meth target upgrade =
     (case conn of
        None \<Rightarrow> refuse ConnectionNotAuthorized
      | Some c \<Rightarrow>
          if \<not> cd_Allowed c then refuse ConnectionNotAuthorized
          else (case NormalizePath target of
                  Inl e \<Rightarrow> refuse (MalformedTarget e)
                | Inr path \<Rightarrow>
                    (case request_loop path meth upgrade (cd_Matched c) of
                       Some d \<Rightarrow> d
                     | None \<Rightarrow> refuse (NoRuleAllows meth path (cd_Host c) upgrade))))"

section \<open>Profiles\<close>

text \<open>\<open>Engine.Upstream\<close>: \<open>got\<close> is what the lister's \<open>GetUpstreamProxy\<close> returned for the name.\<close>

definition Upstream ::
    "(string, upstream_proxy option) result \<Rightarrow> string \<Rightarrow> (engine_error, upstream_proxy) result" where
  "Upstream got name =
     (case got of
        Inl e \<Rightarrow> Inl (NoUpstream name (Some e))
      | Inr None \<Rightarrow> Inl (NoUpstream name None)
      | Inr (Some up) \<Rightarrow> Inr up)"

section \<open>What the connect stage computes\<close>

definition selected_policies ::
    "'ls as_selector \<Rightarrow> identity \<Rightarrow> 'ls egress_policy list \<Rightarrow> 'ls egress_policy list" where
  "selected_policies as_sel wid = filter (\<lambda>pol. selects as_sel (pol_Selector pol) wid = Inr True)"

text \<open>Every grant that applies, in the order of the policies.\<close>

definition grants ::
    "'ls as_selector \<Rightarrow> identity \<Rightarrow> string \<Rightarrow> int \<Rightarrow> 'ls egress_policy list \<Rightarrow> matched_destination list" where
  "grants as_sel wid host port pols =
     concat (map (match_destinations host port) (selected_policies as_sel wid pols))"

definition selectors_ok :: "'ls as_selector \<Rightarrow> identity \<Rightarrow> 'ls egress_policy list \<Rightarrow> bool" where
  "selectors_ok as_sel wid pols \<longleftrightarrow> list_all (\<lambda>pol. is_ok (selects as_sel (pol_Selector pol) wid)) pols"

lemma connect_loop_eq:
  assumes "selectors_ok as_sel wid pols"
  shows "connect_loop as_sel wid host port pols n ms =
    Inr (n + length (selected_policies as_sel wid pols), ms @ grants as_sel wid host port pols)"
  using assms
proof (induction pols arbitrary: n ms)
  case (Cons pol pols)
  then show ?case
    by (auto simp: selectors_ok_def selected_policies_def grants_def is_ok_iff)
qed (simp add: selected_policies_def grants_def)

lemma connect_loop_error:
  "\<not> selectors_ok as_sel wid pols \<Longrightarrow> \<exists>e. connect_loop as_sel wid host port pols n ms = Inl e"
proof (induction pols arbitrary: n ms)
  case (Cons pol pols)
  then show ?case
    by (cases "selects as_sel (pol_Selector pol) wid") (auto simp: selectors_ok_def)
qed (simp add: selectors_ok_def)

lemma connect_loop_Inr_iff:
  "connect_loop as_sel wid host port pols n ms = Inr r \<longleftrightarrow>
     selectors_ok as_sel wid pols \<and>
     r = (n + length (selected_policies as_sel wid pols), ms @ grants as_sel wid host port pols)"
proof (cases "selectors_ok as_sel wid pols")
  case True
  then show ?thesis by (auto simp: connect_loop_eq)
next
  case False
  with connect_loop_error [OF this, of host port n ms] show ?thesis by auto
qed

lemma AuthorizeConnect_Inr_iff:
  "AuthorizeConnect as_sel (Inr pols) (Some wid) host port = Inr dec \<longleftrightarrow>
     selectors_ok as_sel wid pols \<and>
     dec = (let gs = grants as_sel wid host port pols; ms = sort_key sort_rank gs;
                n = length (selected_policies as_sel wid pols) in
            if gs = [] then
              \<lparr>cd_Allowed = False, cd_Reason = Some (denyReason wid host port n), cd_Host = host,
               cd_Port = port, cd_TLSMode = TLSModeTunnel, cd_Matched = [], cd_Upstream = []\<rparr>
            else
              \<lparr>cd_Allowed = True, cd_Reason = Some (AllowedBy (policyNames_loop [] ms)),
               cd_Host = host, cd_Port = port,
               cd_TLSMode = (if list_ex (\<lambda>m. dst_TLSMode (md_Destination m) = TLSModeInspect) ms
                             then TLSModeInspect else TLSModeTunnel),
               cd_Matched = ms, cd_Upstream = md_Upstream (ms ! 0)\<rparr>)"
proof (cases "selectors_ok as_sel wid pols")
  case True
  then show ?thesis
    by (auto simp: AuthorizeConnect_def Let_def connect_loop_eq policyNames_def)
next
  case False
  with connect_loop_error [OF this, of host port 0 "[]"] show ?thesis
    by (auto simp: AuthorizeConnect_def Let_def)
qed

lemma set_match_destinations:
  "m \<in> set (match_destinations host port pol) \<longleftrightarrow>
     (\<exists>dst\<in>set (pol_Destinations pol). MatchHost (dst_Host dst) host \<and> MatchPort (dst_Ports dst) port \<and>
        m = \<lparr>md_Policy = pol_Name pol, md_Upstream = pol_Upstream pol, md_Destination = dst,
             md_specificity = hostSpecificity (dst_Host dst)\<rparr>)"
  by (auto simp: match_destinations_def)

lemma set_grants:
  "m \<in> set (grants as_sel wid host port pols) \<longleftrightarrow>
     (\<exists>pol\<in>set pols. selects as_sel (pol_Selector pol) wid = Inr True \<and>
        m \<in> set (match_destinations host port pol))"
  by (auto simp: grants_def selected_policies_def)

text \<open>A grant, as a reader of the policies would say it.\<close>

definition granted ::
    "'ls as_selector \<Rightarrow> identity \<Rightarrow> string \<Rightarrow> int \<Rightarrow> 'ls egress_policy list \<Rightarrow> bool" where
  "granted as_sel wid host port pols \<longleftrightarrow>
     (\<exists>pol\<in>set pols. selects as_sel (pol_Selector pol) wid = Inr True \<and>
        (\<exists>dst\<in>set (pol_Destinations pol). MatchHost (dst_Host dst) host \<and> MatchPort (dst_Ports dst) port))"

lemma granted_iff: "granted as_sel wid host port pols \<longleftrightarrow> grants as_sel wid host port pols \<noteq> []"
proof -
  have "grants as_sel wid host port pols \<noteq> [] \<longleftrightarrow> (\<exists>m. m \<in> set (grants as_sel wid host port pols))"
    by (cases "grants as_sel wid host port pols") auto
  then show ?thesis by (auto simp: granted_def set_grants set_match_destinations)
qed

section \<open>Policies that do not select\<close>

lemma grants_append: "grants as_sel wid host port (ps @ qs) = grants as_sel wid host port ps @ grants as_sel wid host port qs"
  by (simp add: grants_def selected_policies_def)

text \<open>A policy that does not select the workload leaves its decision as it is.\<close>

lemma AuthorizeConnect_unselected:
  assumes "\<forall>pol\<in>set others. selects as_sel (pol_Selector pol) wid = Inr False"
  shows "AuthorizeConnect as_sel (Inr (pols @ others)) (Some wid) host port = Inr dec \<longleftrightarrow>
    AuthorizeConnect as_sel (Inr pols) (Some wid) host port = Inr dec"
proof -
  have none: "selected_policies as_sel wid others = []"
    using assms by (auto simp: selected_policies_def filter_empty_conv)
  then have "selected_policies as_sel wid (pols @ others) = selected_policies as_sel wid pols"
    "grants as_sel wid host port (pols @ others) = grants as_sel wid host port pols"
    by (simp_all add: selected_policies_def grants_def)
  moreover have "selectors_ok as_sel wid (pols @ others) = selectors_ok as_sel wid pols"
    using assms by (auto simp: selectors_ok_def list_all_iff is_ok_def)
  ultimately show ?thesis unfolding AuthorizeConnect_Inr_iff by simp
qed

lemma connect_loop_Inl:
  "connect_loop as_sel wid host port pols n ms = Inl e \<Longrightarrow> \<exists>name err. e = SelectorFailed name err"
  by (induction pols arbitrary: n ms) (auto split: sum.splits if_splits)

text \<open>It fails exactly when the selector of some policy cannot be evaluated for the workload.\<close>

lemma AuthorizeConnect_fails_iff:
  "(\<exists>e. AuthorizeConnect as_sel (Inr pols) (Some wid) host port = Inl e) \<longleftrightarrow> \<not> selectors_ok as_sel wid pols"
proof
  assume "\<exists>e. AuthorizeConnect as_sel (Inr pols) (Some wid) host port = Inl e"
  then show "\<not> selectors_ok as_sel wid pols"
    by (auto simp: AuthorizeConnect_def Let_def connect_loop_eq split: if_splits)
next
  assume "\<not> selectors_ok as_sel wid pols"
  from connect_loop_error [OF this, of host port 0 "[]"]
  show "\<exists>e. AuthorizeConnect as_sel (Inr pols) (Some wid) host port = Inl e"
    by (auto simp: AuthorizeConnect_def Let_def)
qed

lemma AuthorizeConnect_Inl:
  assumes "AuthorizeConnect as_sel (Inr pols) (Some wid) host port = Inl e"
  shows "\<exists>name err. e = SelectorFailed name err"
proof -
  have "\<not> selectors_ok as_sel wid pols" using assms AuthorizeConnect_fails_iff by blast
  from connect_loop_error [OF this, of host port 0 "[]"] obtain e' where
    l: "connect_loop as_sel wid host port pols 0 [] = Inl e'" by blast
  with assms have "e = e'" by (simp add: AuthorizeConnect_def Let_def)
  with connect_loop_Inl [OF l] show ?thesis by simp
qed

lemma broken_selector: "sel_Namespace sel = Some ns \<Longrightarrow> as_sel ns = Inl e \<Longrightarrow> selects as_sel sel wid = Inl e"
  by (simp add: selects_def)

section \<open>Independence of the listing order\<close>

text \<open>
  The snapshot lists policies in map order, which differs between replicas. Sorting by
  specificity and policy name removes that: grants of equal rank come from one policy, in the
  order that policy writes them.
\<close>

lemma mset_concat_perm: "mset xss = mset yss \<Longrightarrow> mset (concat xss) = mset (concat yss)"
  by (metis mset_concat mset_map sum_mset_sum_list)

lemma filter_rank_match_destinations:
  "filter (\<lambda>m. sort_rank m = (sp, name)) (match_destinations host port pol) =
     (if pol_Name pol = name then filter (\<lambda>m. - md_specificity m = sp) (match_destinations host port pol)
      else [])"
  by (induction "pol_Destinations pol") (auto simp: match_destinations_def sort_rank_def filter_map o_def
      intro!: arg_cong [of _ _ "map _"] filter_cong)

lemma filter_rank_grants:
  assumes "distinct (map pol_Name pols)"
  shows "filter (\<lambda>m. sort_rank m = (sp, name)) (concat (map (match_destinations host port) pols)) =
    (case find (\<lambda>pol. pol_Name pol = name) pols of
       None \<Rightarrow> []
     | Some pol \<Rightarrow> filter (\<lambda>m. - md_specificity m = sp) (match_destinations host port pol))"
  using assms
proof (induction pols)
  case (Cons pol pols)
  show ?case
  proof (cases "pol_Name pol = name")
    case True
    with Cons.prems have "find (\<lambda>pol. pol_Name pol = name) pols = None"
      by (auto simp: find_None_iff image_iff)
    with True Cons show ?thesis by (simp add: filter_rank_match_destinations)
  next
    case False
    with Cons show ?thesis by (simp add: filter_rank_match_destinations)
  qed
qed simp

lemma find_name_perm:
  assumes "mset ps = mset qs" "distinct (map pol_Name ps)"
  shows "find (\<lambda>pol. pol_Name pol = name) ps = find (\<lambda>pol. pol_Name pol = name) qs"
proof (cases "find (\<lambda>pol. pol_Name pol = name) ps")
  case None
  then have "\<forall>pol\<in>set qs. pol_Name pol \<noteq> name"
    using mset_eq_setD [OF assms(1)] by (auto simp: find_None_iff)
  then have "find (\<lambda>pol. pol_Name pol = name) qs = None" by (auto simp: find_None_iff)
  with None show ?thesis by simp
next
  case (Some p)
  then have p: "p \<in> set ps" "pol_Name p = name" by (auto simp: find_Some_iff)
  then have "find (\<lambda>pol. pol_Name pol = name) qs \<noteq> None"
    using mset_eq_setD [OF assms(1)] by (auto simp: find_None_iff)
  then obtain q where q: "find (\<lambda>pol. pol_Name pol = name) qs = Some q" by blast
  then have "q \<in> set ps" "pol_Name q = name"
    using mset_eq_setD [OF assms(1)] by (auto simp: find_Some_iff)
  with p assms(2) have "p = q" by (auto simp: distinct_map dest: inj_onD)
  with Some q show ?thesis by simp
qed

lemma grants_sorted_perm:
  assumes perm: "mset ps = mset qs" and names: "distinct (map pol_Name ps)"
  shows "sort_key sort_rank (grants as_sel wid host port ps) =
    sort_key sort_rank (grants as_sel wid host port qs)"
proof (rule sort_key_cong_classes)
  let ?sel = "selected_policies as_sel wid"
  have sel: "mset (?sel ps) = mset (?sel qs)"
    using perm by (simp add: selected_policies_def)
  then show "mset (grants as_sel wid host port ps) = mset (grants as_sel wid host port qs)"
    unfolding grants_def by (intro mset_concat_perm) simp
  have "distinct (map pol_Name (?sel ps))"
    using names by (auto simp: selected_policies_def distinct_map inj_on_def)
  moreover from this have "distinct (map pol_Name (?sel qs))"
    using sel by (metis mset_eq_imp_distinct_iff mset_map)
  ultimately show "filter (\<lambda>m. sort_rank m = k) (grants as_sel wid host port ps) =
      filter (\<lambda>m. sort_rank m = k) (grants as_sel wid host port qs)" for k
    using find_name_perm [OF sel] by (cases k) (simp add: grants_def filter_rank_grants)
qed

section \<open>What the request stage computes\<close>

text \<open>A matched destination admits a request: the condition one round of the loop tests.\<close>

definition rule_admits :: "string \<Rightarrow> string \<Rightarrow> bool \<Rightarrow> path_rule \<Rightarrow> bool" where
  "rule_admits path meth upgrade rule \<longleftrightarrow>
     MatchPath (rule_Path rule) (rule_Exact rule) path \<and> MatchMethod (rule_Methods rule) meth \<and>
     (upgrade \<longrightarrow> rule_AllowUpgrade rule)"

definition destination_admits :: "string \<Rightarrow> string \<Rightarrow> bool \<Rightarrow> destination \<Rightarrow> bool" where
  "destination_admits path meth upgrade dst \<longleftrightarrow>
     (if dst_Paths dst = [] then upgrade \<longrightarrow> dst_TLSMode dst \<noteq> TLSModeInspect
      else (\<exists>rule\<in>set (dst_Paths dst). rule_admits path meth upgrade rule))"

lemma first_rule_find: "first_rule path meth upgrade rules = find (rule_admits path meth upgrade) rules"
  by (induction rules) (auto simp: rule_admits_def)

definition loop_grant :: "string \<Rightarrow> string \<Rightarrow> bool \<Rightarrow> matched_destination \<Rightarrow> request_decision" where
  "loop_grant path meth upgrade m =
     (case find (rule_admits path meth upgrade) (dst_Paths (md_Destination m)) of
        None \<Rightarrow> \<lparr>rd_Allowed = True, rd_Reason = WholeHost (md_Policy m), rd_Policy = md_Policy m,
                rd_Upstream = md_Upstream m, rd_Rule = ''host grant''\<rparr>
      | Some rule \<Rightarrow> \<lparr>rd_Allowed = True, rd_Reason = RuleAllows (md_Policy m) (rule_Path rule),
                rd_Policy = md_Policy m, rd_Upstream = md_Upstream m, rd_Rule = rule_Path rule\<rparr>)"

lemma request_loop_Cons:
  "request_loop path meth upgrade (m # ms) =
     (if destination_admits path meth upgrade (md_Destination m) then Some (loop_grant path meth upgrade m)
      else request_loop path meth upgrade ms)"
proof (cases "dst_Paths (md_Destination m) = []")
  case False
  show ?thesis
  proof (cases "find (rule_admits path meth upgrade) (dst_Paths (md_Destination m))")
    case None
    then have "\<not> destination_admits path meth upgrade (md_Destination m)"
      using False by (auto simp: destination_admits_def find_None_iff)
    with False None show ?thesis by (simp add: first_rule_find)
  next
    case (Some rule)
    then have "rule \<in> set (dst_Paths (md_Destination m))" "rule_admits path meth upgrade rule"
      by (auto simp: find_Some_iff)
    with False Some show ?thesis
      by (auto simp: destination_admits_def first_rule_find loop_grant_def)
  qed
qed (simp add: destination_admits_def loop_grant_def)

text \<open>The loop answers with the first matched destination that admits the request.\<close>

lemma request_loop_find:
  "request_loop path meth upgrade ms =
     map_option (loop_grant path meth upgrade)
       (find (\<lambda>m. destination_admits path meth upgrade (md_Destination m)) ms)"
  by (induction ms) (simp_all add: request_loop_Cons del: request_loop.simps(2))

lemma loop_grant_simps [simp]:
  "rd_Allowed (loop_grant path meth upgrade m)"
  "rd_Policy (loop_grant path meth upgrade m) = md_Policy m"
  "rd_Upstream (loop_grant path meth upgrade m) = md_Upstream m"
  by (auto simp: loop_grant_def split: option.splits)

lemma AuthorizeRequest_cases:
  obtains (unauthorized) "\<not> cd_Allowed c"
      "AuthorizeRequest (Some c) meth target upgrade = refuse ConnectionNotAuthorized"
  | (malformed) e where "cd_Allowed c" "NormalizePath target = Inl e"
      "AuthorizeRequest (Some c) meth target upgrade = refuse (MalformedTarget e)"
  | (no_rule) path where "cd_Allowed c" "NormalizePath target = Inr path"
      "\<forall>m\<in>set (cd_Matched c). \<not> destination_admits path meth upgrade (md_Destination m)"
      "AuthorizeRequest (Some c) meth target upgrade = refuse (NoRuleAllows meth path (cd_Host c) upgrade)"
  | (grant) path m where "cd_Allowed c" "NormalizePath target = Inr path"
      "find (\<lambda>m. destination_admits path meth upgrade (md_Destination m)) (cd_Matched c) = Some m"
      "AuthorizeRequest (Some c) meth target upgrade = loop_grant path meth upgrade m"
proof (cases "cd_Allowed c")
  case allowed: True
  show ?thesis
  proof (cases "NormalizePath target")
    case (Inl e)
    with allowed show ?thesis by (intro malformed) (simp_all add: AuthorizeRequest_def)
  next
    case path: (Inr path)
    show ?thesis
    proof (cases "find (\<lambda>m. destination_admits path meth upgrade (md_Destination m)) (cd_Matched c)")
      case None
      then have "\<forall>m\<in>set (cd_Matched c). \<not> destination_admits path meth upgrade (md_Destination m)"
        by (auto simp: find_None_iff)
      with allowed path None show ?thesis
        by (intro no_rule) (simp_all add: AuthorizeRequest_def request_loop_find)
    next
      case (Some m)
      with allowed path show ?thesis
        by (intro grant) (simp_all add: AuthorizeRequest_def request_loop_find)
    qed
  qed
qed (rule unauthorized, simp_all add: AuthorizeRequest_def)

lemma refuse_simps [simp]: "\<not> rd_Allowed (refuse why)" "rd_Reason (refuse why) = why"
  by (simp_all add: refuse_def)

lemma AuthorizeRequest_allowed_iff:
  "rd_Allowed (AuthorizeRequest (Some c) meth target upgrade) \<longleftrightarrow>
     cd_Allowed c \<and> (\<exists>path. NormalizePath target = Inr path \<and>
       (\<exists>m\<in>set (cd_Matched c). destination_admits path meth upgrade (md_Destination m)))"
  by (rule AuthorizeRequest_cases [of c meth target upgrade]) (auto simp: find_Some_iff)

lemma AuthorizeRequest_attribution:
  assumes "rd_Allowed (AuthorizeRequest (Some c) meth target upgrade)"
  obtains path m where "NormalizePath target = Inr path" "m \<in> set (cd_Matched c)"
    "destination_admits path meth upgrade (md_Destination m)"
    "AuthorizeRequest (Some c) meth target upgrade = loop_grant path meth upgrade m"
  using assms that
proof (cases rule: AuthorizeRequest_cases [of c meth target upgrade])
  case (grant path m)
  then have "m \<in> set (cd_Matched c)" "destination_admits path meth upgrade (md_Destination m)"
    by (auto simp: find_Some_iff)
  with grant that show ?thesis by blast
qed simp_all

section \<open>The lister interface\<close>

text \<open>
  What the engine relies on in a \<open>Lister\<close>: in a good state the policies can be listed, and a
  profile found under a name is the profile of that name.
\<close>

locale policy_lister =
  fixes list_policies :: "'s \<Rightarrow> (string, 'ls egress_policy list) result"
    and get_upstream :: "'s \<Rightarrow> string \<Rightarrow> (string, upstream_proxy option) result"
    and good :: "'s \<Rightarrow> bool"
  assumes list_total: "good s \<Longrightarrow> \<exists>pols. list_policies s = Inr pols"
    and get_named: "good s \<Longrightarrow> get_upstream s name = Inr (Some up) \<Longrightarrow> up_Name up = name"
    and get_no_nil: "good s \<Longrightarrow> get_upstream s name \<noteq> Inr None"
begin

lemma Upstream_named: "good s \<Longrightarrow> Upstream (get_upstream s name) name = Inr up \<Longrightarrow> up_Name up = name"
  by (auto simp: Upstream_def dest: get_named split: sum.splits option.splits)

lemma Upstream_error: "good s \<Longrightarrow> Upstream (get_upstream s name) name = Inl e \<Longrightarrow>
    \<exists>msg. get_upstream s name = Inl msg \<and> e = NoUpstream name (Some msg)"
  by (auto simp: Upstream_def dest: get_no_nil split: sum.splits option.splits)

lemma connect_fails_only_on_selectors:
  assumes "good s" "AuthorizeConnect as_sel (list_policies s) (Some wid) host port = Inl e"
  shows "\<exists>pols name msg. list_policies s = Inr pols \<and> \<not> selectors_ok as_sel wid pols"
proof -
  from list_total [OF assms(1)] obtain pols where pols: "list_policies s = Inr pols" by blast
  have "\<not> selectors_ok as_sel wid pols"
  proof
    assume "selectors_ok as_sel wid pols"
    with assms(2) pols show False
      using AuthorizeConnect_Inr_iff [of as_sel pols wid host port] by auto
  qed
  with pols show ?thesis by blast
qed

end

end
