(* ===== verification/Guard.thy ===== *)
theory Guard
  imports Netip
begin

text \<open>
  \<open>internal/guard/guard.go\<close>: the destination guard. The DNS resolver is the environment: its
  answer for a name is an argument of \<open>Resolve\<close>. The contract a caller relies on is the locale
  \<open>destination_guard\<close>, interpreted here on the guard itself.
\<close>

section \<open>The guard\<close>

datatype guard_error =
    DeniedAddress string addr
  | Unresolvable string "string option"

definition DefaultDeniedCIDRs :: "string list" where
  "DefaultDeniedCIDRs =
     [''0.0.0.0/8'', ''10.0.0.0/8'', ''100.64.0.0/10'', ''127.0.0.0/8'', ''169.254.0.0/16'',
      ''172.16.0.0/12'', ''192.0.0.0/24'', ''192.168.0.0/16'', ''198.18.0.0/15'', ''224.0.0.0/4'',
      ''240.0.0.0/4'', ''::1/128'', ''fc00::/7'', ''fe80::/10'', ''ff00::/8'']"

record guard = g_denied :: "ip_prefix list"

definition parse_cidr :: "string \<Rightarrow> (string, ip_prefix) result" where
  "parse_cidr cidr =
     (case ParsePrefix (TrimSpace cidr) of None \<Rightarrow> Inl cidr | Some p \<Rightarrow> Inr (Masked p))"

text \<open>\<open>New\<close>: the CIDR that does not parse is the error.\<close>

definition New :: "string list \<Rightarrow> bool \<Rightarrow> (string, guard) result" where
  "New extraCIDRs skipDefaults =
     (let raw = (if skipDefaults then [] else DefaultDeniedCIDRs) @ extraCIDRs in
      case map_result parse_cidr raw of Inl e \<Rightarrow> Inl e | Inr denied \<Rightarrow> Inr \<lparr>g_denied = denied\<rparr>)"

fun denied_loop :: "addr \<Rightarrow> ip_prefix list \<Rightarrow> bool" where
  "denied_loop a [] = False"
| "denied_loop a (p # ps) =
     (if Is4 (pfx_Addr p) \<noteq> Is4 a then denied_loop a ps
      else if Contains p a then True else denied_loop a ps)"

definition Denied :: "guard \<Rightarrow> addr \<Rightarrow> bool" where
  "Denied g a = denied_loop (Unmap a) (g_denied g)"

fun resolve_loop :: "guard \<Rightarrow> string \<Rightarrow> addr list \<Rightarrow> addr list \<Rightarrow> (guard_error, addr list) result" where
  "resolve_loop g host [] out = Inr out"
| "resolve_loop g host (ip # ips) out =
     (let ip = Unmap ip in
      if Denied g ip then Inl (DeniedAddress host ip) else resolve_loop g host ips (out @ [ip]))"

definition Resolve ::
    "guard \<Rightarrow> (string \<Rightarrow> (string, addr list) result) \<Rightarrow> string \<Rightarrow> (guard_error, addr list) result" where
  "Resolve g lookupNetIP host0 =
     (let host = TrimSuffix (TrimSpace host0) ''.'' in
      if host = [] then Inl (Unresolvable [] None)
      else (case ParseAddr host of
              Some a \<Rightarrow>
                (let a = Unmap a in if Denied g a then Inl (DeniedAddress host a) else Inr [a])
            | None \<Rightarrow>
                (case lookupNetIP host of
                   Inl e \<Rightarrow> Inl (Unresolvable host (Some e))
                 | Inr ips \<Rightarrow>
                     if ips = [] then Inl (Unresolvable host None)
                     else resolve_loop g host ips [])))"

section \<open>Denied addresses\<close>

lemma Contains_same_family: "Contains p a \<Longrightarrow> Is4 (pfx_Addr p) = Is4 a"
  by (cases a) (auto simp: Contains_V4 Contains_V6)

lemma denied_loop_iff: "denied_loop a ps \<longleftrightarrow> (\<exists>p\<in>set ps. Contains p a)"
  by (induction ps) (auto dest: Contains_same_family)

lemma Denied_iff: "Denied g a \<longleftrightarrow> (\<exists>p\<in>set (g_denied g). Contains p (Unmap a))"
  by (simp add: Denied_def denied_loop_iff)

lemma Denied_Unmap [simp]: "Denied g (Unmap a) = Denied g a"
  by (simp add: Denied_def)

lemma Denied_mapped: "drop_bit 32 w = 0xFFFF \<Longrightarrow> Denied g (V6 w z) = Denied g (V4 (ucast w))"
  by (simp add: Denied_def)

lemma zoned_never_denied: "drop_bit 32 w \<noteq> 0xFFFF \<Longrightarrow> z \<noteq> [] \<Longrightarrow> \<not> Denied g (V6 w z)"
  by (simp add: Denied_iff Contains_def)

section \<open>Resolving\<close>

lemma resolve_loop_Inr_iff:
  "resolve_loop g host ips out = Inr r \<longleftrightarrow>
     (\<forall>ip\<in>set ips. \<not> Denied g ip) \<and> r = out @ map Unmap ips"
  by (induction ips arbitrary: out) (auto simp: Let_def)

lemma resolve_loop_Inl:
  "resolve_loop g host ips out = Inl e \<Longrightarrow> \<exists>ip\<in>set ips. Denied g ip \<and> e = DeniedAddress host (Unmap ip)"
  by (induction ips arbitrary: out) (auto simp: Let_def split: if_splits)

lemma Resolve_permitted:
  assumes "Resolve g lookup host = Inr addrs"
  shows "addrs \<noteq> [] \<and> (\<forall>a\<in>set addrs. \<not> Denied g a)"
  using assms
  by (auto simp: Resolve_def Let_def resolve_loop_Inr_iff split: if_splits option.splits sum.splits)

lemma Resolve_denied:
  assumes "Resolve g lookup host = Inl (DeniedAddress h a)"
  shows "Denied g a"
  using assms
  by (auto simp: Resolve_def Let_def split: if_splits option.splits sum.splits dest!: resolve_loop_Inl)

section \<open>The contract of a guard\<close>

locale destination_guard =
  fixes resolve :: "string \<Rightarrow> ('e, addr list) result"
    and denied :: "addr \<Rightarrow> bool"
  assumes resolved_permitted: "resolve host = Inr addrs \<Longrightarrow> a \<in> set addrs \<Longrightarrow> \<not> denied a"
    and resolved_nonempty: "resolve host = Inr addrs \<Longrightarrow> addrs \<noteq> []"
begin

lemma resolved_member: "resolve host = Inr addrs \<Longrightarrow> \<exists>a. a \<in> set addrs \<and> \<not> denied a"
  using resolved_permitted resolved_nonempty by (metis hd_in_set)

end

interpretation guard: destination_guard "Resolve g lookup" "Denied g" for g lookup
  by unfold_locales (use Resolve_permitted in blast)+

section \<open>The default ranges\<close>

definition default_prefixes :: "ip_prefix list" where
  "default_prefixes =
     [\<lparr>pfx_Addr = V4 0x00000000, pfx_Bits = 8\<rparr>, \<lparr>pfx_Addr = V4 0x0A000000, pfx_Bits = 8\<rparr>,
      \<lparr>pfx_Addr = V4 0x64400000, pfx_Bits = 10\<rparr>, \<lparr>pfx_Addr = V4 0x7F000000, pfx_Bits = 8\<rparr>,
      \<lparr>pfx_Addr = V4 0xA9FE0000, pfx_Bits = 16\<rparr>, \<lparr>pfx_Addr = V4 0xAC100000, pfx_Bits = 12\<rparr>,
      \<lparr>pfx_Addr = V4 0xC0000000, pfx_Bits = 24\<rparr>, \<lparr>pfx_Addr = V4 0xC0A80000, pfx_Bits = 16\<rparr>,
      \<lparr>pfx_Addr = V4 0xC6120000, pfx_Bits = 15\<rparr>, \<lparr>pfx_Addr = V4 0xE0000000, pfx_Bits = 4\<rparr>,
      \<lparr>pfx_Addr = V4 0xF0000000, pfx_Bits = 4\<rparr>,
      \<lparr>pfx_Addr = V6 1 [], pfx_Bits = 128\<rparr>,
      \<lparr>pfx_Addr = V6 0xFC000000000000000000000000000000 [], pfx_Bits = 7\<rparr>,
      \<lparr>pfx_Addr = V6 0xFE800000000000000000000000000000 [], pfx_Bits = 10\<rparr>,
      \<lparr>pfx_Addr = V6 0xFF000000000000000000000000000000 [], pfx_Bits = 8\<rparr>]"

lemmas cidr_eval = parse_cidr_def TrimSpace_def trim_with_def is_space_def parse_eval

lemma parse_defaults: "map_result parse_cidr DefaultDeniedCIDRs = Inr default_prefixes"
  by (simp add: DefaultDeniedCIDRs_def default_prefixes_def cidr_eval Masked_def mask_addr_def
      mask_eq_exp_minus_1)

lemma map_result_append:
  "map_result f (xs @ ys) =
     (case map_result f xs of Inl e \<Rightarrow> Inl e
      | Inr us \<Rightarrow> (case map_result f ys of Inl e \<Rightarrow> Inl e | Inr vs \<Rightarrow> Inr (us @ vs)))"
  by (induction xs) (auto split: sum.splits)

lemma New_defaults: "New extra False = Inr g \<Longrightarrow> set default_prefixes \<subseteq> set (g_denied g)"
  by (auto simp: New_def map_result_append parse_defaults split: sum.splits)

lemma New_extra:
  "New extra skip = Inr g \<Longrightarrow> cidr \<in> set extra \<Longrightarrow> \<exists>p\<in>set (g_denied g). parse_cidr cidr = Inr p"
  by (auto simp: New_def map_result_append map_result_Inr_iff list_all2_conv_all_nth in_set_conv_nth
      split: sum.splits)

lemma default_V4:
  "(\<exists>p\<in>set default_prefixes. Contains p (V4 w)) \<longleftrightarrow>
     (let n = unat w in
        n div 2 ^ 24 \<in> {0, 10, 127} \<or> n div 2 ^ 22 = 401 \<or> n div 2 ^ 16 \<in> {43518, 49320} \<or>
        n div 2 ^ 20 = 2753 \<or> n div 2 ^ 8 = 12582912 \<or> n div 2 ^ 17 = 25353 \<or> n div 2 ^ 28 \<in> {14, 15})"
  by (simp add: default_prefixes_def Contains_V4 Let_def) argo

lemma default_V6:
  "(\<exists>p\<in>set default_prefixes. Contains p (V6 w [])) \<longleftrightarrow>
     (let n = unat w in
        n = 1 \<or> n div 2 ^ 121 = 126 \<or> n div 2 ^ 118 = 1018 \<or> n div 2 ^ 120 = 255)"
  by (simp add: default_prefixes_def Contains_V6 Let_def) argo

end
