(* ===== verification/Identity.thy ===== *)
theory Identity
  imports Policy_Types "HOL-Library.AList"
begin

text \<open>
  \<open>internal/identity\<close>: from a connection's source address to the workload behind it. The
  informer index, the namespace lister and the live API are the environment, a record of the
  functions the provider calls; the clock is passed in. The provider's own state is the
  negative cache, kept as an association list because the code counts its entries.
\<close>

section \<open>Pods and errors\<close>

record pod =
  pod_Namespace :: string
  pod_Name :: string
  pod_ServiceAccount :: string
  pod_Labels :: labels
  pod_HostNetwork :: bool
  pod_Deleting :: bool
  pod_Phase :: string
  pod_PodIP :: string
  pod_PodIPs :: "string list"

datatype identity_error =
    UnknownClient string
  | AmbiguousClient string "string \<times> string" "string \<times> string"
  | HostNetworkClient string string string
  | NilRemoteAddress
  | UnparsableAddress string
  | IndexLookupFailed string string
  | LiveLookupFailed string string
  | NamespaceUnreadable string string string

fun is_unknown :: "identity_error \<Rightarrow> bool" where
  "is_unknown (UnknownClient _) = True"
| "is_unknown _ = False"

section \<open>Rendering\<close>

definition identity_String :: "identity option \<Rightarrow> string" where
  "identity_String id_opt =
     (case id_opt of
        None \<Rightarrow> ''<unidentified>''
      | Some i \<Rightarrow> id_Namespace i @ ''/'' @ id_Pod i @ '' (sa='' @ id_ServiceAccount i @ '', ip='' @
          addr_String (id_SourceIP i) @ '')'')"

text \<open>The names of Kubernetes hold no slash and no blank, so the text names the workload.\<close>

lemma identity_String_names:
  assumes "CHR ''/'' \<notin> set (id_Namespace i)" "CHR '' '' \<notin> set (id_Pod i)"
    and "CHR ''/'' \<notin> set (id_Namespace j)" "CHR '' '' \<notin> set (id_Pod j)"
    and "identity_String (Some i) = identity_String (Some j)"
  shows "id_Namespace i = id_Namespace j \<and> id_Pod i = id_Pod j"
proof -
  have cut: "takeWhile (\<lambda>c. c \<noteq> x) (xs @ x # ys) = xs" "dropWhile (\<lambda>c. c \<noteq> x) (xs @ x # ys) = x # ys"
    if "x \<notin> set xs" for x and xs ys :: string
    using that by (induction xs) auto
  from assms(5) obtain u v where
    s: "id_Namespace i @ CHR ''/'' # id_Pod i @ CHR '' '' # u = id_Namespace j @ CHR ''/'' # id_Pod j @ CHR '' '' # v"
    by (auto simp: identity_String_def)
  from arg_cong [OF s, of "takeWhile (\<lambda>c. c \<noteq> CHR ''/'')"] assms(1,3) have ns: "id_Namespace i = id_Namespace j"
    by (simp add: cut)
  with s have "id_Pod i @ CHR '' '' # u = id_Pod j @ CHR '' '' # v" by simp
  from arg_cong [OF this, of "takeWhile (\<lambda>c. c \<noteq> CHR '' '')"] assms(2,4) have "id_Pod i = id_Pod j"
    by (simp add: cut)
  with ns show ?thesis ..
qed

section \<open>Addresses\<close>

text \<open>\<open>remote\<close> is \<open>None\<close> for a nil \<open>net.Addr\<close>, otherwise what its \<open>String\<close> method returns.\<close>

definition AddrToIP :: "string option \<Rightarrow> (identity_error, addr) result" where
  "AddrToIP remote =
     (case remote of
        None \<Rightarrow> Inl NilRemoteAddress
      | Some s0 \<Rightarrow>
          (let s = (case SplitHostPort s0 of Some (host, _) \<Rightarrow> host | None \<Rightarrow> s0) in
           case ParseAddr s of None \<Rightarrow> Inl (UnparsableAddress s) | Some a \<Rightarrow> Inr (Unmap a)))"

text \<open>The closure \<open>add\<close> of \<open>podIPIndexFunc\<close>, and the function itself on a pod.\<close>

definition add_ip :: "string list \<Rightarrow> string \<Rightarrow> string list" where
  "add_ip ips ip =
     (if ip = [] then ips
      else (case ParseAddr ip of
              None \<Rightarrow> ips
            | Some a \<Rightarrow> (let key = addr_String (Unmap a) in if key \<in> set ips then ips else ips @ [key])))"

definition podIPIndexFunc :: "pod \<Rightarrow> string list" where
  "podIPIndexFunc p = foldl add_ip (add_ip [] (pod_PodIP p)) (pod_PodIPs p)"

section \<open>Picking the pod\<close>

definition PodSucceeded :: string where "PodSucceeded = ''Succeeded''"
definition PodFailed :: string where "PodFailed = ''Failed''"

definition live_pod :: "pod \<Rightarrow> bool" where
  "live_pod p \<longleftrightarrow> \<not> pod_Deleting p \<and> \<not> (pod_Phase p = PodSucceeded \<or> pod_Phase p = PodFailed)"

definition pod_ref :: "pod \<Rightarrow> string \<times> string" where
  "pod_ref p = (pod_Namespace p, pod_Name p)"

fun pickPod :: "pod list \<Rightarrow> string \<Rightarrow> (identity_error, pod) result" where
  "pickPod [] ip = Inl (UnknownClient ip)"
| "pickPod [p] ip = Inr p"
| "pickPod pods ip =
     (let live = filter live_pod pods in
      if length live = 1 then Inr (live ! 0)
      else if length live = 0 then Inl (UnknownClient ip)
      else Inl (AmbiguousClient ip (pod_ref (live ! 0)) (pod_ref (live ! 1))))"

section \<open>The provider\<close>

record env =
  env_ByIndex :: "string \<Rightarrow> (string, pod list) result"
  env_LivePods :: "string \<Rightarrow> (string, pod list) result"
  env_NsCached :: "string \<Rightarrow> (string, labels) result"
  env_NsLive :: "string \<Rightarrow> (string, labels) result"

definition lookup :: "env \<Rightarrow> string \<Rightarrow> (identity_error, pod) result" where
  "lookup e ip =
     (case env_ByIndex e ip of
        Inl msg \<Rightarrow> Inl (IndexLookupFailed ip msg)
      | Inr pods \<Rightarrow>
          (case pickPod pods ip of
             Inr p \<Rightarrow> Inr p
           | Inl err \<Rightarrow>
               if \<not> is_unknown err then Inl err
               else (case env_LivePods e ip of
                       Inl msg \<Rightarrow> Inl (LiveLookupFailed ip msg)
                     | Inr items \<Rightarrow> pickPod items ip)))"

type_synonym negative = "(string \<times> int) list"

definition negativeHit :: "int \<Rightarrow> string \<Rightarrow> negative \<Rightarrow> bool \<times> negative" where
  "negativeHit now ip neg =
     (case map_of neg ip of
        None \<Rightarrow> (False, neg)
      | Some until \<Rightarrow> if until < now then (False, AList.delete ip neg) else (True, neg))"

definition rememberMiss :: "int \<Rightarrow> int \<Rightarrow> string \<Rightarrow> negative \<Rightarrow> negative" where
  "rememberMiss now negTTL ip neg =
     (let swept = (if 1024 < length neg then filter (\<lambda>(k, until). \<not> until < now) neg else neg) in
      AList.update ip (now + negTTL) swept)"

definition DefaultNegativeTTL :: int where
  "DefaultNegativeTTL = 2 * 1000000000"

text \<open>The part of \<open>NewPodIPProvider\<close> that is the provider's own: the time to live it keeps.\<close>

definition effective_ttl :: "int \<Rightarrow> int" where
  "effective_ttl negTTL = (if negTTL \<le> 0 then DefaultNegativeTTL else negTTL)"

text \<open>\<open>NewPodIPProvider\<close>; \<open>indexers\<close> is what the informer answers when the index is added.\<close>

record provider =
  pv_negTTL :: int
  pv_negative :: negative

definition NewPodIPProvider :: "(string, unit) result \<Rightarrow> int \<Rightarrow> (string, provider) result" where
  "NewPodIPProvider indexers negTTL =
     (case indexers of
        Inl e \<Rightarrow> Inl e
      | Inr _ \<Rightarrow> Inr \<lparr>pv_negTTL = effective_ttl negTTL, pv_negative = []\<rparr>)"

lemma NewPodIPProvider_fresh:
  "NewPodIPProvider indexers negTTL = Inr pv \<Longrightarrow> 0 < pv_negTTL pv \<and> pv_negative pv = []"
  by (auto simp: NewPodIPProvider_def effective_ttl_def DefaultNegativeTTL_def split: sum.splits)

text \<open>
  The provider is ready when both informers are; \<open>WaitForCacheSync\<close> waits for the same two, and its
  arguments are whether they got there before the context was done.
\<close>

definition HasSynced :: "bool \<Rightarrow> bool \<Rightarrow> bool" where
  "HasSynced podSynced nsSynced \<longleftrightarrow> podSynced \<and> nsSynced"

definition WaitForCacheSync :: "bool \<Rightarrow> bool \<Rightarrow> bool" where
  "WaitForCacheSync podSynced nsSynced \<longleftrightarrow> list_all id [podSynced, nsSynced]"

lemma WaitForCacheSync_iff [simp]: "WaitForCacheSync p n \<longleftrightarrow> HasSynced p n"
  by (simp add: WaitForCacheSync_def HasSynced_def)

definition namespace_labels :: "env \<Rightarrow> pod \<Rightarrow> (identity_error, labels) result" where
  "namespace_labels e p =
     (case env_NsCached e (pod_Namespace p) of
        Inr ls \<Rightarrow> Inr ls
      | Inl _ \<Rightarrow>
          (case env_NsLive e (pod_Namespace p) of
             Inr ls \<Rightarrow> Inr ls
           | Inl msg \<Rightarrow> Inl (NamespaceUnreadable (pod_Namespace p) (pod_Name p) msg)))"

text \<open>
  \<open>Identify\<close>: \<open>now1\<close> is the clock at the negative-cache check, \<open>now2\<close> at the recording of a
  miss. The second component is the negative cache afterwards.
\<close>

definition Identify ::
    "env \<Rightarrow> int \<Rightarrow> int \<Rightarrow> int \<Rightarrow> string option \<Rightarrow> negative \<Rightarrow>
     (identity_error, identity) result \<times> negative" where
  "Identify e negTTL now1 now2 remote neg =
     (case AddrToIP remote of
        Inl err \<Rightarrow> (Inl err, neg)
      | Inr a \<Rightarrow>
          (let key = addr_String a; (hit, neg1) = negativeHit now1 key neg in
           if hit then (Inl (UnknownClient key), neg1)
           else (case lookup e key of
                   Inl err \<Rightarrow> (Inl err, if is_unknown err then rememberMiss now2 negTTL key neg1 else neg1)
                 | Inr p \<Rightarrow>
                     if pod_HostNetwork p then
                       (Inl (HostNetworkClient (pod_Namespace p) (pod_Name p) key), neg1)
                     else (case namespace_labels e p of
                             Inl err \<Rightarrow> (Inl err, neg1)
                           | Inr ls \<Rightarrow>
                               (Inr \<lparr>id_Namespace = pod_Namespace p, id_Pod = pod_Name p,
                                     id_ServiceAccount = pod_ServiceAccount p,
                                     id_PodLabels = pod_Labels p, id_NamespaceLabels = ls,
                                     id_SourceIP = a\<rparr>, neg1)))))"

section \<open>Which pod is picked\<close>

lemma pickPod_many:
  assumes "2 \<le> length pods"
  shows "pickPod pods ip =
    (let live = filter live_pod pods in
     if length live = 1 then Inr (live ! 0)
     else if length live = 0 then Inl (UnknownClient ip)
     else Inl (AmbiguousClient ip (pod_ref (live ! 0)) (pod_ref (live ! 1))))"
proof -
  from assms obtain q r rest where "pods = q # r # rest"
    by (cases pods; cases "tl pods") auto
  then show ?thesis by simp
qed

lemma pickPod_one_live:
  assumes "2 \<le> length pods" "filter live_pod pods = [p]"
  shows "pickPod pods ip = Inr p"
  using assms by (simp add: pickPod_many)

lemma pickPod_manyD:
  assumes "2 \<le> length pods" "pickPod pods ip = Inr p"
  shows "filter live_pod pods = [p]"
proof -
  from assms have "length (filter live_pod pods) = 1" "p = filter live_pod pods ! 0"
    by (simp_all add: pickPod_many Let_def split: if_splits)
  then show ?thesis by (metis length_0_conv length_Suc_conv One_nat_def nth_Cons_0)
qed

lemma pickPod_member: "pickPod pods ip = Inr p \<Longrightarrow> p \<in> set pods"
proof (cases "2 \<le> length pods")
  case True
  assume "pickPod pods ip = Inr p"
  from pickPod_manyD [OF True this] have "p \<in> set (filter live_pod pods)" by simp
  then show ?thesis by simp
next
  case False
  assume "pickPod pods ip = Inr p"
  with False show ?thesis by (cases pods; cases "tl pods") auto
qed

lemma pickPod_live: "2 \<le> length pods \<Longrightarrow> pickPod pods ip = Inr p \<Longrightarrow> live_pod p"
proof -
  assume "2 \<le> length pods" "pickPod pods ip = Inr p"
  then have "p \<in> set (filter live_pod pods)" by (simp add: pickPod_manyD)
  then show "live_pod p" by simp
qed

lemma pickPod_unknown: "pickPod pods ip = Inl e \<Longrightarrow> is_unknown e \<Longrightarrow> e = UnknownClient ip"
proof (cases "2 \<le> length pods")
  case True
  assume "pickPod pods ip = Inl e" "is_unknown e"
  with True show ?thesis by (auto simp: pickPod_many Let_def split: if_splits)
next
  case False
  assume "pickPod pods ip = Inl e"
  with False show ?thesis by (cases pods; cases "tl pods") auto
qed

section \<open>The negative cache\<close>

lemma negativeHit_fresh: "negativeHit now ip neg = (True, neg') \<Longrightarrow> \<exists>until. map_of neg ip = Some until \<and> now \<le> until"
  by (auto simp: negativeHit_def split: option.splits if_splits)

lemma negativeHit_subset: "negativeHit now ip neg = (b, neg') \<Longrightarrow> set neg' \<subseteq> set neg"
  by (auto simp: negativeHit_def AList.delete_eq split: option.splits if_splits)

lemma set_AList_update: "set (AList.update k v xs) \<subseteq> insert (k, v) (set xs)"
  by (induction xs) auto

lemma length_AList_update: "length (AList.update k v xs) \<le> Suc (length xs)"
  by (induction xs) auto

lemma rememberMiss_set: "set (rememberMiss now ttl ip neg) \<subseteq> insert (ip, now + ttl) (set neg)"
proof -
  let ?swept = "if 1024 < length neg then filter (\<lambda>(k, until). \<not> until < now) neg else neg"
  have "set (rememberMiss now ttl ip neg) \<subseteq> insert (ip, now + ttl) (set ?swept)"
    unfolding rememberMiss_def Let_def by (rule set_AList_update)
  also have "\<dots> \<subseteq> insert (ip, now + ttl) (set neg)" by auto
  finally show ?thesis .
qed

lemma rememberMiss_lookup: "map_of (rememberMiss now ttl ip neg) ip = Some (now + ttl)"
  by (simp add: rememberMiss_def Let_def update_conv')

lemma rememberMiss_length:
  "length (rememberMiss now ttl ip neg) \<le> max 1025 (Suc (length (filter (\<lambda>(k, until). now \<le> until) neg)))"
proof (cases "1024 < length neg")
  case True
  have "filter (\<lambda>(k, until). \<not> until < now) neg = filter (\<lambda>(k, until). now \<le> until) neg"
    by (intro filter_cong) auto
  with True show ?thesis
    using length_AList_update [of ip "now + ttl" "filter (\<lambda>(k, until). now \<le> until) neg"]
    by (simp add: rememberMiss_def Let_def le_max_iff_disj)
next
  case False
  then show ?thesis
    using length_AList_update [of ip "now + ttl" neg] by (simp add: rememberMiss_def Let_def)
qed

section \<open>What an identification rests on\<close>

lemma lookup_InrD:
  assumes "lookup e ip = Inr p"
  shows "(\<exists>pods. env_ByIndex e ip = Inr pods \<and> p \<in> set pods) \<or>
    (\<exists>pods. env_LivePods e ip = Inr pods \<and> p \<in> set pods)"
  using assms by (auto simp: lookup_def split: sum.splits if_splits dest: pickPod_member)

lemma Identify_InrD:
  assumes "Identify e ttl t1 t2 remote neg = (Inr wid, neg')"
  obtains a p where "AddrToIP remote = Inr a" "lookup e (addr_String a) = Inr p"
    "\<not> pod_HostNetwork p" "namespace_labels e p = Inr (id_NamespaceLabels wid)"
    "id_Namespace wid = pod_Namespace p" "id_Pod wid = pod_Name p"
    "id_ServiceAccount wid = pod_ServiceAccount p" "id_PodLabels wid = pod_Labels p"
    "id_SourceIP wid = a" "\<not> fst (negativeHit t1 (addr_String a) neg)"
  using assms that
  by (auto simp: Identify_def Let_def split: sum.splits prod.splits if_splits)

lemma Identify_negative_unchanged_or_missed:
  assumes "Identify e ttl t1 t2 remote neg = (r, neg')"
  shows "set neg' \<subseteq> set neg \<union> {(k, t2 + ttl) |k. r = Inl (UnknownClient k)}"
proof (cases "AddrToIP remote")
  case (Inl err)
  with assms show ?thesis by (auto simp: Identify_def)
next
  case (Inr a)
  obtain hit neg1 where nh: "negativeHit t1 (addr_String a) neg = (hit, neg1)" by fastforce
  have sub: "set neg1 \<subseteq> set neg" by (rule negativeHit_subset [OF nh])
  show ?thesis
  proof (cases "neg' = neg1")
    case True
    with sub show ?thesis by auto
  next
    case False
    with assms Inr nh obtain err where err: "is_unknown err" "r = Inl err" "lookup e (addr_String a) = Inl err"
      and neg': "neg' = rememberMiss t2 ttl (addr_String a) neg1"
      by (auto simp: Identify_def Let_def split: sum.splits if_splits)
    have "err = UnknownClient (addr_String a)"
      using err by (auto simp: lookup_def split: sum.splits if_splits dest: pickPod_unknown)
    with neg' err sub rememberMiss_set [of t2 ttl "addr_String a" neg1] show ?thesis by auto
  qed
qed

section \<open>The cache over time\<close>

text \<open>
  A run of the provider: the clock moves forward and identifications happen. However many
  there are, no entry outlives its time to live.
\<close>

record neg_sys =
  ns_clock :: int
  ns_negative :: negative

inductive neg_step :: "int \<Rightarrow> neg_sys \<Rightarrow> neg_sys \<Rightarrow> bool" for ttl :: int where
  tick: "ns_clock s \<le> now \<Longrightarrow> neg_step ttl s (s\<lparr>ns_clock := now\<rparr>)"
| identified: "ns_clock s \<le> t1 \<Longrightarrow> t1 \<le> t2 \<Longrightarrow>
    Identify e ttl t1 t2 remote (ns_negative s) = (r, neg') \<Longrightarrow>
    neg_step ttl s (s\<lparr>ns_clock := t2, ns_negative := neg'\<rparr>)"

definition neg_start :: "neg_sys \<Rightarrow> bool" where
  "neg_start s \<longleftrightarrow> ns_negative s = []"

definition neg_bounded :: "int \<Rightarrow> neg_sys \<Rightarrow> bool" where
  "neg_bounded ttl s \<longleftrightarrow> (\<forall>(k, until) \<in> set (ns_negative s). until \<le> ns_clock s + ttl)"

lemma neg_step_bounded: "neg_step ttl s t \<Longrightarrow> neg_bounded ttl s \<Longrightarrow> neg_bounded ttl t"
proof (induction rule: neg_step.induct)
  case (tick s now)
  then show ?case by (fastforce simp: neg_bounded_def)
next
  case (identified s t1 t2 e remote r neg')
  from Identify_negative_unchanged_or_missed [OF identified.hyps(3)] identified.hyps(1,2) identified.prems
  show ?case by (fastforce simp: neg_bounded_def)
qed

interpretation neg: machine_invariant neg_start "neg_step ttl" "neg_bounded ttl" for ttl
proof unfold_locales
  show "neg_start s \<Longrightarrow> neg_bounded ttl s" for s by (simp add: neg_start_def neg_bounded_def)
qed (rule neg_step_bounded)

section \<open>The contract of a provider\<close>

text \<open>
  What the data path relies on in a \<open>Provider\<close>: an identity it returns is that of a pod with an
  address of its own, and its namespace labels were read for that pod's namespace.
\<close>

locale identity_provider =
  fixes identify :: "string option \<Rightarrow> ('e, identity) result"
    and known :: "string option \<Rightarrow> pod \<Rightarrow> bool"
    and labels_of :: "string \<Rightarrow> labels \<Rightarrow> bool"
  assumes identified_known: "identify remote = Inr wid \<Longrightarrow>
      \<exists>p. known remote p \<and> \<not> pod_HostNetwork p \<and> id_Namespace wid = pod_Namespace p \<and>
          id_Pod wid = pod_Name p \<and> id_PodLabels wid = pod_Labels p"
    and identified_labels: "identify remote = Inr wid \<Longrightarrow> labels_of (id_Namespace wid) (id_NamespaceLabels wid)"
begin

lemma only_host_network_refused:
  "(\<And>p. known remote p \<Longrightarrow> pod_HostNetwork p) \<Longrightarrow> \<exists>e. identify remote = Inl e"
  using identified_known by (metis sum.exhaust)

end

definition known_pod :: "env \<Rightarrow> string option \<Rightarrow> pod \<Rightarrow> bool" where
  "known_pod e remote p \<longleftrightarrow>
     (\<exists>a. AddrToIP remote = Inr a \<and> lookup e (addr_String a) = Inr p)"

definition read_labels :: "env \<Rightarrow> string \<Rightarrow> labels \<Rightarrow> bool" where
  "read_labels e ns ls \<longleftrightarrow> env_NsCached e ns = Inr ls \<or> env_NsLive e ns = Inr ls"

interpretation podip: identity_provider "\<lambda>remote. fst (Identify e ttl t1 t2 remote neg)"
    "known_pod e" "read_labels e" for e ttl t1 t2 neg
proof unfold_locales
  fix remote wid
  assume "fst (Identify e ttl t1 t2 remote neg) = Inr wid"
  then have "Identify e ttl t1 t2 remote neg = (Inr wid, snd (Identify e ttl t1 t2 remote neg))"
    by (simp add: prod_eq_iff)
  then obtain a p where *: "AddrToIP remote = Inr a" "lookup e (addr_String a) = Inr p"
    "\<not> pod_HostNetwork p" "namespace_labels e p = Inr (id_NamespaceLabels wid)"
    "id_Namespace wid = pod_Namespace p" "id_Pod wid = pod_Name p" "id_PodLabels wid = pod_Labels p"
    by (rule Identify_InrD)
  then show "\<exists>p. known_pod e remote p \<and> \<not> pod_HostNetwork p \<and> id_Namespace wid = pod_Namespace p \<and>
      id_Pod wid = pod_Name p \<and> id_PodLabels wid = pod_Labels p"
    by (auto simp: known_pod_def)
  from *(4,5) show "read_labels e (id_Namespace wid) (id_NamespaceLabels wid)"
    by (auto simp: namespace_labels_def read_labels_def split: sum.splits)
qed

end
