(* ===== verification/Upstream.thy ===== *)
theory Upstream
  imports Matching Policy_Types Guard
begin

text \<open>
  \<open>internal/upstream\<close>: the second leg. The network is the environment: a record of what
  dialling, the TLS handshake, writing and reading the answer of the corporate proxy yield.
  Every function returns its result together with the sequence of what it did on the network,
  so that properties can speak of what was contacted and what was sent. \<open>net/url.Parse\<close> and the
  Secret reader are parameters.
\<close>

section \<open>Credentials\<close>

datatype cred_error =
    NoSecretName
  | WrongNamespace string string
  | ReadSecret "string \<times> string" string
  | MissingKey "string \<times> string" string

definition DefaultUsernameKey :: string where "DefaultUsernameKey = ''username''"
definition DefaultPasswordKey :: string where "DefaultPasswordKey = ''password''"

definition orDefault :: "string \<Rightarrow> string \<Rightarrow> string" where
  "orDefault v def = (if v = [] then def else v)"

type_synonym secret_reader = "string \<times> string \<Rightarrow> (string, string \<rightharpoonup> string) result"

definition trim_newlines :: "string \<Rightarrow> string" where
  "trim_newlines s = TrimRight {CHR 0x0D, CHR 0x0A} s"

text \<open>\<open>SecretCredentials.Credentials\<close>; \<open>own\<close> is the namespace the source is pinned to.\<close>

definition Credentials ::
    "secret_reader \<Rightarrow> string \<Rightarrow> secret_ref option \<Rightarrow> (cred_error, string \<times> string) result" where
  "Credentials reader own ref_opt =
     (case ref_opt of
        None \<Rightarrow> Inl NoSecretName
      | Some ref \<Rightarrow>
          if ref_Name ref = [] then Inl NoSecretName
          else if ref_Namespace ref \<noteq> [] \<and> ref_Namespace ref \<noteq> own
            then Inl (WrongNamespace own (ref_Namespace ref))
          else
            (let key = (own, ref_Name ref) in
             case reader key of
               Inl e \<Rightarrow> Inl (ReadSecret key e)
             | Inr data \<Rightarrow>
                 (let userKey = orDefault (ref_UsernameKey ref) DefaultUsernameKey;
                      passKey = orDefault (ref_PasswordKey ref) DefaultPasswordKey in
                  case data userKey of
                    None \<Rightarrow> Inl (MissingKey key userKey)
                  | Some user \<Rightarrow>
                      (case data passKey of
                         None \<Rightarrow> Inl (MissingKey key passKey)
                       | Some pass \<Rightarrow> Inr (trim_newlines user, trim_newlines pass)))))"

section \<open>Base64\<close>

definition b64_char :: "nat \<Rightarrow> char" where
  "b64_char n =
     (if n < 26 then char_of (65 + n) else if n < 52 then char_of (71 + n)
      else if n < 62 then char_of (n - 4) else if n = 62 then CHR ''+'' else CHR ''/'')"

text \<open>\<open>StdEncoding.EncodeToString\<close>: three bytes to four characters, padded.\<close>

fun b64_encode :: "string \<Rightarrow> string" where
  "b64_encode [] = []"
| "b64_encode [a] =
     (let n = of_char a * 16 in [b64_char (n div 64), b64_char (n mod 64), CHR ''='', CHR ''=''])"
| "b64_encode [a, b] =
     (let n = (of_char a * 256 + of_char b) * 4 in
      [b64_char (n div 4096), b64_char (n div 64 mod 64), b64_char (n mod 64), CHR ''=''])"
| "b64_encode (a # b # c # s) =
     (let n = of_char a * 65536 + of_char b * 256 + of_char c in
      [b64_char (n div 262144), b64_char (n div 4096 mod 64), b64_char (n div 64 mod 64),
       b64_char (n mod 64)] @ b64_encode s)"

definition basic_auth :: "string \<Rightarrow> string \<Rightarrow> string" where
  "basic_auth user pass = ''Basic '' @ b64_encode (user @ '':'' @ pass)"

section \<open>Proxy URLs\<close>

record purl =
  url_Scheme :: string
  url_Host :: string

text \<open>\<open>URL.Port\<close> and \<open>URL.Hostname\<close> split the \<open>Host\<close> field.\<close>

definition url_split :: "string \<Rightarrow> string \<times> string" where
  "url_split hp =
     (let (host, port) =
        (case cut_last (CHR '':'') hp of
           None \<Rightarrow> (hp, [])
         | Some (h, p) \<Rightarrow> if list_all is_digit p then (h, p) else (hp, [])) in
      (if prefix ''['' host \<and> suffix '']'' host then butlast (tl host) else host, port))"

definition url_Port :: "purl \<Rightarrow> string" where
  "url_Port u = snd (url_split (url_Host u))"

definition url_Hostname :: "purl \<Rightarrow> string" where
  "url_Hostname u = fst (url_split (url_Host u))"

section \<open>No-proxy patterns\<close>

definition matchesNoProxy :: "string list \<Rightarrow> string \<Rightarrow> bool" where
  "matchesNoProxy patterns host0 =
     (let host = canonicalHost host0 in
      list_ex (\<lambda>p0. let p = canonicalHost p0 in
                 if p = [] then False
                 else if prefix ''.'' p then suffix p host \<and> length p < length host
                 else MatchHost p host) patterns)"

section \<open>The dialler\<close>

datatype upstream_error =
    NilProfile
  | BadURL string string string
  | NoValidatedAddress string
  | DirectDialFailed string string
  | UpstreamUnreachable string string
  | CredentialsNotConfigured string
  | CredentialsFailed string cred_error
  | UpstreamAuth string string
  | UpstreamRefused string string string

record target =
  t_Host :: string
  t_Port :: int
  t_Addrs :: "addr list"

definition hostPort :: "target \<Rightarrow> string" where
  "hostPort t = JoinHostPort (t_Host t) (Itoa (t_Port t))"

text \<open>A connection is named by the address it was dialled to; \<open>buffered\<close> counts replayed bytes.\<close>

record conn =
  c_Addr :: string
  c_TLS :: bool
  c_Buffered :: nat

datatype net_event =
    Dialed string
  | Handshake string string
  | SentConnect string string "string option"
  | Closed string

record network =
  net_dial :: "string \<Rightarrow> (string, unit) result"
  net_handshake :: "string \<Rightarrow> (string, unit) result"
  net_write :: "string \<Rightarrow> (string, unit) result"
  net_response :: "string \<Rightarrow> (string, int \<times> string \<times> nat) result"

record dialer =
  d_creds :: "(secret_ref option \<Rightarrow> (cred_error, string \<times> string) result) option"
  d_url_parse :: "string \<Rightarrow> (string, purl) result"

fun direct_loop ::
    "network \<Rightarrow> target \<Rightarrow> string \<Rightarrow> addr list \<Rightarrow> (upstream_error, conn) result \<times> net_event list" where
  "direct_loop net t lastErr [] = (Inl (DirectDialFailed (hostPort t) lastErr), [])"
| "direct_loop net t lastErr (a # as) =
     (let hp = JoinHostPort (addr_String a) (Itoa (t_Port t)) in
      case net_dial net hp of
        Inr _ \<Rightarrow> (Inr \<lparr>c_Addr = hp, c_TLS = False, c_Buffered = 0\<rparr>, [Dialed hp])
      | Inl e \<Rightarrow> (let (r, ev) = direct_loop net t e as in (r, Dialed hp # ev)))"

definition dialDirect :: "network \<Rightarrow> target \<Rightarrow> (upstream_error, conn) result \<times> net_event list" where
  "dialDirect net t =
     (if t_Addrs t = [] then (Inl (NoValidatedAddress (t_Host t)), [])
      else direct_loop net t [] (t_Addrs t))"

definition proxy_address :: "purl \<Rightarrow> string" where
  "proxy_address u =
     (if url_Port u = [] then
        (if url_Scheme u = ''https'' then JoinHostPort (url_Host u) ''443''
         else JoinHostPort (url_Host u) ''3128'')
      else url_Host u)"

definition dialProxy :: "network \<Rightarrow> purl \<Rightarrow> (upstream_error, conn) result \<times> net_event list" where
  "dialProxy net u =
     (let host = proxy_address u in
      case net_dial net host of
        Inl e \<Rightarrow> (Inl (UpstreamUnreachable host e), [Dialed host])
      | Inr _ \<Rightarrow>
          if url_Scheme u = ''https'' then
            (case net_handshake net host of
               Inl e \<Rightarrow> (Inl (UpstreamUnreachable host e),
                         [Dialed host, Handshake host (url_Hostname u), Closed host])
             | Inr _ \<Rightarrow> (Inr \<lparr>c_Addr = host, c_TLS = True, c_Buffered = 0\<rparr>,
                         [Dialed host, Handshake host (url_Hostname u)]))
          else (Inr \<lparr>c_Addr = host, c_TLS = False, c_Buffered = 0\<rparr>, [Dialed host]))"

text \<open>
  The \<open>Proxy-Authorization\<close> value of a profile: \<open>None\<close> for an unauthenticated one. \<open>connect\<close> and
  \<open>DialForward\<close> compute it by the same statements.
\<close>

definition profile_auth ::
    "dialer \<Rightarrow> upstream_proxy \<Rightarrow> (upstream_error, string option) result" where
  "profile_auth d profile =
     (case up_Credentials profile of
        None \<Rightarrow> Inr None
      | Some ref \<Rightarrow>
          (case d_creds d of
             None \<Rightarrow> Inl (CredentialsNotConfigured (up_Name profile))
           | Some creds \<Rightarrow>
               (case creds (Some ref) of
                  Inl e \<Rightarrow> Inl (CredentialsFailed (up_Name profile) e)
                | Inr (user, pass) \<Rightarrow> Inr (Some (basic_auth user pass)))))"

definition connect ::
    "dialer \<Rightarrow> network \<Rightarrow> conn \<Rightarrow> purl \<Rightarrow> upstream_proxy \<Rightarrow> target \<Rightarrow>
     (upstream_error, conn) result \<times> net_event list" where
  "connect d net c u profile t =
     (case profile_auth d profile of
        Inl e \<Rightarrow> (Inl e, [])
      | Inr auth \<Rightarrow>
          (let sent = [SentConnect (c_Addr c) (hostPort t) auth] in
           case net_write net (c_Addr c) of
             Inl e \<Rightarrow> (Inl (UpstreamUnreachable (url_Host u) e), sent)
           | Inr _ \<Rightarrow>
               (case net_response net (c_Addr c) of
                  Inl e \<Rightarrow> (Inl (UpstreamUnreachable (url_Host u) e), sent)
                | Inr (code, status, buffered) \<Rightarrow>
                    if code = 200 then (Inr (c\<lparr>c_Buffered := buffered\<rparr>), sent)
                    else if code = 407 then (Inl (UpstreamAuth (up_Name profile) (url_Host u)), sent)
                    else (Inl (UpstreamRefused (up_Name profile) status (hostPort t)), sent))))"

definition Dial ::
    "dialer \<Rightarrow> network \<Rightarrow> upstream_proxy option \<Rightarrow> target \<Rightarrow>
     (upstream_error, conn) result \<times> net_event list" where
  "Dial d net profile_opt t =
     (case profile_opt of
        None \<Rightarrow> (Inl NilProfile, [])
      | Some profile \<Rightarrow>
          if matchesNoProxy (up_NoProxy profile) (t_Host t) then dialDirect net t
          else (case d_url_parse d (up_URL profile) of
                  Inl e \<Rightarrow> (Inl (BadURL (up_Name profile) (up_URL profile) e), [])
                | Inr u \<Rightarrow>
                    (case dialProxy net u of
                       (Inl e, ev) \<Rightarrow> (Inl e, ev)
                     | (Inr c, ev) \<Rightarrow>
                         (case connect d net c u profile t of
                            (Inl e, ev2) \<Rightarrow> (Inl e, ev @ ev2 @ [Closed (c_Addr c)])
                          | (Inr c', ev2) \<Rightarrow> (Inr c', ev @ ev2)))))"

definition DialForward ::
    "dialer \<Rightarrow> network \<Rightarrow> upstream_proxy option \<Rightarrow>
     (upstream_error, conn \<times> string) result \<times> net_event list" where
  "DialForward d net profile_opt =
     (case profile_opt of
        None \<Rightarrow> (Inl NilProfile, [])
      | Some profile \<Rightarrow>
          (case d_url_parse d (up_URL profile) of
             Inl e \<Rightarrow> (Inl (BadURL (up_Name profile) (up_URL profile) e), [])
           | Inr u \<Rightarrow>
               (case profile_auth d profile of
                  Inl e \<Rightarrow> (Inl e, [])
                | Inr auth \<Rightarrow>
                    (case dialProxy net u of
                       (Inl e, ev) \<Rightarrow> (Inl e, ev)
                     | (Inr c, ev) \<Rightarrow> (Inr (c, case auth of None \<Rightarrow> [] | Some v \<Rightarrow> v), ev)))))"

section \<open>What is contacted\<close>

fun contacted :: "net_event \<Rightarrow> string" where
  "contacted (Dialed a) = a"
| "contacted (Handshake a _) = a"
| "contacted (SentConnect a _ _) = a"
| "contacted (Closed a) = a"

text \<open>How often an address is opened and not yet closed by a sequence of events.\<close>

definition closes :: "net_event list \<Rightarrow> string list" where
  "closes ev = concat (map (\<lambda>e. case e of Closed a \<Rightarrow> [a] | _ \<Rightarrow> []) ev)"

lemma closes_simps [simp]:
  "closes [] = []" "closes (Dialed a # ev) = closes ev" "closes (Handshake a b # ev) = closes ev"
  "closes (SentConnect a b c # ev) = closes ev" "closes (Closed a # ev) = a # closes ev"
  "closes (ev @ ev') = closes ev @ closes ev'"
  by (simp_all add: closes_def)

lemma direct_loop_contacts:
  "e \<in> set (snd (direct_loop net t msg as)) \<Longrightarrow>
     \<exists>a\<in>set as. e = Dialed (JoinHostPort (addr_String a) (Itoa (t_Port t)))"
  by (induction as arbitrary: msg) (auto simp: Let_def case_prod_beta split: sum.splits)

lemma direct_loop_conn:
  "fst (direct_loop net t msg as) = Inr c \<Longrightarrow>
     \<exists>a\<in>set as. c_Addr c = JoinHostPort (addr_String a) (Itoa (t_Port t))"
  by (induction as arbitrary: msg) (auto simp: Let_def case_prod_beta split: sum.splits)

lemma direct_loop_closes: "closes (snd (direct_loop net t msg as)) = []"
  by (induction as arbitrary: msg) (auto simp: Let_def case_prod_beta split: sum.splits)

lemma dialProxy_contacts: "e \<in> set (snd (dialProxy net u)) \<Longrightarrow> contacted e = proxy_address u"
  by (auto simp: dialProxy_def Let_def split: sum.splits if_splits)

lemma dialProxy_conn: "fst (dialProxy net u) = Inr c \<Longrightarrow> c_Addr c = proxy_address u"
  by (auto simp: dialProxy_def Let_def split: sum.splits if_splits)

lemma dialProxy_no_connect: "SentConnect a hp auth \<notin> set (snd (dialProxy net u))"
  by (auto simp: dialProxy_def Let_def split: sum.splits if_splits)

lemma dialProxy_closes:
  "fst (dialProxy net u) = Inr c \<Longrightarrow> closes (snd (dialProxy net u)) = []"
  by (auto simp: dialProxy_def Let_def split: sum.splits if_splits)

lemma connect_events:
  "e \<in> set (snd (connect d net c u profile t)) \<Longrightarrow>
     \<exists>auth. profile_auth d profile = Inr auth \<and> e = SentConnect (c_Addr c) (hostPort t) auth"
  by (auto simp: connect_def Let_def split: sum.splits prod.splits if_splits)

lemma connect_closes: "closes (snd (connect d net c u profile t)) = []"
  by (auto simp: connect_def Let_def split: sum.splits prod.splits if_splits)

lemma connect_conn: "fst (connect d net c u profile t) = Inr c' \<Longrightarrow>
    c_Addr c' = c_Addr c \<and> (\<exists>status n. net_response net (c_Addr c) = Inr (200, status, n))"
  by (auto simp: connect_def Let_def split: sum.splits prod.splits if_splits)

lemma Dial_direct:
  "matchesNoProxy (up_NoProxy profile) (t_Host t) \<Longrightarrow> Dial d net (Some profile) t = dialDirect net t"
  by (simp add: Dial_def)

lemma Dial_cases:
  assumes "\<not> matchesNoProxy (up_NoProxy profile) (t_Host t)"
  obtains (bad_url) e where "d_url_parse d (up_URL profile) = Inl e"
      "Dial d net (Some profile) t = (Inl (BadURL (up_Name profile) (up_URL profile) e), [])"
  | (no_proxy) u e ev where "d_url_parse d (up_URL profile) = Inr u" "dialProxy net u = (Inl e, ev)"
      "Dial d net (Some profile) t = (Inl e, ev)"
  | (refused) u c ev e ev2 where "d_url_parse d (up_URL profile) = Inr u" "dialProxy net u = (Inr c, ev)"
      "connect d net c u profile t = (Inl e, ev2)"
      "Dial d net (Some profile) t = (Inl e, ev @ ev2 @ [Closed (c_Addr c)])"
  | (tunnel_open) u c ev c' ev2 where "d_url_parse d (up_URL profile) = Inr u" "dialProxy net u = (Inr c, ev)"
      "connect d net c u profile t = (Inr c', ev2)"
      "Dial d net (Some profile) t = (Inr c', ev @ ev2)"
proof (cases "d_url_parse d (up_URL profile)")
  case (Inl e)
  with assms show ?thesis by (intro bad_url) (simp_all add: Dial_def)
next
  case u: (Inr u)
  obtain r ev where dp: "dialProxy net u = (r, ev)" by fastforce
  show ?thesis
  proof (cases r)
    case (Inl e)
    with assms u dp show ?thesis by (intro no_proxy) (simp_all add: Dial_def)
  next
    case c: (Inr c)
    obtain r2 ev2 where cn: "connect d net c u profile t = (r2, ev2)" by fastforce
    show ?thesis
    proof (cases r2)
      case (Inl e)
      with assms u dp c cn show ?thesis by (intro refused) (simp_all add: Dial_def)
    next
      case (Inr c')
      with assms u dp c cn show ?thesis by (intro tunnel_open) (simp_all add: Dial_def)
    qed
  qed
qed

section \<open>The contract of a credential source\<close>

locale credential_source =
  fixes creds :: "secret_ref option \<Rightarrow> (cred_error, string \<times> string) result"
    and stored :: "string \<Rightarrow> string \<Rightarrow> string \<Rightarrow> bool"
  assumes creds_stored: "creds (Some ref) = Inr (user, pass) \<Longrightarrow> stored (ref_Name ref) user pass"
    and creds_need_ref: "\<exists>e. creds None = Inl e"
begin

text \<open>Whatever the relay authenticates with is what the Secret named by the profile holds.\<close>

lemma profile_auth_stored:
  assumes "profile_auth (d\<lparr>d_creds := Some creds\<rparr>) profile = Inr (Some value)"
  shows "\<exists>ref user pass. up_Credentials profile = Some ref \<and> stored (ref_Name ref) user pass \<and>
    value = basic_auth user pass"
  using assms creds_stored
  by (fastforce simp: profile_auth_def split: option.splits sum.splits prod.splits)

lemma sent_credentials_stored:
  assumes "SentConnect a hp (Some value) \<in> set (snd (Dial (d\<lparr>d_creds := Some creds\<rparr>) net (Some profile) t))"
  shows "\<exists>ref user pass. up_Credentials profile = Some ref \<and> stored (ref_Name ref) user pass \<and>
    value = basic_auth user pass"
proof (cases "matchesNoProxy (up_NoProxy profile) (t_Host t)")
  case True
  with assms show ?thesis
    by (auto simp: Dial_direct dialDirect_def dest: direct_loop_contacts split: if_splits)
next
  case False
  let ?d = "d\<lparr>d_creds := Some creds\<rparr>"
  from False have "\<exists>c u. SentConnect a hp (Some value) \<in> set (snd (connect ?d net c u profile t))"
  proof (cases rule: Dial_cases [of profile t ?d net])
    case (no_proxy u e ev)
    with assms dialProxy_no_connect [of a hp "Some value" net u] show ?thesis by simp
  next
    case (refused u c ev e ev2)
    with assms dialProxy_no_connect [of a hp "Some value" net u] show ?thesis by (metis snd_conv Un_iff
      set_append net_event.distinct(11) list.set_intros(1) set_ConsD empty_iff list.set(1))
  next
    case (tunnel_open u c ev c' ev2)
    with assms dialProxy_no_connect [of a hp "Some value" net u] show ?thesis
      by (metis snd_conv Un_iff set_append)
  qed (use assms in auto)
  then obtain c u where "SentConnect a hp (Some value) \<in> set (snd (connect ?d net c u profile t))"
    by blast
  from connect_events [OF this] have "profile_auth ?d profile = Inr (Some value)" by auto
  then show ?thesis by (rule profile_auth_stored)
qed

end

text \<open>What the pinned namespace stores under a Secret name, after newline trimming.\<close>

definition pinned_secret :: "secret_reader \<Rightarrow> string \<Rightarrow> string \<Rightarrow> string \<Rightarrow> string \<Rightarrow> bool" where
  "pinned_secret reader own name user pass \<longleftrightarrow>
     (\<exists>data uk pk u p. reader (own, name) = Inr data \<and> data uk = Some u \<and> data pk = Some p \<and>
        user = trim_newlines u \<and> pass = trim_newlines p)"

lemma Credentials_pinned:
  "Credentials reader own (Some ref) = Inr (user, pass) \<Longrightarrow> pinned_secret reader own (ref_Name ref) user pass"
  by (auto simp: Credentials_def pinned_secret_def Let_def split: if_splits sum.splits option.splits)

interpretation pinned: credential_source "Credentials reader own" "pinned_secret reader own" for reader own
  by unfold_locales (rule Credentials_pinned, assumption, simp add: Credentials_def)

end
