(* ===== verification/Http_Msg.thy ===== *)
theory Http_Msg
  imports Netip
begin

text \<open>
  Messages of the data plane: headers, requests and responses as \<open>net/http\<close> hands them over,
  and the functions of \<open>internal/proxy\<close> that only read or rewrite them (\<open>response.go\<close>, the
  header and body helpers of \<open>inspect.go\<close>, \<open>splitTarget\<close> of \<open>server.go\<close>). The parsed URL keeps
  the values its methods return.
\<close>

section \<open>Headers\<close>

type_synonym header = "string \<rightharpoonup> string list"

definition token_byte :: "char \<Rightarrow> bool" where
  "token_byte c \<longleftrightarrow>
     (let n = of_char c :: nat in
      48 \<le> n \<and> n \<le> 57 \<or> 65 \<le> n \<and> n \<le> 90 \<or> 97 \<le> n \<and> n \<le> 122 \<or>
      c \<in> set [CHR ''!'', CHR ''#'', CHR ''$'', CHR ''%'', CHR ''&'', CHR 0x27, CHR ''*'', CHR ''+'',
              CHR ''-'', CHR ''.'', CHR ''^'', CHR ''_'', CHR 0x60, CHR ''|'', CHR ''~''])"

definition upper_char :: "char \<Rightarrow> char" where
  "upper_char c =
     (if (97::nat) \<le> of_char c \<and> of_char c \<le> (122::nat) then char_of (of_char c - 32 :: nat) else c)"

fun canon_loop :: "bool \<Rightarrow> string \<Rightarrow> string" where
  "canon_loop upper [] = []"
| "canon_loop upper (c # s) =
     (if upper then upper_char c else lower_char c) # canon_loop (c = CHR ''-'') s"

text \<open>\<open>CanonicalMIMEHeaderKey\<close>: a name with a byte that is not a token byte is left as it is.\<close>

definition canonical_key :: "string \<Rightarrow> string" where
  "canonical_key s = (if list_all token_byte s then canon_loop True s else s)"

definition header_get :: "header \<Rightarrow> string \<Rightarrow> string" where
  "header_get h name =
     (case h (canonical_key name) of None \<Rightarrow> [] | Some [] \<Rightarrow> [] | Some (v # vs) \<Rightarrow> v)"

definition header_set :: "string \<Rightarrow> string \<Rightarrow> header \<Rightarrow> header" where
  "header_set name v h = h(canonical_key name \<mapsto> [v])"

definition header_del :: "string \<Rightarrow> header \<Rightarrow> header" where
  "header_del name h = h(canonical_key name := None)"

section \<open>Messages\<close>

text \<open>
  A body as the sequence of results its reads give: a number of bytes, and the error that came
  with them, if one did.
\<close>

datatype read_error = EOF | ReadFailed string

type_synonym reads = "(nat \<times> read_error option) list"

record url =
  u_Scheme :: string
  u_Host :: string
  u_RequestURI :: string

record request =
  rq_Method :: string
  rq_Host :: string
  rq_URL :: "url option"
  rq_RequestURI :: string
  rq_Header :: header
  rq_Close :: bool
  rq_Body :: "reads option"

text \<open>
  \<open>rs_ContentLength\<close> is negative when the length is not known, \<open>rs_Chunked\<close> the transfer encoding, and
  \<open>rs_Uncompressed\<close> says that the transport has decompressed the body.
\<close>

record response =
  rs_StatusCode :: int
  rs_Status :: string
  rs_Header :: header
  rs_Close :: bool
  rs_Writable :: bool
  rs_ContentLength :: int
  rs_Chunked :: bool
  rs_Uncompressed :: bool

definition IsAbs :: "url \<Rightarrow> bool" where
  "IsAbs u \<longleftrightarrow> u_Scheme u \<noteq> []"

section \<open>Hop-by-hop headers\<close>

definition hopByHopHeaders :: "string list" where
  "hopByHopHeaders =
     [''Connection'', ''Keep-Alive'', ''Proxy-Authenticate'', ''Proxy-Authorization'',
      ''Proxy-Connection'', ''Te'', ''Trailer'', ''Transfer-Encoding'', ''Upgrade'']"

fun del_named :: "string list \<Rightarrow> header \<Rightarrow> header" where
  "del_named [] h = h"
| "del_named (name # names) h =
     (let n = TrimSpace name in del_named names (if n \<noteq> [] then header_del n h else h))"

fun del_all :: "string list \<Rightarrow> header \<Rightarrow> header" where
  "del_all [] h = h"
| "del_all (name # names) h = del_all names (header_del name h)"

definition stripHopByHop :: "header \<Rightarrow> header" where
  "stripHopByHop h = del_all hopByHopHeaders (del_named (Split (CHR '','') (header_get h ''Connection'')) h)"

definition isUpgrade :: "request \<Rightarrow> bool" where
  "isUpgrade req =
     (if header_get (rq_Header req) ''Upgrade'' = [] then False
      else list_ex (\<lambda>token. EqualFold (TrimSpace token) ''upgrade'')
             (Split (CHR '','') (header_get (rq_Header req) ''Connection'')))"

lemma del_all_iff:
  "del_all names h k = (if k \<in> canonical_key ` set names then None else h k)"
  by (induction names arbitrary: h) (auto simp: header_del_def)

lemma del_named_iff:
  "del_named names h k =
     (if \<exists>n\<in>set names. TrimSpace n \<noteq> [] \<and> k = canonical_key (TrimSpace n) then None else h k)"
  by (induction names arbitrary: h) (auto simp: header_del_def Let_def)

lemma hopByHop_canonical: "canonical_key ` set hopByHopHeaders = set hopByHopHeaders"
proof -
  have "map canonical_key hopByHopHeaders = hopByHopHeaders"
    by (simp add: hopByHopHeaders_def canonical_key_def token_byte_def lower_char_def upper_char_def)
  then show ?thesis by (metis list.set_map)
qed

text \<open>Which headers survive: neither hop-by-hop nor named by the first \<open>Connection\<close> line.\<close>

lemma stripHopByHop_iff:
  "stripHopByHop h k =
     (if k \<in> set hopByHopHeaders \<or>
         (\<exists>n\<in>set (Split (CHR '','') (header_get h ''Connection'')).
            TrimSpace n \<noteq> [] \<and> k = canonical_key (TrimSpace n))
      then None else h k)"
  by (auto simp: stripHopByHop_def del_all_iff del_named_iff hopByHop_canonical)

section \<open>Bodies\<close>

definition drainLimit :: nat where
  "drainLimit = 1048576"

text \<open>
  \<open>io.Copy\<close> from a reader limited to \<open>limit\<close> bytes: how many bytes came, and whether it ended
  without an error.
\<close>

fun copy_limited :: "nat \<Rightarrow> reads \<Rightarrow> nat \<times> bool" where
  "copy_limited limit [] = (0, True)"
| "copy_limited limit ((n, err) # rs) =
     (if limit = 0 then (0, True)
      else if limit < n then (limit, True)
      else (case err of
              None \<Rightarrow> (let (m, ok) = copy_limited (limit - n) rs in (n + m, ok))
            | Some EOF \<Rightarrow> (n, True)
            | Some (ReadFailed _) \<Rightarrow> (n, False)))"

definition drain :: "request \<Rightarrow> bool" where
  "drain req =
     (case rq_Body req of
        None \<Rightarrow> True
      | Some body \<Rightarrow>
          (let (n, ok) = copy_limited (Suc drainLimit) body in ok \<and> n \<le> drainLimit))"

text \<open>The whole of a body: its bytes, if it ends without an error.\<close>

fun body_size :: "reads \<Rightarrow> nat option" where
  "body_size [] = Some 0"
| "body_size ((n, err) # rs) =
     (case err of
        None \<Rightarrow> map_option (\<lambda>m. n + m) (body_size rs)
      | Some EOF \<Rightarrow> Some n
      | Some (ReadFailed _) \<Rightarrow> None)"

lemma copy_limited_le: "fst (copy_limited limit rs) \<le> limit"
  by (induction limit rs rule: copy_limited.induct)
    (auto simp: Let_def case_prod_beta split: option.splits read_error.splits)

lemma copy_limited_below:
  "copy_limited limit rs = (n, True) \<Longrightarrow> n < limit \<Longrightarrow> body_size rs = Some n"
proof (induction limit rs arbitrary: n rule: copy_limited.induct)
  case (2 limit m err rs)
  show ?case
  proof (cases err)
    case None
    with 2 obtain k where "copy_limited (limit - m) rs = (k, True)" "n = m + k" "m \<le> limit"
      by (cases "copy_limited (limit - m) rs") (auto split: if_splits)
    with 2 None show ?thesis by auto
  next
    case (Some e)
    with 2 show ?thesis by (cases e) (auto split: if_splits)
  qed
qed simp

lemma copy_limited_complete:
  "body_size rs = Some n \<Longrightarrow> n < limit \<Longrightarrow> copy_limited limit rs = (n, True)"
proof (induction limit rs arbitrary: n rule: copy_limited.induct)
  case (2 limit m err rs)
  show ?case
  proof (cases err)
    case None
    with 2 obtain k where "body_size rs = Some k" "n = m + k" by auto
    with 2 None show ?thesis by (cases "limit = m") auto
  next
    case (Some e)
    with 2 show ?thesis by (cases e) auto
  qed
qed simp

text \<open>The connection stays usable after a denial exactly when the whole body was consumed.\<close>

lemma drain_iff:
  "drain req \<longleftrightarrow>
     (case rq_Body req of None \<Rightarrow> True | Some body \<Rightarrow> \<exists>n\<le>drainLimit. body_size body = Some n)"
proof (cases "rq_Body req")
  case (Some body)
  obtain n ok where c: "copy_limited (Suc drainLimit) body = (n, ok)" by fastforce
  have "ok \<and> n \<le> drainLimit \<longleftrightarrow> (\<exists>n\<le>drainLimit. body_size body = Some n)"
    using copy_limited_below [of "Suc drainLimit" body n] c
      copy_limited_complete [of body _ "Suc drainLimit"] by (auto simp: less_Suc_eq_le)
  with Some c show ?thesis by (simp add: drain_def)
qed (simp add: drain_def)

section \<open>Responses of the relay\<close>

definition CRLF :: string where "CRLF = [CHR 0x0D, CHR 0x0A]"

definition replace_eol :: "char \<Rightarrow> char" where
  "replace_eol c = (if c = CHR 0x0D \<or> c = CHR 0x0A then CHR '' '' else c)"

definition sanitizeHeader :: "string \<Rightarrow> string" where
  "sanitizeHeader s = (let s = map replace_eol s in if 400 < length s then take 400 s else s)"

text \<open>\<open>http.StatusText\<close> on the statuses the relay sends.\<close>

definition StatusText :: "int \<Rightarrow> string" where
  "StatusText code =
     (if code = 400 then ''Bad Request'' else if code = 403 then ''Forbidden''
      else if code = 500 then ''Internal Server Error'' else if code = 502 then ''Bad Gateway''
      else if code = 503 then ''Service Unavailable'' else [])"

definition with_newline :: "string \<Rightarrow> string" where
  "with_newline body = (if suffix [CHR 0x0A] body then body else body @ [CHR 0x0A])"

definition writeStatus :: "int \<Rightarrow> string \<Rightarrow> string" where
  "writeStatus status why =
     (let body = with_newline (if why = [] then StatusText status else why) in
      ''HTTP/1.1 '' @ Itoa status @ '' '' @ StatusText status @ CRLF @
      ''Content-Type: text/plain; charset=utf-8'' @ CRLF @
      ''Content-Length: '' @ Itoa (int (length body)) @ CRLF @
      ''X-Relay-Reason: '' @ sanitizeHeader why @ CRLF @
      ''Connection: close'' @ CRLF @ CRLF @ body)"

definition writeDeniedRequest :: "int \<Rightarrow> string \<Rightarrow> string" where
  "writeDeniedRequest status why =
     (let body = with_newline why in
      ''HTTP/1.1 '' @ Itoa status @ '' '' @ StatusText status @ CRLF @
      ''Content-Type: text/plain; charset=utf-8'' @ CRLF @
      ''Content-Length: '' @ Itoa (int (length body)) @ CRLF @
      ''X-Relay-Reason: '' @ sanitizeHeader why @ CRLF @ CRLF @ body)"

lemma sanitizeHeader_clean: "set (sanitizeHeader s) \<inter> {CHR 0x0D, CHR 0x0A} = {}"
  by (auto simp: sanitizeHeader_def Let_def replace_eol_def split: if_splits dest!: in_set_takeD)

lemma sanitizeHeader_length: "length (sanitizeHeader s) \<le> 400"
  by (simp add: sanitizeHeader_def Let_def)

section \<open>Framing\<close>

text \<open>
  How a client reads a response: the lines of the head up to the first empty line, and as many
  bytes of body as \<open>Content-Length\<close> says. Lines end in CR LF.
\<close>

fun read_line :: "string \<Rightarrow> (string \<times> string) option" where
  "read_line [] = None"
| "read_line [c] = None"
| "read_line (c # d # s) =
     (if c = CHR 0x0D \<and> d = CHR 0x0A then Some ([], s)
      else map_option (\<lambda>(l, rest). (c # l, rest)) (read_line (d # s)))"

fun read_head :: "nat \<Rightarrow> string \<Rightarrow> (string list \<times> string) option" where
  "read_head 0 s = None"
| "read_head (Suc fuel) s =
     (case read_line s of
        None \<Rightarrow> None
      | Some (l, rest) \<Rightarrow>
          if l = [] then Some ([], rest)
          else map_option (\<lambda>(ls, body). (l # ls, body)) (read_head fuel rest))"

definition eol_free :: "string \<Rightarrow> bool" where
  "eol_free s \<longleftrightarrow> CHR 0x0D \<notin> set s \<and> CHR 0x0A \<notin> set s"

lemma eol_free_append [simp]: "eol_free (s @ t) \<longleftrightarrow> eol_free s \<and> eol_free t"
  by (auto simp: eol_free_def)

lemma read_line_CRLF: "eol_free l \<Longrightarrow> read_line (l @ CRLF @ rest) = Some (l, rest)"
proof (induction l)
  case (Cons c l)
  then have "read_line (l @ CRLF @ rest) = Some (l, rest)" "c \<noteq> CHR 0x0D"
    by (auto simp: eol_free_def)
  then show ?case by (cases "l @ CRLF @ rest") (auto simp: CRLF_def)
qed (simp add: CRLF_def)

definition lines_text :: "string list \<Rightarrow> string" where
  "lines_text ls = concat (map (\<lambda>l. l @ CRLF) ls)"

lemma read_head_lines:
  assumes "\<forall>l\<in>set ls. eol_free l \<and> l \<noteq> []" "length ls < fuel"
  shows "read_head fuel (lines_text ls @ CRLF @ body) = Some (ls, body)"
  using assms
proof (induction ls arbitrary: fuel)
  case Nil
  then show ?case
    using read_line_CRLF [of "[]" body] by (cases fuel) (simp_all add: lines_text_def eol_free_def)
next
  case (Cons l ls)
  then obtain f where f: "fuel = Suc f" by (cases fuel) auto
  have "read_line (lines_text (l # ls) @ CRLF @ body) = Some (l, lines_text ls @ CRLF @ body)"
    using Cons.prems(1) read_line_CRLF [of l "lines_text ls @ CRLF @ body"]
    by (simp add: lines_text_def)
  with Cons f show ?case by simp
qed

lemma Itoa_eol_free: "eol_free (Itoa (int n))"
  using in_base_10_digits [of n] by (auto simp: eol_free_def Itoa_def list_all_iff is_digit_def)

lemma StatusText_eol_free: "eol_free (StatusText code)"
  by (simp add: StatusText_def eol_free_def)

lemma sanitizeHeader_eol_free: "eol_free (sanitizeHeader s)"
  using sanitizeHeader_clean [of s] by (auto simp: eol_free_def)

text \<open>
  What the relay answers is one well-framed response, whatever the reason contains: the head has
  the lines of the code and no other, and the body is as long as announced.
\<close>

definition status_lines :: "int \<Rightarrow> nat \<Rightarrow> string \<Rightarrow> string list" where
  "status_lines status len why =
     [''HTTP/1.1 '' @ Itoa status @ '' '' @ StatusText status,
      ''Content-Type: text/plain; charset=utf-8'',
      ''Content-Length: '' @ Itoa (int len),
      ''X-Relay-Reason: '' @ sanitizeHeader why]"

lemma status_lines_clean: "0 \<le> status \<Longrightarrow> \<forall>l\<in>set (status_lines status len why). eol_free l \<and> l \<noteq> []"
  using Itoa_eol_free [of "nat status"] Itoa_eol_free [of len] StatusText_eol_free
    sanitizeHeader_eol_free
  by (simp add: status_lines_def) (simp add: eol_free_def)

lemma writeStatus_framed:
  assumes "0 \<le> status"
  shows "\<exists>body. read_head 6 (writeStatus status why) =
    Some (status_lines status (length body) why @ [''Connection: close''], body)"
proof -
  define body where "body = with_newline (if why = [] then StatusText status else why)"
  let ?ls = "status_lines status (length body) why @ [''Connection: close'']"
  have "writeStatus status why = lines_text ?ls @ CRLF @ body"
    by (simp add: writeStatus_def body_def status_lines_def lines_text_def Let_def)
  moreover have "\<forall>l\<in>set ?ls. eol_free l \<and> l \<noteq> []" "length ?ls < 6"
    using status_lines_clean [OF assms] by (auto simp: eol_free_def) (simp add: status_lines_def)
  ultimately show ?thesis using read_head_lines [of ?ls 6 body] by auto
qed

lemma writeDeniedRequest_framed:
  assumes "0 \<le> status"
  shows "\<exists>body. read_head 6 (writeDeniedRequest status why) =
    Some (status_lines status (length body) why, body)"
proof -
  define body where "body = with_newline why"
  let ?ls = "status_lines status (length body) why"
  have "writeDeniedRequest status why = lines_text ?ls @ CRLF @ body"
    by (simp add: writeDeniedRequest_def body_def status_lines_def lines_text_def Let_def)
  moreover have "length ?ls < 6" by (simp add: status_lines_def)
  ultimately show ?thesis
    using read_head_lines [OF status_lines_clean [OF assms], of "length body" why 6 body] by auto
qed

section \<open>The target of a request\<close>

definition MethodConnect :: string where "MethodConnect = ''CONNECT''"

definition raw_target :: "request \<Rightarrow> string" where
  "raw_target req =
     (case rq_URL req of
        Some u \<Rightarrow> if rq_Method req \<noteq> MethodConnect \<and> u_Host u \<noteq> [] then u_Host u else rq_Host req
      | None \<Rightarrow> rq_Host req)"

definition splitTarget :: "request \<Rightarrow> string \<times> int" where
  "splitTarget req =
     (let raw = raw_target req in
      if raw = [] then ([], 0)
      else (case SplitHostPort raw of
              None \<Rightarrow>
                if rq_Method req = MethodConnect then (TrimSuffix raw '':'', 0)
                else if (case rq_URL req of Some u \<Rightarrow> u_Scheme u = ''https'' | None \<Rightarrow> False)
                  then (raw, 443)
                else (raw, 80)
            | Some (host, portStr) \<Rightarrow>
                (case Atoi portStr of
                   None \<Rightarrow> (host, 0)
                 | Some port \<Rightarrow> if port \<le> 0 \<or> 65535 < port then (host, 0) else (host, port))))"

lemma splitTarget_port: "0 \<le> snd (splitTarget req) \<and> snd (splitTarget req) \<le> 65535"
  by (auto simp: splitTarget_def Let_def split: option.splits)

lemma splitTarget_connect:
  assumes "rq_Method req = MethodConnect" "rq_Host req = JoinHostPort host (Itoa port)"
    and "set host \<inter> {CHR ''['', CHR '']''} = {}" "0 < port" "port \<le> 65535"
  shows "splitTarget req = (host, port)"
proof -
  have "list_all is_digit (Itoa port)" using assms(4) in_base_10_digits [of "nat port"]
    by (simp add: Itoa_def)
  then have "set (Itoa port) \<inter> {CHR '':'', CHR ''['', CHR '']''} = {}"
    by (auto simp: list_all_iff is_digit_def)
  from SplitHostPort_JoinHostPort [OF assms(3) this] assms(1,2,4,5) show ?thesis
    by (auto simp: splitTarget_def raw_target_def Let_def Atoi_Itoa JoinHostPort_def
        split: option.splits)
qed

text \<open>\<open>remoteIP\<close>: \<open>None\<close> stands for a nil connection or a nil remote address.\<close>

definition remoteIP :: "string option \<Rightarrow> string" where
  "remoteIP remote =
     (case remote of
        None \<Rightarrow> []
      | Some a \<Rightarrow> (case SplitHostPort a of None \<Rightarrow> a | Some (host, _) \<Rightarrow> host))"

end
