(* ===== verification/Tunnel.thy ===== *)
theory Tunnel
  imports Http_Msg
begin

text \<open>
  \<open>internal/proxy/tunnel.go\<close>: copying one direction of a tunnel, and \<open>splice\<close> as the machine of
  its goroutines (two copiers, the idle timer and the caller that waits).
\<close>

section \<open>One direction\<close>

text \<open>
  \<open>copyWithActivity\<close> on what the reads of the source and the writes to the destination give.
  The result is the byte count and the error, \<open>None\<close> while the loop still waits for a read or a
  write; the second component counts the calls of \<open>touch\<close>.
\<close>

fun copy_loop ::
    "nat \<Rightarrow> nat \<Rightarrow> reads \<Rightarrow> (nat \<times> string option) list \<Rightarrow> (nat \<times> string option) option \<times> nat" where
  "copy_loop sofar touches [] ws = (None, touches)"
| "copy_loop sofar touches ((n, err) # rs) ws =
     (if 0 < n then
        (case ws of
           [] \<Rightarrow> (None, Suc touches)
         | (written, werr) # ws' \<Rightarrow>
             (case werr of
                Some e \<Rightarrow> (Some (sofar + written, Some e), Suc touches)
              | None \<Rightarrow>
                  (case err of
                     None \<Rightarrow> copy_loop (sofar + written) (Suc touches) rs ws'
                   | Some EOF \<Rightarrow> (Some (sofar + written, None), Suc touches)
                   | Some (ReadFailed e) \<Rightarrow> (Some (sofar + written, Some e), Suc touches))))
      else (case err of
              None \<Rightarrow> copy_loop sofar touches rs ws
            | Some EOF \<Rightarrow> (Some (sofar, None), touches)
            | Some (ReadFailed e) \<Rightarrow> (Some (sofar, Some e), touches)))"

definition copyWithActivity ::
    "reads \<Rightarrow> (nat \<times> string option) list \<Rightarrow> (nat \<times> string option) option \<times> nat" where
  "copyWithActivity rs ws = copy_loop 0 0 rs ws"

text \<open>
  A writer of the \<open>io.Writer\<close> contract: it writes all it is given unless it returns an error.
  Given the sizes it is handed, its results are these.
\<close>

fun honest_writes :: "reads \<Rightarrow> (nat \<times> string option) list \<Rightarrow> bool" where
  "honest_writes [] ws = True"
| "honest_writes ((n, err) # rs) ws =
     (if 0 < n then
        (case ws of [] \<Rightarrow> True | (written, werr) # ws' \<Rightarrow>
           written \<le> n \<and> (werr = None \<longrightarrow> written = n) \<and> honest_writes rs ws')
      else honest_writes rs ws)"

lemma copy_loop_clean_end:
  "honest_writes rs ws \<Longrightarrow> fst (copy_loop sofar touches rs ws) = Some (t, None) \<Longrightarrow>
     (\<exists>m. body_size rs = Some m \<and> t = sofar + m)"
proof (induction rs arbitrary: sofar touches ws)
  case (Cons r rs)
  obtain n err where r: "r = (n, err)" by fastforce
  show ?case
  proof (cases "0 < n")
    case True
    with Cons.prems r obtain written werr ws' where ws: "ws = (written, werr) # ws'"
      by (cases ws) auto
    from True Cons.prems ws r have w: "werr = None" "written = n" by (auto split: option.splits)
    show ?thesis
    proof (cases err)
      case None
      with Cons.prems r ws w True have "honest_writes rs ws'"
        "fst (copy_loop (sofar + n) (Suc touches) rs ws') = Some (t, None)" by simp_all
      from Cons.IH [OF this] obtain m where "body_size rs = Some m" "t = sofar + n + m" by blast
      with r None show ?thesis by simp
    next
      case (Some e)
      with Cons.prems r ws w True show ?thesis by (cases e) auto
    qed
  next
    case False
    show ?thesis
    proof (cases err)
      case None
      with Cons.prems r False have "honest_writes rs ws"
        "fst (copy_loop sofar touches rs ws) = Some (t, None)" by simp_all
      from Cons.IH [OF this] show ?thesis using r None False by auto
    next
      case (Some e)
      with Cons.prems r False show ?thesis by (cases e) auto
    qed
  qed
qed simp

text \<open>A copy that ends without an error moved the whole of the source.\<close>

lemma copyWithActivity_whole:
  "honest_writes rs ws \<Longrightarrow> fst (copyWithActivity rs ws) = Some (t, None) \<Longrightarrow> body_size rs = Some t"
  unfolding copyWithActivity_def using copy_loop_clean_end by fastforce

text \<open>A copy returns once the source ends and the writes return.\<close>

lemma copy_loop_returns:
  "\<exists>r\<in>set rs. snd r \<noteq> None \<Longrightarrow> length rs \<le> length ws \<Longrightarrow> fst (copy_loop sofar touches rs ws) \<noteq> None"
proof (induction rs arbitrary: sofar touches ws)
  case (Cons r rs)
  obtain n err w werr ws' where rw: "r = (n, err)" "ws = (w, werr) # ws'"
    using Cons.prems(2) by (cases r; cases ws) auto
  show ?case
  proof (cases err)
    case None
    with Cons.prems rw have "\<exists>r\<in>set rs. snd r \<noteq> None" by auto
    with rw None Cons.prems(2) Cons.IH [of ws' "sofar + w" "Suc touches"] Cons.IH [of ws sofar touches]
    show ?thesis by (auto split: option.splits)
  next
    case (Some e)
    with rw show ?thesis by (cases e) (auto split: option.splits)
  qed
qed simp

section \<open>Both directions\<close>

record splice_sys =
  sp_now :: int
  sp_up_running :: bool
  sp_down_running :: bool
  sp_up :: nat
  sp_down :: nat
  sp_closed :: bool
  sp_closes :: nat
  sp_timer :: bool
  sp_activity :: nat
  sp_reset_at :: int
  sp_result :: "(nat \<times> nat) option"

text \<open>\<open>closeBoth\<close>: guarded by \<open>sync.Once\<close>, so its body runs once.\<close>

definition closeBoth :: "splice_sys \<Rightarrow> splice_sys" where
  "closeBoth s = (if sp_closed s then s else s\<lparr>sp_closed := True, sp_closes := Suc (sp_closes s)\<rparr>)"

text \<open>\<open>touch\<close>: a send to a channel of two places that never blocks.\<close>

definition touch :: "splice_sys \<Rightarrow> splice_sys" where
  "touch s = (if sp_activity s < 2 then s\<lparr>sp_activity := Suc (sp_activity s)\<rparr> else s)"

inductive splice_step :: "int \<Rightarrow> splice_sys \<Rightarrow> splice_sys \<Rightarrow> bool" for idle where
  tick: "sp_now s \<le> t \<Longrightarrow> splice_step idle s (s\<lparr>sp_now := t\<rparr>)"
| moved: "sp_up_running s \<or> sp_down_running s \<Longrightarrow> splice_step idle s (touch s)"
| up_done: "sp_up_running s \<Longrightarrow>
    splice_step idle s (closeBoth (s\<lparr>sp_up_running := False, sp_up := sp_up s + n\<rparr>))"
| down_done: "sp_down_running s \<Longrightarrow>
    splice_step idle s (closeBoth (s\<lparr>sp_down_running := False, sp_down := sp_down s + n\<rparr>))"
| timer_done: "sp_timer s \<Longrightarrow> sp_closed s \<Longrightarrow> splice_step idle s (s\<lparr>sp_timer := False\<rparr>)"
| timer_reset: "sp_timer s \<Longrightarrow> 0 < sp_activity s \<Longrightarrow>
    splice_step idle s (s\<lparr>sp_activity := sp_activity s - 1, sp_reset_at := sp_now s\<rparr>)"
| timer_fired: "sp_timer s \<Longrightarrow> sp_reset_at s + idle \<le> sp_now s \<Longrightarrow>
    splice_step idle s (closeBoth (s\<lparr>sp_timer := False\<rparr>))"
| returned: "\<not> sp_up_running s \<Longrightarrow> \<not> sp_down_running s \<Longrightarrow> sp_result s = None \<Longrightarrow>
    splice_step idle s (closeBoth (s\<lparr>sp_result := Some (sp_up s, sp_down s)\<rparr>))"

inductive_cases splice_stepE: "splice_step idle s t"

definition splice_start :: "int \<Rightarrow> splice_sys \<Rightarrow> bool" where
  "splice_start idle s \<longleftrightarrow>
     sp_up_running s \<and> sp_down_running s \<and> sp_up s = 0 \<and> sp_down s = 0 \<and> \<not> sp_closed s \<and>
     sp_closes s = 0 \<and> (sp_timer s \<longleftrightarrow> 0 < idle) \<and> sp_activity s = 0 \<and>
     sp_reset_at s = sp_now s \<and> sp_result s = None"

definition splice_inv :: "splice_sys \<Rightarrow> bool" where
  "splice_inv s \<longleftrightarrow>
     sp_closes s = (if sp_closed s then 1 else 0) \<and>
     (\<not> (sp_up_running s \<and> sp_down_running s) \<longrightarrow> sp_closed s) \<and>
     sp_activity s \<le> 2 \<and> sp_reset_at s \<le> sp_now s \<and>
     (\<forall>r. sp_result s = Some r \<longrightarrow>
        \<not> sp_up_running s \<and> \<not> sp_down_running s \<and> sp_closed s \<and> r = (sp_up s, sp_down s))"

lemma splice_inv_step: "splice_inv s \<Longrightarrow> splice_step idle s t \<Longrightarrow> splice_inv t"
  by (erule splice_stepE) (auto simp: splice_inv_def closeBoth_def touch_def)

interpretation splice: machine_invariant "splice_start idle" "splice_step idle" splice_inv for idle
proof unfold_locales
  show "splice_start idle s \<Longrightarrow> splice_inv s" for s by (simp add: splice_start_def splice_inv_def)
qed (rule splice_inv_step)

text \<open>A silent tunnel is reaped: once the idle time has passed the timer can close both ends.\<close>

lemma idle_reaped:
  assumes "splice_inv s" "sp_timer s" "sp_reset_at s + idle \<le> sp_now s"
  shows "\<exists>t. splice_step idle s t \<and> sp_closed t \<and> sp_closes t = 1"
proof -
  have "splice_step idle s (closeBoth (s\<lparr>sp_timer := False\<rparr>))"
    using assms by (intro splice_step.timer_fired)
  moreover have "sp_closed (closeBoth (s\<lparr>sp_timer := False\<rparr>))"
    "sp_closes (closeBoth (s\<lparr>sp_timer := False\<rparr>)) = 1"
    using assms(1) by (auto simp: closeBoth_def splice_inv_def)
  ultimately show ?thesis by blast
qed

text \<open>
  Closing both ends makes both copies fail; once they have returned the caller can. So from a
  closed state at most three steps lead to the result.
\<close>

lemma closed_returns:
  assumes "splice_inv s" "sp_closed s" "sp_result s = None"
  shows "\<exists>t r. (splice_step idle)\<^sup>*\<^sup>* s t \<and> sp_result t = Some r"
proof -
  define s1 where "s1 = (if sp_up_running s then closeBoth (s\<lparr>sp_up_running := False, sp_up := sp_up s + 0\<rparr>) else s)"
  define s2 where "s2 = (if sp_down_running s1 then closeBoth (s1\<lparr>sp_down_running := False, sp_down := sp_down s1 + 0\<rparr>) else s1)"
  have 1: "(splice_step idle)\<^sup>*\<^sup>* s s1"
    using splice_step.up_done [of s idle 0] by (auto simp: s1_def)
  have 2: "(splice_step idle)\<^sup>*\<^sup>* s1 s2"
    using splice_step.down_done [of s1 idle 0] by (auto simp: s2_def)
  have st: "\<not> sp_up_running s2" "\<not> sp_down_running s2" "sp_result s2 = None"
    using assms by (auto simp: s1_def s2_def closeBoth_def)
  let ?t = "closeBoth (s2\<lparr>sp_result := Some (sp_up s2, sp_down s2)\<rparr>)"
  have "splice_step idle s2 ?t" using st by (rule splice_step.returned)
  with 1 2 have "(splice_step idle)\<^sup>*\<^sup>* s ?t" by auto
  moreover have "sp_result ?t = Some (sp_up s2, sp_down s2)" by (simp add: closeBoth_def)
  ultimately show ?thesis by blast
qed

end
