(* ===== verification/Audit_Log.thy ===== *)
theory Audit_Log
  imports Go_Strings
begin

text \<open>
  \<open>internal/audit\<close>: the record of a relayed request and what \<open>Logger.Log\<close> writes for it. The
  reason is a parameter type, rendered to text by the argument of \<open>Log\<close>, because the callers
  format it from values of their own; log attributes keep the kind of \<open>slog\<close> value they are.
\<close>

datatype decision =
    DecisionAllow
  | DecisionDenyPolicy
  | DecisionDenyIdentity
  | DecisionDenyGuard
  | DecisionDenyMalformed
  | DecisionErrorUpstream
  | DecisionErrorInternal

fun decision_text :: "decision \<Rightarrow> string" where
  "decision_text DecisionAllow = ''allow''"
| "decision_text DecisionDenyPolicy = ''deny_policy''"
| "decision_text DecisionDenyIdentity = ''deny_identity''"
| "decision_text DecisionDenyGuard = ''deny_guard''"
| "decision_text DecisionDenyMalformed = ''deny_malformed''"
| "decision_text DecisionErrorUpstream = ''error_upstream''"
| "decision_text DecisionErrorInternal = ''error_internal''"

record 'r audit_record =
  ar_SourceIP :: string
  ar_Namespace :: string
  ar_Pod :: string
  ar_ServiceAccount :: string
  ar_Method :: string
  ar_Scheme :: string
  ar_Host :: string
  ar_Port :: int
  ar_Path :: string
  ar_TLSMode :: string
  ar_Policy :: string
  ar_Rule :: string
  ar_Upstream :: string
  ar_Decision :: decision
  ar_Reason :: 'r
  ar_BytesUp :: int
  ar_BytesDown :: int
  ar_Duration :: int
  ar_UpstreamStatus :: string

datatype attr_value = StringValue string | IntValue int

datatype level = Info | Warn

definition optional_attr :: "string \<Rightarrow> string \<Rightarrow> (string \<times> attr_value) list" where
  "optional_attr name v = (if v \<noteq> [] then [(name, StringValue v)] else [])"

definition log_attrs :: "('r \<Rightarrow> string) \<Rightarrow> 'r audit_record \<Rightarrow> (string \<times> attr_value) list" where
  "log_attrs reason_text r =
     [(''decision'', StringValue (decision_text (ar_Decision r))),
      (''src_ip'', StringValue (ar_SourceIP r)),
      (''namespace'', StringValue (ar_Namespace r)),
      (''pod'', StringValue (ar_Pod r)),
      (''service_account'', StringValue (ar_ServiceAccount r)),
      (''method'', StringValue (ar_Method r)),
      (''host'', StringValue (ar_Host r)),
      (''port'', IntValue (ar_Port r)),
      (''tls_mode'', StringValue (ar_TLSMode r)),
      (''bytes_up'', IntValue (ar_BytesUp r)),
      (''bytes_down'', IntValue (ar_BytesDown r)),
      (''duration_ms'', IntValue (ar_Duration r div 1000000))] @
     optional_attr ''scheme'' (ar_Scheme r) @
     optional_attr ''path'' (ar_Path r) @
     optional_attr ''policy'' (ar_Policy r) @
     optional_attr ''rule'' (ar_Rule r) @
     optional_attr ''upstream'' (ar_Upstream r) @
     optional_attr ''upstream_status'' (ar_UpstreamStatus r) @
     optional_attr ''reason'' (reason_text (ar_Reason r))"

definition Log :: "('r \<Rightarrow> string) \<Rightarrow> 'r audit_record \<Rightarrow> level \<times> string \<times> (string \<times> attr_value) list" where
  "Log reason_text r =
     ((if ar_Decision r = DecisionAllow then Info else Warn), ''egress'', log_attrs reason_text r)"

lemma Log_level: "fst (Log txt r) = Info \<longleftrightarrow> ar_Decision r = DecisionAllow"
  by (simp add: Log_def)

lemma map_of_optional_attr:
  "map_of (optional_attr name v @ rest) k =
     (if v \<noteq> [] \<and> k = name then Some (StringValue v) else map_of rest k)"
  by (simp add: optional_attr_def)

text \<open>A record without a path is logged without one, and with it otherwise.\<close>

lemma log_path: "map_of (log_attrs txt r) ''path'' = (if ar_Path r = [] then None else Some (StringValue (ar_Path r)))"
  by (simp add: log_attrs_def map_of_optional_attr) (simp add: optional_attr_def)

lemma decision_text_inj: "decision_text d = decision_text d' \<longleftrightarrow> d = d'"
  by (cases d; cases d') auto

end
