(* ===== verification/Proxy.thy ===== *)
theory Proxy
  imports Engine Guard Identity Upstream Tunnel Audit_Log
begin

text \<open>
  \<open>internal/proxy\<close>: the data plane. A handler is a function from what its calls return (a
  \<open>world\<close>: the lister, the resolver, the network, the outcome of writes and reads) to the
  sequence of what it does: replies, audit records, metrics and network actions. The text of a
  reply is kept as the values it is formatted from.
\<close>

section \<open>What a handler does\<close>

datatype proxy_error =
    EngineFailed engine_error
  | GuardFailed guard_error
  | UpstreamFailed upstream_error
  | IoFailed string
  | NoIssuer
  | BadOrigin string
  | BadOriginPort string
  | OriginHandshake string string
  | BadTarget string
  | NotSplittable

datatype why =
    NoReason
  | Because reason
  | Failed proxy_error
  | LoadingPolicy
  | IdentityFailed identity_error
  | CannotIdentify string identity_error
  | NotHostPort string
  | ConnectNeedsHostPort
  | DeniedConnect string int string string "reason option"
  | DeniedRequest string string string string reason
  | RefusedDestination proxy_error
  | CredentialsRejected string
  | ProxyRefused proxy_error
  | ProxyUnreachable proxy_error
  | EvaluationFailed
  | ForwardProxyOnly
  | NoUsableHost
  | UpstreamRequestFailed proxy_error
  | ClientHandshake string
  | MalformedRequestTarget

datatype metric =
    Requests string decision string
  | UpstreamErrors string string
  | ActiveInc string
  | ActiveDec string
  | IdentityFailures string
  | BytesRelayed string string nat

record origin_config =
  oc_ServerName :: string
  oc_NextProtos :: "string list"
  oc_MinVersion :: int
  oc_InsecureSkipVerify :: bool

datatype event =
    Reply int why
  | Deny int why
  | Established
  | Audited "why audit_record"
  | Counted metric
  | Logged why
  | Net net_event
  | OriginTLS string origin_config
  | Forwarded string string string header
  | Relayed response header
  | Spliced
  | ClientClosed

record 'ls world =
  w_as_selector :: "'ls as_selector"
  w_listed :: "(string, 'ls egress_policy list) result"
  w_upstream :: "string \<Rightarrow> (string, upstream_proxy option) result"
  w_lookup :: "string \<Rightarrow> (string, addr list) result"
  w_net :: network
  w_elapsed :: int
  w_client_ok :: bool
  w_spliced :: "nat \<times> nat"
  w_handshake :: "(string, unit) result"
  w_write_proxy :: "(string, unit) result"
  w_response :: "(string, response) result"
  w_written :: "nat \<times> string option"
  w_counted :: "nat \<times> nat"
  w_parse_uri :: "string \<Rightarrow> (string, unit) result"
  w_origin_tls :: "(string, unit) result"
  w_reuse :: bool
  w_pooled :: bool

record server =
  sv_Guard :: "guard option"
  sv_Dialer :: dialer
  sv_HasIssuer :: bool
  sv_OriginTLS :: "origin_config option"

section \<open>Audit records\<close>

definition record_of :: "'ls world \<Rightarrow> string \<Rightarrow> string \<Rightarrow> int \<Rightarrow> decision \<Rightarrow> why \<Rightarrow> why audit_record" where
  "record_of w meth host port d r =
     \<lparr>ar_SourceIP = [], ar_Namespace = [], ar_Pod = [], ar_ServiceAccount = [], ar_Method = meth,
      ar_Scheme = [], ar_Host = host, ar_Port = port, ar_Path = [], ar_TLSMode = [], ar_Policy = [],
      ar_Rule = [], ar_Upstream = [], ar_Decision = d, ar_Reason = r, ar_BytesUp = 0,
      ar_BytesDown = 0, ar_Duration = w_elapsed w, ar_UpstreamStatus = []\<rparr>"

text \<open>\<open>Server.audit\<close>: the identity and, failing that, the peer address.\<close>

definition audit :: "identity \<Rightarrow> string option \<Rightarrow> why audit_record \<Rightarrow> event" where
  "audit wid remote rec =
     (let rec = rec\<lparr>ar_Namespace := id_Namespace wid, ar_Pod := id_Pod wid,
                   ar_ServiceAccount := id_ServiceAccount wid,
                   ar_SourceIP := addr_String (id_SourceIP wid)\<rparr>;
          rec = (if ar_SourceIP rec = [] then rec\<lparr>ar_SourceIP := remoteIP remote\<rparr> else rec) in
      Audited rec)"

definition why_of :: "reason option \<Rightarrow> why" where
  "why_of r = (case r of None \<Rightarrow> NoReason | Some x \<Rightarrow> Because x)"

definition firstPolicy :: "connect_decision \<Rightarrow> string" where
  "firstPolicy dec = (case cd_Matched dec of [] \<Rightarrow> [] | m # ms \<Rightarrow> md_Policy m)"

section \<open>Failures\<close>

definition dialFailure ::
    "'ls world \<Rightarrow> string option \<Rightarrow> identity \<Rightarrow> string \<Rightarrow> connect_decision \<Rightarrow> proxy_error \<Rightarrow> event list" where
  "dialFailure w remote wid meth dec err =
     (let rec = (record_of w meth (cd_Host dec) (cd_Port dec) DecisionErrorInternal (Failed err))
            \<lparr>ar_TLSMode := cd_TLSMode dec, ar_Policy := firstPolicy dec, ar_Upstream := cd_Upstream dec\<rparr>;
          upstream_failure = (\<lambda>kind. [audit wid remote (rec\<lparr>ar_Decision := DecisionErrorUpstream\<rparr>),
             Counted (UpstreamErrors (cd_Upstream dec) kind)]) in
      case err of
        GuardFailed _ \<Rightarrow>
          [audit wid remote (rec\<lparr>ar_Decision := DecisionDenyGuard\<rparr>),
           Counted (Requests (id_Namespace wid) DecisionDenyGuard (cd_TLSMode dec)),
           Reply 403 (RefusedDestination err)]
      | UpstreamFailed (UpstreamAuth _ _) \<Rightarrow>
          [audit wid remote (rec\<lparr>ar_Decision := DecisionErrorUpstream, ar_UpstreamStatus := ''407''\<rparr>),
           Counted (UpstreamErrors (cd_Upstream dec) ''auth''),
           Reply 502 (CredentialsRejected (cd_Upstream dec))]
      | UpstreamFailed (UpstreamRefused _ _ _) \<Rightarrow>
          upstream_failure ''refused'' @ [Reply 502 (ProxyRefused err)]
      | UpstreamFailed (UpstreamUnreachable _ _) \<Rightarrow>
          upstream_failure ''unreachable'' @ [Reply 502 (ProxyUnreachable err)]
      | EngineFailed (NoUpstream _ _) \<Rightarrow>
          [audit wid remote rec, Counted (UpstreamErrors (cd_Upstream dec) ''missing_profile''),
           Reply 502 (Failed err)]
      | _ \<Rightarrow> [audit wid remote rec, Reply 502 (Failed err)])"

definition internalError ::
    "'ls world \<Rightarrow> string option \<Rightarrow> identity \<Rightarrow> string \<Rightarrow> string \<Rightarrow> int \<Rightarrow> proxy_error \<Rightarrow> event list" where
  "internalError w remote wid meth host port err =
     [Logged (Failed err),
      audit wid remote (record_of w meth host port DecisionErrorInternal (Failed err)),
      Reply 500 EvaluationFailed]"

definition resolveTarget ::
    "server \<Rightarrow> 'ls world \<Rightarrow> string \<Rightarrow> int \<Rightarrow> string \<Rightarrow> (proxy_error, upstream_proxy \<times> target) result" where
  "resolveTarget sv w host port upstreamName =
     (case Upstream (w_upstream w upstreamName) upstreamName of
        Inl e \<Rightarrow> Inl (EngineFailed e)
      | Inr profile \<Rightarrow>
          (case sv_Guard sv of
             None \<Rightarrow> Inr (profile, \<lparr>t_Host = host, t_Port = port, t_Addrs = []\<rparr>)
           | Some g \<Rightarrow>
               (case Resolve g (w_lookup w) host of
                  Inl e \<Rightarrow> Inl (GuardFailed e)
                | Inr addrs \<Rightarrow> Inr (profile, \<lparr>t_Host = host, t_Port = port, t_Addrs = addrs\<rparr>))))"

section \<open>Tunnels\<close>

definition tunnel ::
    "server \<Rightarrow> 'ls world \<Rightarrow> string option \<Rightarrow> identity \<Rightarrow> connect_decision \<Rightarrow> event list" where
  "tunnel sv w remote wid dec =
     (case resolveTarget sv w (cd_Host dec) (cd_Port dec) (cd_Upstream dec) of
        Inl e \<Rightarrow> dialFailure w remote wid MethodConnect dec e
      | Inr (profile, target) \<Rightarrow>
          (case Dial (sv_Dialer sv) (w_net w) (Some profile) target of
             (Inl e, ev) \<Rightarrow> map Net ev @ dialFailure w remote wid MethodConnect dec (UpstreamFailed e)
           | (Inr c, ev) \<Rightarrow>
               (let (up, down) = w_spliced w; ns = id_Namespace wid in
                map Net ev @
                (if \<not> w_client_ok w then [Net (Closed (c_Addr c))]
                 else
                  [Established, Counted (ActiveInc TLSModeTunnel),
                   Counted (Requests ns DecisionAllow TLSModeTunnel), Spliced,
                   Counted (BytesRelayed ns ''up'' up), Counted (BytesRelayed ns ''down'' down),
                   audit wid remote
                     ((record_of w MethodConnect (cd_Host dec) (cd_Port dec) DecisionAllow
                         (why_of (cd_Reason dec)))
                      \<lparr>ar_TLSMode := TLSModeTunnel, ar_Policy := firstPolicy dec,
                       ar_Upstream := cd_Upstream dec, ar_BytesUp := int up, ar_BytesDown := int down\<rparr>),
                   Counted (ActiveDec TLSModeTunnel), Net (Closed (c_Addr c))]))))"

section \<open>Plain HTTP\<close>

text \<open>The headers of a forwarded request: stripped, with the negotiation of a permitted upgrade.\<close>

definition upgrade_headers :: "request \<Rightarrow> bool \<Rightarrow> header \<Rightarrow> header" where
  "upgrade_headers req upgrade h =
     (if upgrade then
        header_set ''Upgrade'' (header_get (rq_Header req) ''Upgrade'')
          (header_set ''Connection'' ''Upgrade'' h)
      else h)"

definition plain_headers :: "request \<Rightarrow> bool \<Rightarrow> string \<Rightarrow> header" where
  "plain_headers req upgrade proxyAuth =
     (let h = stripHopByHop (rq_Header req);
          h = (if proxyAuth \<noteq> [] then header_set ''Proxy-Authorization'' proxyAuth h else h) in
      upgrade_headers req upgrade h)"

definition path_or_empty :: "string \<Rightarrow> string" where
  "path_or_empty target = (case NormalizePath target of Inl _ \<Rightarrow> [] | Inr p \<Rightarrow> p)"

text \<open>
  What \<open>relayPlainRequest\<close> does once the proxy connection \<open>c\<close> is open. The deferred close of that
  connection comes last.
\<close>

definition exchange_plain ::
    "'ls world \<Rightarrow> string option \<Rightarrow> identity \<Rightarrow> request \<Rightarrow> url \<Rightarrow> string \<Rightarrow> int \<Rightarrow> connect_decision \<Rightarrow>
     request_decision \<Rightarrow> bool \<Rightarrow> conn \<Rightarrow> string \<Rightarrow> event list \<times> bool" where
  "exchange_plain w remote wid req u host port dec rdec upgrade c proxyAuth =
     (let sent = Forwarded (c_Addr c) (u_RequestURI u) (rq_Host req) (plain_headers req upgrade proxyAuth);
          rec = (record_of w (rq_Method req) host port DecisionAllow NoReason)
            \<lparr>ar_Scheme := ''http'', ar_Path := path_or_empty (u_RequestURI u), ar_Policy := rd_Policy rdec,
             ar_Rule := rd_Rule rdec, ar_Upstream := rd_Upstream rdec\<rparr>;
          ns = id_Namespace wid in
      case w_write_proxy w of
        Inl e \<Rightarrow> (sent # dialFailure w remote wid (rq_Method req) dec (IoFailed e), False)
      | Inr _ \<Rightarrow>
          (case w_response w of
             Inl e \<Rightarrow>
               ([sent, Counted (UpstreamErrors (rd_Upstream rdec) ''roundtrip''),
                 audit wid remote (rec\<lparr>ar_Decision := DecisionErrorUpstream, ar_Reason := Failed (IoFailed e)\<rparr>),
                 Reply 502 (UpstreamRequestFailed (IoFailed e))], False)
           | Inr resp \<Rightarrow>
               if rs_StatusCode resp = 101 then
                 ([sent, Relayed resp (rs_Header resp)] @ (if w_client_ok w then [Spliced] else []), False)
               else
                 (let (written, werr) = w_written w in
                  ([sent, Relayed resp (stripHopByHop (rs_Header resp)),
                    Counted (Requests ns DecisionAllow TLSModeTunnel),
                    Counted (BytesRelayed ns ''down'' written),
                    audit wid remote (rec\<lparr>ar_UpstreamStatus := rs_Status resp,
                      ar_Reason := Because (rd_Reason rdec), ar_BytesDown := int written\<rparr>)],
                   werr = None \<and> \<not> rs_Close resp \<and> \<not> rq_Close req))))"

definition relayPlainRequest ::
    "server \<Rightarrow> 'ls world \<Rightarrow> string option \<Rightarrow> identity \<Rightarrow> request \<Rightarrow> url \<Rightarrow> event list \<times> bool" where
  "relayPlainRequest sv w remote wid req u =
     (let (host, port) = splitTarget req; meth = rq_Method req; ns = id_Namespace wid in
      if host = [] \<or> port = 0 then ([Reply 400 NoUsableHost], False)
      else
        (case AuthorizeConnect (w_as_selector w) (w_listed w) (Some wid) host port of
           Inl e \<Rightarrow> (internalError w remote wid meth host port (EngineFailed e), False)
         | Inr dec \<Rightarrow>
             if \<not> cd_Allowed dec then
               ([Counted (Requests ns DecisionDenyPolicy TLSModeTunnel),
                 audit wid remote
                   ((record_of w meth host port DecisionDenyPolicy (why_of (cd_Reason dec)))
                    \<lparr>ar_Scheme := ''http''\<rparr>),
                 Reply 403 (DeniedConnect host port ns (id_Pod wid) (cd_Reason dec))], False)
             else
               (let target = u_RequestURI u; upgrade = isUpgrade req;
                    rdec = AuthorizeRequest (Some dec) meth target upgrade in
                if \<not> rd_Allowed rdec then
                  ([Counted (Requests ns DecisionDenyPolicy TLSModeTunnel),
                    audit wid remote
                      ((record_of w meth host port DecisionDenyPolicy (Because (rd_Reason rdec)))
                       \<lparr>ar_Scheme := ''http'', ar_Path := path_or_empty target, ar_Policy := firstPolicy dec\<rparr>),
                    Deny 403 (DeniedRequest meth target ns (id_Pod wid) (rd_Reason rdec))],
                   \<not> rq_Close req \<and> drain req)
                else
                  (case Upstream (w_upstream w (rd_Upstream rdec)) (rd_Upstream rdec) of
                     Inl e \<Rightarrow> (dialFailure w remote wid meth dec (EngineFailed e), False)
                   | Inr profile \<Rightarrow>
                       (case (case sv_Guard sv of None \<Rightarrow> Inr [] | Some g \<Rightarrow> Resolve g (w_lookup w) host) of
                          Inl e \<Rightarrow> (dialFailure w remote wid meth dec (GuardFailed e), False)
                        | Inr _ \<Rightarrow>
                            (case DialForward (sv_Dialer sv) (w_net w) (Some profile) of
                               (Inl e, ev) \<Rightarrow>
                                 (map Net ev @ dialFailure w remote wid meth dec (UpstreamFailed e), False)
                             | (Inr (c, proxyAuth), ev) \<Rightarrow>
                                 (let (out, keep) =
                                    exchange_plain w remote wid req u host port dec rdec upgrade c proxyAuth in
                                  (map Net ev @ out @ [Net (Closed (c_Addr c))], keep))))))))"

text \<open>
  The keep-alive loop. The first request is already read; \<open>later\<close> is what the following reads
  give, each with the world its request meets. The list ends where the connection does.
\<close>

fun handlePlainHTTP ::
    "server \<Rightarrow> 'ls world \<Rightarrow> string option \<Rightarrow> identity \<Rightarrow> request \<Rightarrow>
     ((string, request) result \<times> 'ls world) list \<Rightarrow> event list" where
  "handlePlainHTTP sv w remote wid req later =
     (case rq_URL req of
        None \<Rightarrow> [Reply 400 ForwardProxyOnly]
      | Some u \<Rightarrow>
          if \<not> IsAbs u then [Reply 400 ForwardProxyOnly]
          else
            (let (out, keepAlive) = relayPlainRequest sv w remote wid req u in
             if \<not> keepAlive then out
             else (case later of
                     [] \<Rightarrow> out
                   | (Inl _, _) # _ \<Rightarrow> out
                   | (Inr next, w') # later' \<Rightarrow> out @ handlePlainHTTP sv w' remote wid next later')))"

section \<open>Inspected connections\<close>

text \<open>
  \<open>transports\<close> maps a profile name to its transport, here the idle connections it keeps. An idle
  connection remembers the address it leads to and the profile it was opened under.
\<close>

record idle_conn =
  ic_Authority :: string
  ic_Profile :: upstream_proxy

type_synonym transports = "string \<rightharpoonup> idle_conn list"

definition transportFor ::
    "'ls world \<Rightarrow> transports \<Rightarrow> string \<Rightarrow> (proxy_error, transports) result" where
  "transportFor w trs profileName =
     (case trs profileName of
        Some _ \<Rightarrow> Inr trs
      | None \<Rightarrow>
          (case Upstream (w_upstream w profileName) profileName of
             Inl e \<Rightarrow> Inl (EngineFailed e)
           | Inr _ \<Rightarrow> Inr (trs(profileName \<mapsto> []))))"

definition VersionTLS12 :: int where "VersionTLS12 = 0x0303"

definition origin_tls :: "origin_config option \<Rightarrow> string \<Rightarrow> origin_config" where
  "origin_tls base host =
     (let cfg = (case base of
          None \<Rightarrow> \<lparr>oc_ServerName = [], oc_NextProtos = [], oc_MinVersion = 0, oc_InsecureSkipVerify = False\<rparr>
        | Some cfg \<Rightarrow> cfg);
          cfg = cfg\<lparr>oc_ServerName := host, oc_NextProtos := [''http/1.1'']\<rparr>;
          cfg = (if oc_MinVersion cfg = 0 then cfg\<lparr>oc_MinVersion := VersionTLS12\<rparr> else cfg) in
      cfg\<lparr>oc_InsecureSkipVerify := False\<rparr>)"

text \<open>The conversion of an \<open>int\<close> to \<open>int32\<close>.\<close>

definition int32 :: "int \<Rightarrow> int" where
  "int32 i = (i + 2 ^ 31) mod 2 ^ 32 - 2 ^ 31"

definition dialOriginTLS ::
    "server \<Rightarrow> 'ls world \<Rightarrow> string \<Rightarrow> string \<Rightarrow> (proxy_error, idle_conn) result \<times> event list" where
  "dialOriginTLS sv w profileName addr =
     (case SplitHostPort addr of
        None \<Rightarrow> (Inl (BadOrigin addr), [])
      | Some (host, portStr) \<Rightarrow>
          (case Atoi portStr of
             None \<Rightarrow> (Inl (BadOriginPort addr), [])
           | Some port \<Rightarrow>
               (case resolveTarget sv w host (int32 port) profileName of
                  Inl e \<Rightarrow> (Inl e, [])
                | Inr (profile, target) \<Rightarrow>
                    (case Dial (sv_Dialer sv) (w_net w) (Some profile) target of
                       (Inl e, ev) \<Rightarrow> (Inl (UpstreamFailed e), map Net ev)
                     | (Inr c, ev) \<Rightarrow>
                         (let hs = map Net ev @ [OriginTLS (c_Addr c) (origin_tls (sv_OriginTLS sv) host)] in
                          case w_origin_tls w of
                            Inl e \<Rightarrow> (Inl (OriginHandshake host e), hs @ [Net (Closed (c_Addr c))])
                          | Inr _ \<Rightarrow> (Inr \<lparr>ic_Authority = addr, ic_Profile = profile\<rparr>, hs))))))"

end
