(* ===== verification/Inspect.thy ===== *)
theory Inspect
  imports Proxy
begin

text \<open>
  The inspected connections of \<open>internal/proxy/inspect.go\<close> and the entry points of \<open>server.go\<close> and
  \<open>connect.go\<close> that lead to a tunnel, an inspected connection or plain HTTP.
\<close>

section \<open>One round trip\<close>

text \<open>
  \<open>http.Transport.RoundTrip\<close> of a profile's transport: it takes an idle connection to the
  authority when the library finds one (\<open>w_reuse\<close>), dials otherwise, and keeps the connection
  when it can be used again (\<open>w_pooled\<close>).
\<close>

definition idle_to :: "string \<Rightarrow> idle_conn list \<Rightarrow> idle_conn option" where
  "idle_to authority pool = find (\<lambda>ic. ic_Authority ic = authority) pool"

definition settle :: "'ls world \<Rightarrow> string \<Rightarrow> idle_conn \<Rightarrow> transports \<Rightarrow> transports" where
  "settle w profileName ic trs =
     (let rest = filter (\<lambda>x. x \<noteq> ic) (case trs profileName of None \<Rightarrow> [] | Some pool \<Rightarrow> pool) in
      trs(profileName \<mapsto> (if w_pooled w then ic # rest else rest)))"

definition roundTrip ::
    "server \<Rightarrow> 'ls world \<Rightarrow> transports \<Rightarrow> string \<Rightarrow> string \<Rightarrow> event \<Rightarrow>
     (proxy_error, response) result \<times> event list \<times> transports" where
  "roundTrip sv w trs profileName authority sent =
     (let pool = (case trs profileName of None \<Rightarrow> [] | Some pool \<Rightarrow> pool);
          (got, ev) = (case (if w_reuse w then idle_to authority pool else None) of
                         Some ic \<Rightarrow> (Inr ic, [])
                       | None \<Rightarrow> dialOriginTLS sv w profileName authority) in
      case got of
        Inl e \<Rightarrow> (Inl e, ev, trs)
      | Inr ic \<Rightarrow>
          (case w_response w of
             Inl e \<Rightarrow> (Inl (IoFailed e), ev @ [sent],
                       trs(profileName \<mapsto> filter (\<lambda>x. x \<noteq> ic) pool))
           | Inr resp \<Rightarrow> (Inr resp, ev @ [sent], settle w profileName ic trs)))"

section \<open>Forwarding a request\<close>

definition spliceUpgrade ::
    "'ls world \<Rightarrow> response \<Rightarrow> (proxy_error, unit) result \<times> event list" where
  "spliceUpgrade w resp =
     (if \<not> rs_Writable resp then (Inl NotSplittable, [Deny 502 (Failed NotSplittable)])
      else if \<not> w_client_ok w then (Inl (IoFailed ''write''), [Relayed resp (rs_Header resp)])
      else (Inr (), [Relayed resp (rs_Header resp), Spliced]))"

definition forwardBumped ::
    "server \<Rightarrow> 'ls world \<Rightarrow> transports \<Rightarrow> request \<Rightarrow> request_decision \<Rightarrow> connect_decision \<Rightarrow> string \<Rightarrow>
     bool \<Rightarrow> (proxy_error, bool) result \<times> event list \<times> transports" where
  "forwardBumped sv w trs req rdec dec authority upgrade =
     (case transportFor w trs (rd_Upstream rdec) of
        Inl e \<Rightarrow> (Inl e, [Deny 502 (Failed e)], trs)
      | Inr trs1 \<Rightarrow>
          (case w_parse_uri w (rq_RequestURI req) of
             Inl e \<Rightarrow> (Inl (BadTarget e), [Deny 400 MalformedRequestTarget], trs1)
           | Inr _ \<Rightarrow>
               (let outHost = (if rq_Host req = [] then cd_Host dec else rq_Host req);
                    headers = upgrade_headers req upgrade (stripHopByHop (rq_Header req));
                    sent = Forwarded authority (rq_RequestURI req) outHost headers in
                case roundTrip sv w trs1 (rd_Upstream rdec) authority sent of
                  (Inl e, ev, trs2) \<Rightarrow>
                    (Inl e, ev @ [Counted (UpstreamErrors (rd_Upstream rdec) ''roundtrip''),
                                  Deny 502 (UpstreamRequestFailed e)], trs2)
                | (Inr resp, ev, trs2) \<Rightarrow>
                    if rs_StatusCode resp = 101 then
                      (case spliceUpgrade w resp of
                         (Inl e, ev2) \<Rightarrow> (Inl e, ev @ ev2, trs2)
                       | (Inr _, ev2) \<Rightarrow> (Inr False, ev @ ev2, trs2))
                    else
                      (let out = ev @ [Relayed resp (stripHopByHop (rs_Header resp))] in
                       if \<not> w_client_ok w then (Inl (IoFailed ''write''), out, trs2)
                       else (Inr (\<not> rs_Close resp \<and> \<not> rq_Close req), out, trs2)))))"

section \<open>The loop over the requests of an inspected connection\<close>

definition readBumpedRequest :: "(string, request) result \<Rightarrow> request option" where
  "readBumpedRequest got =
     (case got of
        Inl _ \<Rightarrow> None
      | Inr req \<Rightarrow> (case rq_URL req of
                     Some u \<Rightarrow> if IsAbs u then None else Some req
                   | None \<Rightarrow> Some req))"

definition auditBumped ::
    "'ls world \<Rightarrow> identity \<Rightarrow> connect_decision \<Rightarrow> request \<Rightarrow> string \<Rightarrow> decision \<Rightarrow> why \<Rightarrow>
     request_decision \<Rightarrow> event" where
  "auditBumped w wid dec req target d r rdec =
     (let path = (case NormalizePath target of Inr p \<Rightarrow> p | Inl _ \<Rightarrow> target);
          rec = (record_of w (rq_Method req) (cd_Host dec) (cd_Port dec) d r)
            \<lparr>ar_Scheme := ''https'', ar_Path := path, ar_TLSMode := TLSModeInspect,
             ar_BytesUp := int (fst (w_counted w)), ar_BytesDown := int (snd (w_counted w)),
             ar_Policy := rd_Policy rdec, ar_Rule := rd_Rule rdec, ar_Upstream := rd_Upstream rdec\<rparr>;
          rec = (if ar_Policy rec = [] then rec\<lparr>ar_Policy := firstPolicy dec\<rparr> else rec) in
      audit wid None rec)"

text \<open>
  One round of the loop: the events, the transports, and whether it goes on. The request stage
  never returns an error, so the branch of the code for one is not reached.
\<close>

definition serveOne ::
    "server \<Rightarrow> 'ls world \<Rightarrow> transports \<Rightarrow> identity \<Rightarrow> connect_decision \<Rightarrow> request \<Rightarrow>
     event list \<times> transports \<times> bool" where
  "serveOne sv w trs wid dec req =
     (let authority = JoinHostPort (cd_Host dec) (Itoa (cd_Port dec)); target = rq_RequestURI req;
          upgrade = isUpgrade req; ns = id_Namespace wid;
          rdec = AuthorizeRequest (Some dec) (rq_Method req) target upgrade in
      if \<not> rd_Allowed rdec then
        ([Counted (Requests ns DecisionDenyPolicy TLSModeInspect),
          auditBumped w wid dec req target DecisionDenyPolicy (Because (rd_Reason rdec)) rdec,
          Deny 403 (DeniedRequest (rq_Method req) (''https://'' @ cd_Host dec @ target) ns (id_Pod wid)
            (rd_Reason rdec))],
         trs, w_client_ok w \<and> \<not> rq_Close req \<and> drain req)
      else
        (case forwardBumped sv w trs req rdec dec authority upgrade of
           (Inl e, ev, trs1) \<Rightarrow>
             (ev @ [Counted (Requests ns DecisionAllow TLSModeInspect),
                    auditBumped w wid dec req target DecisionErrorUpstream (Failed e) rdec], trs1, False)
         | (Inr keepAlive, ev, trs1) \<Rightarrow>
             (ev @ [Counted (Requests ns DecisionAllow TLSModeInspect),
                    auditBumped w wid dec req target DecisionAllow (Because (rd_Reason rdec)) rdec],
              trs1, keepAlive)))"

fun serveBumped ::
    "server \<Rightarrow> transports \<Rightarrow> identity \<Rightarrow> connect_decision \<Rightarrow>
     ((string, request) result \<times> 'ls world) list \<Rightarrow> event list \<times> transports" where
  "serveBumped sv trs wid dec [] = ([], trs)"
| "serveBumped sv trs wid dec ((got, w) # later) =
     (case readBumpedRequest got of
        None \<Rightarrow> ([], trs)
      | Some req \<Rightarrow>
          (let (out, trs1, goes_on) = serveOne sv w trs wid dec req in
           if \<not> goes_on then (out, trs1)
           else (let (rest, trs2) = serveBumped sv trs1 wid dec later in (out @ rest, trs2))))"

definition handleInspect ::
    "server \<Rightarrow> 'ls world \<Rightarrow> transports \<Rightarrow> string option \<Rightarrow> identity \<Rightarrow> connect_decision \<Rightarrow>
     ((string, request) result \<times> 'ls world) list \<Rightarrow> event list \<times> transports" where
  "handleInspect sv w trs remote wid dec later =
     (if \<not> sv_HasIssuer sv then
        (internalError w remote wid MethodConnect (cd_Host dec) (cd_Port dec) NoIssuer, trs)
      else if \<not> w_client_ok w then ([], trs)
      else
        (case w_handshake w of
           Inl e \<Rightarrow>
             ([Established, Counted (ActiveInc TLSModeInspect),
               audit wid remote
                 ((record_of w MethodConnect (cd_Host dec) (cd_Port dec) DecisionErrorInternal
                     (ClientHandshake e))
                  \<lparr>ar_TLSMode := TLSModeInspect, ar_Policy := firstPolicy dec\<rparr>),
               Counted (ActiveDec TLSModeInspect)], trs)
         | Inr _ \<Rightarrow>
             (let (out, trs1) = serveBumped sv trs wid dec later; (up, down) = w_counted w;
                  ns = id_Namespace wid in
              ([Established, Counted (ActiveInc TLSModeInspect)] @ out @
               [Counted (BytesRelayed ns ''up'' up), Counted (BytesRelayed ns ''down'' down),
                Counted (ActiveDec TLSModeInspect)], trs1))))"

section \<open>Accepting a connection\<close>

definition handleConnect ::
    "server \<Rightarrow> 'ls world \<Rightarrow> transports \<Rightarrow> string option \<Rightarrow> identity \<Rightarrow> request \<Rightarrow>
     ((string, request) result \<times> 'ls world) list \<Rightarrow> event list \<times> transports" where
  "handleConnect sv w trs remote wid req later =
     (let (host, port) = splitTarget req; meth = rq_Method req; ns = id_Namespace wid in
      if host = [] \<or> port = 0 then
        ([audit wid remote (record_of w meth host port DecisionDenyMalformed (NotHostPort (rq_Host req))),
          Reply 400 ConnectNeedsHostPort], trs)
      else
        (case AuthorizeConnect (w_as_selector w) (w_listed w) (Some wid) host port of
           Inl e \<Rightarrow> (internalError w remote wid meth host port (EngineFailed e), trs)
         | Inr dec \<Rightarrow>
             if \<not> cd_Allowed dec then
               ([audit wid remote (record_of w meth host port DecisionDenyPolicy (why_of (cd_Reason dec))),
                 Counted (Requests ns DecisionDenyPolicy (cd_TLSMode dec)),
                 Reply 403 (DeniedConnect host port ns (id_Pod wid) (cd_Reason dec))], trs)
             else if cd_TLSMode dec = TLSModeInspect then handleInspect sv w trs remote wid dec later
             else (tunnel sv w remote wid dec, trs)))"

definition identity_kind :: "identity_error \<Rightarrow> string" where
  "identity_kind err =
     (case err of
        HostNetworkClient _ _ _ \<Rightarrow> ''host_network''
      | AmbiguousClient _ _ _ \<Rightarrow> ''ambiguous''
      | UnknownClient _ \<Rightarrow> ''unknown_client''
      | _ \<Rightarrow> ''unknown'')"

definition denyIdentity ::
    "'ls world \<Rightarrow> string option \<Rightarrow> request \<Rightarrow> identity_error \<Rightarrow> event list" where
  "denyIdentity w remote req err =
     (let (host, port) = splitTarget req in
      [Counted (IdentityFailures (identity_kind err)), Counted (Requests [] DecisionDenyIdentity []),
       Audited ((record_of w (rq_Method req) host port DecisionDenyIdentity (IdentityFailed err))
                \<lparr>ar_SourceIP := remoteIP remote\<rparr>),
       Reply 403 (CannotIdentify (remoteIP remote) err)])"

text \<open>
  \<open>handle\<close>: \<open>first\<close> is what reading the first request gave, \<open>ident\<close> what the identity provider
  answered, \<open>later\<close> the reads that follow on the connection. It is closed at the end.
\<close>

definition handle ::
    "server \<Rightarrow> bool \<Rightarrow> 'ls world \<Rightarrow> transports \<Rightarrow> string option \<Rightarrow> (string, request) result \<Rightarrow>
     (identity_error, identity) result \<Rightarrow> ((string, request) result \<times> 'ls world) list \<Rightarrow>
     event list \<times> transports" where
  "handle sv ready w trs remote first ident later =
     (let (out, trs1) =
        (if \<not> ready then ([Reply 503 LoadingPolicy], trs)
         else (case first of
                 Inl _ \<Rightarrow> ([], trs)
               | Inr req \<Rightarrow>
                   (case ident of
                      Inl err \<Rightarrow> (denyIdentity w remote req err, trs)
                    | Inr wid \<Rightarrow>
                        if rq_Method req = MethodConnect then
                          handleConnect sv w trs remote wid req later
                        else (handlePlainHTTP sv w remote wid req later, trs)))) in
      (out @ [ClientClosed], trs1))"

end
