(* ===== verification/Store.thy ===== *)
theory Store
  imports Engine
begin

text \<open>
  \<open>internal/policy/store.go\<close>: the snapshot the engine reads. First the operations as functions
  of what the watch cache returns, with the interpretation of the engine's lister interface;
  then the store as a machine, in which the event handlers of the two informers rebuild the
  snapshot concurrently, each reading the cache twice before it publishes.
\<close>

section \<open>Snapshots\<close>

record 'ls snapshot =
  snap_policies :: "'ls egress_policy list"
  snap_upstreams :: "string \<rightharpoonup> upstream_proxy"

definition empty_snapshot :: "'ls snapshot" where
  "empty_snapshot = \<lparr>snap_policies = [], snap_upstreams = Map.empty\<rparr>"

text \<open>The two loops that fill the new snapshot; a later profile of the same name wins.\<close>

fun index_upstreams :: "(string \<rightharpoonup> upstream_proxy) \<Rightarrow> upstream_proxy list \<Rightarrow> (string \<rightharpoonup> upstream_proxy)" where
  "index_upstreams m [] = m"
| "index_upstreams m (up # ups) = index_upstreams (m(up_Name up \<mapsto> up)) ups"

definition build_snapshot :: "'ls egress_policy list \<Rightarrow> upstream_proxy list \<Rightarrow> 'ls snapshot" where
  "build_snapshot pols ups = \<lparr>snap_policies = pols, snap_upstreams = index_upstreams Map.empty ups\<rparr>"

datatype store_error = ListPolicies string | ListUpstreams string

text \<open>
  \<open>refreshErr\<close>: the results of the two \<open>List\<close> calls in, the error and the snapshot that is
  current afterwards out.
\<close>

definition refreshErr ::
    "(string, 'ls egress_policy list) result \<Rightarrow> (string, upstream_proxy list) result \<Rightarrow>
     'ls snapshot \<Rightarrow> store_error option \<times> 'ls snapshot" where
  "refreshErr listed_policies listed_upstreams current =
     (case listed_policies of
        Inl e \<Rightarrow> (Some (ListPolicies e), current)
      | Inr policies \<Rightarrow>
          (case listed_upstreams of
             Inl e \<Rightarrow> (Some (ListUpstreams e), current)
           | Inr upstreams \<Rightarrow> (None, build_snapshot policies upstreams)))"

definition ListEgressPolicies :: "'ls snapshot \<Rightarrow> (string, 'ls egress_policy list) result" where
  "ListEgressPolicies s = Inr (snap_policies s)"

definition GetUpstreamProxy :: "'ls snapshot \<Rightarrow> string \<Rightarrow> (string, upstream_proxy option) result" where
  "GetUpstreamProxy s name =
     (case snap_upstreams s name of
        None \<Rightarrow> Inl (''UpstreamProxy '' @ name @ '' not found'')
      | Some up \<Rightarrow> Inr (Some up))"

definition has_inspect :: "'ls egress_policy \<Rightarrow> bool" where
  "has_inspect pol = list_ex (\<lambda>dst. dst_TLSMode dst = TLSModeInspect) (pol_Destinations pol)"

definition InspectedPolicies :: "'ls snapshot \<Rightarrow> 'ls egress_policy list" where
  "InspectedPolicies s = filter has_inspect (snap_policies s)"

section \<open>The lister the engine is given\<close>

definition well_named :: "'ls snapshot \<Rightarrow> bool" where
  "well_named s \<longleftrightarrow> (\<forall>name up. snap_upstreams s name = Some up \<longrightarrow> up_Name up = name)"

lemma index_upstreams_lookup:
  "index_upstreams m ups name =
     (case find (\<lambda>up. up_Name up = name) (rev ups) of None \<Rightarrow> m name | Some up \<Rightarrow> Some up)"
proof (induction ups arbitrary: m)
  case (Cons up ups)
  have "find P (xs @ [x]) = (case find P xs of None \<Rightarrow> (if P x then Some x else None) | Some y \<Rightarrow> Some y)"
    for P :: "upstream_proxy \<Rightarrow> bool" and xs x
    by (induction xs) auto
  with Cons show ?case by (auto split: option.splits)
qed simp

lemma index_upstreams_named:
  "(\<And>n u. m n = Some u \<Longrightarrow> up_Name u = n) \<Longrightarrow> index_upstreams m ups n = Some u \<Longrightarrow> up_Name u = n"
proof (induction ups arbitrary: m)
  case (Cons a ups)
  from Cons.prems(2) have "index_upstreams (m(up_Name a \<mapsto> a)) ups n = Some u" by simp
  with Cons.prems(1) show ?case by (intro Cons.IH) (auto split: if_splits)
qed simp

lemma well_named_empty [simp]: "well_named empty_snapshot"
  by (simp add: well_named_def empty_snapshot_def)

lemma well_named_build [simp]: "well_named (build_snapshot pols ups)"
  by (auto simp: well_named_def build_snapshot_def intro: index_upstreams_named [of Map.empty])

lemma refreshErr_well_named: "well_named s \<Longrightarrow> well_named (snd (refreshErr lp lu s))"
  by (auto simp: refreshErr_def split: sum.splits)

interpretation store: policy_lister ListEgressPolicies GetUpstreamProxy well_named
  by unfold_locales
    (auto simp: ListEgressPolicies_def GetUpstreamProxy_def well_named_def split: option.splits)

section \<open>Concurrent refreshes\<close>

text \<open>
  The cache notifies one handler goroutine per informer. \<open>sys_pending\<close> counts the events a
  handler has still to take; a handler at work holds what it has read so far. Nothing orders
  the publications of different handlers.
\<close>

datatype handler = PolicyHandler | UpstreamHandler

datatype 'ls progress =
    Waiting
  | Started
  | HasPolicies "'ls egress_policy list"
  | HasBoth "'ls egress_policy list" "upstream_proxy list"

record 'ls store_sys =
  sys_policies :: "'ls egress_policy list"
  sys_upstreams :: "upstream_proxy list"
  sys_snapshot :: "'ls snapshot"
  sys_pending :: "handler \<Rightarrow> nat"
  sys_progress :: "handler \<Rightarrow> 'ls progress"

inductive store_step :: "'ls store_sys \<Rightarrow> 'ls store_sys \<Rightarrow> bool" where
  change_policies:
    "store_step s (s\<lparr>sys_policies := pols,
        sys_pending := (sys_pending s)(PolicyHandler := Suc (sys_pending s PolicyHandler))\<rparr>)"
| change_upstreams:
    "store_step s (s\<lparr>sys_upstreams := ups,
        sys_pending := (sys_pending s)(UpstreamHandler := Suc (sys_pending s UpstreamHandler))\<rparr>)"
| take_event:
    "sys_pending s h = Suc n \<Longrightarrow> sys_progress s h = Waiting \<Longrightarrow>
     store_step s (s\<lparr>sys_pending := (sys_pending s)(h := n),
        sys_progress := (sys_progress s)(h := Started)\<rparr>)"
| read_policies:
    "sys_progress s h = Started \<Longrightarrow>
     store_step s (s\<lparr>sys_progress := (sys_progress s)(h := HasPolicies (sys_policies s))\<rparr>)"
| read_upstreams:
    "sys_progress s h = HasPolicies pols \<Longrightarrow>
     store_step s (s\<lparr>sys_progress := (sys_progress s)(h := HasBoth pols (sys_upstreams s))\<rparr>)"
| read_fails:
    "sys_progress s h \<in> {Started, HasPolicies pols} \<Longrightarrow>
     store_step s (s\<lparr>sys_progress := (sys_progress s)(h := Waiting)\<rparr>)"
| publish:
    "sys_progress s h = HasBoth pols ups \<Longrightarrow>
     store_step s (s\<lparr>sys_snapshot := build_snapshot pols ups,
        sys_progress := (sys_progress s)(h := Waiting)\<rparr>)"

inductive_cases store_stepE: "store_step s t"

definition store_start :: "'ls egress_policy list \<Rightarrow> upstream_proxy list \<Rightarrow> 'ls store_sys \<Rightarrow> bool" where
  "store_start pols ups s \<longleftrightarrow>
     s = \<lparr>sys_policies = pols, sys_upstreams = ups, sys_snapshot = build_snapshot pols ups,
          sys_pending = (\<lambda>_. 0), sys_progress = (\<lambda>_. Waiting)\<rparr>"

text \<open>Nothing is under way and every event has been handled.\<close>

definition quiescent :: "'ls store_sys \<Rightarrow> bool" where
  "quiescent s \<longleftrightarrow> (\<forall>h. sys_pending s h = 0 \<and> sys_progress s h = Waiting)"

interpretation store_machine: machine_invariant "store_start pols ups" store_step
    "\<lambda>s. well_named (sys_snapshot s)"
  by unfold_locales (auto simp: store_start_def elim!: store_stepE)

text \<open>What a single handler does when nothing else moves: it publishes the cache as it is.\<close>

lemma refresh_alone:
  assumes "sys_progress s h = Started"
  shows "store_step\<^sup>*\<^sup>* s (s\<lparr>sys_snapshot := build_snapshot (sys_policies s) (sys_upstreams s),
      sys_progress := (sys_progress s)(h := Waiting)\<rparr>)"
proof -
  let ?s1 = "s\<lparr>sys_progress := (sys_progress s)(h := HasPolicies (sys_policies s))\<rparr>"
  let ?s2 = "s\<lparr>sys_progress := (sys_progress s)(h := HasBoth (sys_policies s) (sys_upstreams s))\<rparr>"
  have "store_step s ?s1" by (rule read_policies [OF assms])
  moreover have "store_step ?s1 ?s2"
    using read_upstreams [of ?s1 h "sys_policies s"] by simp
  moreover have "store_step ?s2 (s\<lparr>sys_snapshot := build_snapshot (sys_policies s) (sys_upstreams s),
      sys_progress := (sys_progress s)(h := Waiting)\<rparr>)"
    using publish [of ?s2 h "sys_policies s" "sys_upstreams s"] by simp
  ultimately show ?thesis by (meson r_into_rtranclp rtranclp.rtrancl_into_rtrancl)
qed

text \<open>
  Two handlers can end in the wrong order: the upstream handler reads the policies, they
  change, the policy handler publishes the change, and the upstream handler then publishes
  what it read before.
\<close>

lemma stale_publication:
  assumes "sys_progress s UpstreamHandler = Started" "sys_pending s UpstreamHandler = 0"
    and "sys_progress s PolicyHandler = Waiting" "sys_pending s PolicyHandler = 0"
  shows "store_step\<^sup>*\<^sup>* s (s\<lparr>sys_policies := new, sys_pending := (\<lambda>_. 0),
      sys_snapshot := build_snapshot (sys_policies s) (sys_upstreams s),
      sys_progress := (\<lambda>_. Waiting)\<rparr>)"
proof -
  let ?old = "sys_policies s" and ?ups = "sys_upstreams s"
  let ?held = "(sys_progress s)(UpstreamHandler := HasBoth ?old ?ups)"
  let ?s1 = "s\<lparr>sys_progress := (sys_progress s)(UpstreamHandler := HasPolicies ?old)\<rparr>"
  let ?s2 = "s\<lparr>sys_progress := ?held\<rparr>"
  let ?s3 = "?s2\<lparr>sys_policies := new, sys_pending := (sys_pending s)(PolicyHandler := 1)\<rparr>"
  let ?s4 = "?s3\<lparr>sys_pending := (sys_pending s)(PolicyHandler := 0),
      sys_progress := ?held(PolicyHandler := Started)\<rparr>"
  let ?s5 = "?s4\<lparr>sys_snapshot := build_snapshot new ?ups, sys_progress := ?held(PolicyHandler := Waiting)\<rparr>"
  let ?s6 = "s\<lparr>sys_policies := new, sys_pending := (\<lambda>_. 0),
      sys_snapshot := build_snapshot ?old ?ups, sys_progress := (\<lambda>_. Waiting)\<rparr>"
  have idle: "(sys_pending s)(PolicyHandler := 0) = (\<lambda>_. 0)"
    "?held(PolicyHandler := Waiting, UpstreamHandler := Waiting) = (\<lambda>_. Waiting)"
    using assms(2) by (auto simp: fun_eq_iff) (metis handler.exhaust)+
  have "store_step s ?s1" by (rule read_policies [OF assms(1)])
  moreover have "store_step ?s1 ?s2" using read_upstreams [of ?s1 UpstreamHandler ?old] by simp
  moreover have "store_step ?s2 ?s3" using change_policies [of ?s2 new] assms(4) by simp
  moreover have "store_step ?s3 ?s4" using take_event [of ?s3 PolicyHandler 0] assms(3) by simp
  moreover have "store_step\<^sup>*\<^sup>* ?s4 ?s5" using refresh_alone [of ?s4 PolicyHandler] by simp
  moreover have "store_step ?s5 ?s6"
    using publish [of ?s5 UpstreamHandler ?old ?ups] idle by simp
  ultimately show ?thesis
    by (meson converse_rtranclp_into_rtranclp rtranclp.rtrancl_into_rtrancl)
qed

section \<open>Runs\<close>

text \<open>
  A run is the list of the states the store goes through. What the snapshot and the handlers at work
  hold of the policies is what the cache listed in some state of the run.
\<close>

fun reads_from :: "'ls egress_policy list set \<Rightarrow> 'ls progress \<Rightarrow> bool" where
  "reads_from P (HasPolicies pols) \<longleftrightarrow> pols \<in> P"
| "reads_from P (HasBoth pols ups) \<longleftrightarrow> pols \<in> P"
| "reads_from P Waiting \<longleftrightarrow> True"
| "reads_from P Started \<longleftrightarrow> True"

definition holds_only :: "'ls store_sys \<Rightarrow> 'ls egress_policy list set \<Rightarrow> bool" where
  "holds_only s P \<longleftrightarrow> snap_policies (sys_snapshot s) \<in> P \<and> (\<forall>h. reads_from P (sys_progress s h))"

text \<open>The store has taken up the policies of the cache: nothing in it is older.\<close>

definition took_up :: "'ls store_sys \<Rightarrow> bool" where
  "took_up s \<longleftrightarrow> holds_only s {sys_policies s}"

lemma reads_from_mono: "reads_from P pr \<Longrightarrow> P \<subseteq> Q \<Longrightarrow> reads_from Q pr"
  by (cases pr) auto

lemma holds_only_mono: "holds_only s P \<Longrightarrow> P \<subseteq> Q \<Longrightarrow> holds_only s Q"
  by (auto simp: holds_only_def intro: reads_from_mono)

lemma holds_only_step: "store_step s t \<Longrightarrow> holds_only s P \<Longrightarrow> sys_policies s \<in> P \<Longrightarrow> holds_only t P"
  by (erule store_stepE) (auto simp: holds_only_def build_snapshot_def, (metis reads_from.simps)+)

lemma store_start_took_up: "store_start pols ups s \<Longrightarrow> took_up s"
  by (simp add: store_start_def took_up_def holds_only_def build_snapshot_def)

lemma run_holds:
  assumes "successively store_step (s # sts)" "took_up s" "j < length (s # sts)"
  shows "holds_only ((s # sts) ! j) ((\<lambda>i. sys_policies ((s # sts) ! i)) ` {..j})"
  using assms(3)
proof (induction j)
  case 0
  with assms(2) show ?case by (simp add: took_up_def)
next
  case (Suc j)
  let ?P = "\<lambda>j. (\<lambda>i. sys_policies ((s # sts) ! i)) ` {..j}"
  have "store_step ((s # sts) ! j) ((s # sts) ! Suc j)"
    using assms(1) Suc.prems by (simp only: successively_conv_nth)
  moreover from Suc have "holds_only ((s # sts) ! j) (?P j)" by simp
  ultimately have "holds_only ((s # sts) ! Suc j) (?P j)" by (rule holds_only_step) simp
  then show ?case by (rule holds_only_mono) (auto simp del: nth_Cons_Suc)
qed

text \<open>A handler that refreshes while no other holds a reading takes up the policies.\<close>

lemma refresh_takes_up:
  assumes "sys_progress s h = Started" "\<forall>g. sys_progress s g \<in> {Waiting, Started}"
  shows "\<exists>t. store_step\<^sup>*\<^sup>* s t \<and> took_up t \<and> sys_policies t = sys_policies s"
proof -
  let ?t = "s\<lparr>sys_snapshot := build_snapshot (sys_policies s) (sys_upstreams s),
      sys_progress := (sys_progress s)(h := Waiting)\<rparr>"
  have "reads_from P (sys_progress s g)" for P g
    using assms(2) by (metis insertE emptyE reads_from.simps(3,4))
  then have "took_up ?t" by (simp add: took_up_def holds_only_def build_snapshot_def)
  with refresh_alone [OF assms(1)] show ?thesis by (intro exI [of _ ?t]) simp
qed

end
