(* ===== verification/Dataplane.thy ===== *)
theory Dataplane
  imports Inspect Store
begin

text \<open>
  What the data plane does with a connection, as statements on the events of a handler: nothing
  leaves the relay before policy allowed it, what leaves carries the relay's credentials and not
  the client's, the origin is verified, pooled connections stay with their profile, and each
  outcome is audited.
\<close>

section \<open>Events\<close>

fun outgoing :: "event \<Rightarrow> bool" where
  "outgoing (Net _) = True"
| "outgoing (OriginTLS _ _) = True"
| "outgoing (Forwarded _ _ _ _) = True"
| "outgoing _ = False"

fun is_audit :: "event \<Rightarrow> bool" where
  "is_audit (Audited _) = True"
| "is_audit _ = False"

definition audits :: "event list \<Rightarrow> nat" where
  "audits tr = length (filter is_audit tr)"

lemma audits_simps [simp]:
  "audits [] = 0" "audits (e # tr) = (if is_audit e then Suc (audits tr) else audits tr)"
  "audits (tr @ tr') = audits tr + audits tr'" "audits (map Net ev) = 0"
  by (simp_all add: audits_def filter_map o_def)

lemma audit_event [simp]: "is_audit (audit wid remote rec)" "\<not> outgoing (audit wid remote rec)"
  by (simp_all add: audit_def Let_def)

lemma auditBumped_event [simp]:
  "is_audit (auditBumped w wid dec req target d r rdec)"
  "\<not> outgoing (auditBumped w wid dec req target d r rdec)"
  by (simp_all add: auditBumped_def Let_def)

lemma audit_not_net [simp]:
  "audit wid remote rec \<noteq> Net e" "audit wid remote rec \<noteq> OriginTLS a cfg"
  "audit wid remote rec \<noteq> Forwarded a u h hdr"
  "auditBumped w wid dec req target d r rdec \<noteq> Net e"
  "auditBumped w wid dec req target d r rdec \<noteq> OriginTLS a cfg"
  "auditBumped w wid dec req target d r rdec \<noteq> Forwarded a u h hdr"
  by (simp_all add: audit_def auditBumped_def Let_def)

lemmas audit_not_net_sym [simp] = audit_not_net [symmetric]

section \<open>Failures\<close>

text \<open>The answer to a failed dial: 403 for the guard, 502 for everything else.\<close>

definition failure_status :: "proxy_error \<Rightarrow> int" where
  "failure_status err = (case err of GuardFailed _ \<Rightarrow> 403 | _ \<Rightarrow> 502)"

definition failure_decision :: "proxy_error \<Rightarrow> decision" where
  "failure_decision err =
     (case err of
        GuardFailed _ \<Rightarrow> DecisionDenyGuard
      | UpstreamFailed (UpstreamAuth _ _) \<Rightarrow> DecisionErrorUpstream
      | UpstreamFailed (UpstreamRefused _ _ _) \<Rightarrow> DecisionErrorUpstream
      | UpstreamFailed (UpstreamUnreachable _ _) \<Rightarrow> DecisionErrorUpstream
      | _ \<Rightarrow> DecisionErrorInternal)"

lemma dialFailure_audited:
  "\<exists>rec. hd (dialFailure w remote wid meth dec err) = Audited rec \<and>
     ar_Decision rec = failure_decision err \<and> ar_Host rec = cd_Host dec \<and> ar_Port rec = cd_Port dec \<and>
     ar_Namespace rec = id_Namespace wid \<and> ar_Pod rec = id_Pod wid \<and> ar_Reason rec = Failed err"
  by (simp add: dialFailure_def failure_decision_def audit_def record_of_def Let_def
      split: proxy_error.split upstream_error.split engine_error.split)

lemma dialFailure_reply: "\<exists>y. last (dialFailure w remote wid meth dec err) = Reply (failure_status err) y"
  by (simp add: dialFailure_def failure_status_def Let_def
      split: proxy_error.split upstream_error.split engine_error.split)

lemma dialFailure_audits [simp]: "audits (dialFailure w remote wid meth dec err) = 1"
  by (simp add: dialFailure_def Let_def split: proxy_error.split upstream_error.split engine_error.split)

lemma dialFailure_quiet: "e \<in> set (dialFailure w remote wid meth dec err) \<Longrightarrow> \<not> outgoing e"
  by (auto simp: dialFailure_def Let_def split: proxy_error.splits upstream_error.splits engine_error.splits)

lemma internalError_quiet: "e \<in> set (internalError w remote wid meth host port err) \<Longrightarrow> \<not> outgoing e"
  by (auto simp: internalError_def)

lemma internalError_audits [simp]: "audits (internalError w remote wid meth host port err) = 1"
  by (simp add: internalError_def)

lemmas quiet_failures = dialFailure_quiet internalError_quiet

lemma failures_not_net [simp]:
  "Net e \<notin> set (dialFailure w remote wid meth dec err)"
  "OriginTLS a cfg \<notin> set (dialFailure w remote wid meth dec err)"
  "Forwarded a u h hdr \<notin> set (dialFailure w remote wid meth dec err)"
  "Net e \<notin> set (internalError w remote wid meth host port err)"
  "OriginTLS a cfg \<notin> set (internalError w remote wid meth host port err)"
  "Forwarded a u h hdr \<notin> set (internalError w remote wid meth host port err)"
  by (auto dest!: quiet_failures)

lemma denyIdentity_quiet: "e \<in> set (denyIdentity w remote req err) \<Longrightarrow> \<not> outgoing e"
  by (auto simp: denyIdentity_def case_prod_beta)

section \<open>Resolving a target\<close>

lemma resolveTarget_Inr:
  assumes "resolveTarget sv w host port name = Inr (profile, target)"
  shows "w_upstream w name = Inr (Some profile) \<and> t_Host target = host \<and> t_Port target = port \<and>
    (case sv_Guard sv of None \<Rightarrow> t_Addrs target = [] | Some g \<Rightarrow> Resolve g (w_lookup w) host = Inr (t_Addrs target))"
  using assms by (auto simp: resolveTarget_def Upstream_def split: sum.splits option.splits)

text \<open>What the network saw of a dialled target: the profile's proxy, or an address of the target.\<close>

lemma Dial_contacts:
  assumes "e \<in> set (snd (Dial d net (Some profile) t))"
  shows "(\<exists>u. d_url_parse d (up_URL profile) = Inr u \<and> contacted e = proxy_address u \<and>
             \<not> matchesNoProxy (up_NoProxy profile) (t_Host t)) \<or>
    (matchesNoProxy (up_NoProxy profile) (t_Host t) \<and>
       (\<exists>a\<in>set (t_Addrs t). e = Dialed (JoinHostPort (addr_String a) (Itoa (t_Port t)))))"
proof (cases "matchesNoProxy (up_NoProxy profile) (t_Host t)")
  case True
  with assms show ?thesis
    by (auto simp: Dial_direct dialDirect_def dest: direct_loop_contacts split: if_splits)
next
  case False
  then show ?thesis
  proof (cases rule: Dial_cases [of profile t d net])
    case (bad_url err)
    with assms show ?thesis by simp
  next
    case (no_proxy u err ev)
    with assms False dialProxy_contacts [of e net u] show ?thesis by auto
  next
    case (refused u c ev err ev2)
    have "c_Addr c = proxy_address u" using dialProxy_conn [of net u c] refused(2) by simp
    then show ?thesis
      using assms False refused dialProxy_contacts [of e net u] connect_events [of e d net c u profile t]
      by auto
  next
    case (tunnel_open u c ev c' ev2)
    have "c_Addr c = proxy_address u" using dialProxy_conn [of net u c] tunnel_open(2) by simp
    then show ?thesis
      using assms False tunnel_open dialProxy_contacts [of e net u] connect_events [of e d net c u profile t]
      by auto
  qed
qed

text \<open>A CONNECT names the target and carries the profile's credentials.\<close>

lemma Dial_connect:
  assumes "SentConnect a hp auth \<in> set (snd (Dial d net (Some profile) t))"
  shows "hp = hostPort t \<and> profile_auth d profile = Inr auth"
proof (cases "matchesNoProxy (up_NoProxy profile) (t_Host t)")
  case True
  with assms show ?thesis
    by (auto simp: Dial_direct dialDirect_def dest: direct_loop_contacts split: if_splits)
next
  case False
  then have "\<exists>c u. SentConnect a hp auth \<in> set (snd (connect d net c u profile t))"
  proof (cases rule: Dial_cases [of profile t d net])
    case (bad_url err)
    with assms show ?thesis by simp
  next
    case (no_proxy u err ev)
    with assms dialProxy_no_connect [of a hp auth net u] show ?thesis by simp
  next
    case (refused u c ev err ev2)
    with assms dialProxy_no_connect [of a hp auth net u] have "SentConnect a hp auth \<in> set ev2" by auto
    with refused(3) show ?thesis by (metis snd_conv)
  next
    case (tunnel_open u c ev c' ev2)
    with assms dialProxy_no_connect [of a hp auth net u] have "SentConnect a hp auth \<in> set ev2" by auto
    with tunnel_open(3) show ?thesis by (metis snd_conv)
  qed
  then obtain c u where "SentConnect a hp auth \<in> set (snd (connect d net c u profile t))" by blast
  from connect_events [OF this] show ?thesis by auto
qed

lemma Dial_conn:
  assumes "fst (Dial d net (Some profile) t) = Inr c"
  shows "\<exists>e\<in>set (snd (Dial d net (Some profile) t)). contacted e = c_Addr c"
proof (cases "matchesNoProxy (up_NoProxy profile) (t_Host t)")
  case True
  have "\<exists>e\<in>set (snd (direct_loop net t msg as)). contacted e = c_Addr c"
    if "fst (direct_loop net t msg as) = Inr c" for msg as
    using that by (induction as arbitrary: msg) (auto simp: Let_def case_prod_beta split: sum.splits)
  with True assms show ?thesis by (auto simp: Dial_direct dialDirect_def split: if_splits)
next
  case False
  have dialled: "\<exists>e\<in>set (snd (dialProxy net u)). contacted e = proxy_address u" for u
    by (simp add: dialProxy_def Let_def split: sum.split)
  from False show ?thesis
  proof (cases rule: Dial_cases [of profile t d net])
    case (tunnel_open u k ev c' ev2)
    with assms have "c_Addr c = c_Addr k" using connect_conn [of d net k u profile t c'] by auto
    moreover have "c_Addr k = proxy_address u" using dialProxy_conn [of net u k] tunnel_open(2) by simp
    ultimately show ?thesis using dialled [of u] tunnel_open(2,4) by auto
  qed (use assms in auto)
qed

section \<open>What a destination is reached through\<close>

text \<open>
  \<open>reaches\<close>: the address belongs to the named profile's proxy, or, where the profile bypasses its
  proxy for the host, to an address of the host that the guard permits. With a guard the host has
  passed it in either case.
\<close>

definition reaches :: "server \<Rightarrow> 'ls world \<Rightarrow> string \<Rightarrow> string \<Rightarrow> int \<Rightarrow> string \<Rightarrow> bool" where
  "reaches sv w name host port a \<longleftrightarrow>
     (\<exists>profile. w_upstream w name = Inr (Some profile) \<and>
        (\<forall>g. sv_Guard sv = Some g \<longrightarrow> is_ok (Resolve g (w_lookup w) host)) \<and>
        ((\<not> matchesNoProxy (up_NoProxy profile) host \<and>
            (\<exists>u. d_url_parse (sv_Dialer sv) (up_URL profile) = Inr u \<and> a = proxy_address u)) \<or>
         (matchesNoProxy (up_NoProxy profile) host \<and>
            (\<exists>g ip. sv_Guard sv = Some g \<and> \<not> Denied g ip \<and> a = JoinHostPort (addr_String ip) (Itoa port)))))"

lemma dial_reaches:
  assumes res: "resolveTarget sv w host port name = Inr (profile, t)"
    and e: "e \<in> set (snd (Dial (sv_Dialer sv) (w_net w) (Some profile) t))"
  shows "reaches sv w name host port (contacted e)"
proof -
  note r = resolveTarget_Inr [OF res]
  have guarded: "is_ok (Resolve g (w_lookup w) host)" if "sv_Guard sv = Some g" for g
    using r that by (simp add: is_ok_def)
  have direct: "\<exists>g. sv_Guard sv = Some g \<and> \<not> Denied g ip" if "ip \<in> set (t_Addrs t)" for ip
  proof (cases "sv_Guard sv")
    case None
    with r that show ?thesis by simp
  next
    case (Some g)
    with r have "Resolve g (w_lookup w) host = Inr (t_Addrs t)" by simp
    from guard.resolved_permitted [OF this that] Some show ?thesis by simp
  qed
  show ?thesis
    using Dial_contacts [OF e] r guarded direct unfolding reaches_def by fastforce
qed

lemma tunnel_net:
  assumes "Net e \<in> set (tunnel sv w remote wid dec)"
  shows "reaches sv w (cd_Upstream dec) (cd_Host dec) (cd_Port dec) (contacted e)"
proof -
  obtain profile t where res: "resolveTarget sv w (cd_Host dec) (cd_Port dec) (cd_Upstream dec) = Inr (profile, t)"
    using assms by (auto simp: tunnel_def split: sum.splits)
  obtain r ev where dial: "Dial (sv_Dialer sv) (w_net w) (Some profile) t = (r, ev)" by fastforce
  have "e \<in> set ev \<or> (\<exists>c. r = Inr c \<and> e = Closed (c_Addr c))"
  proof (cases r)
    case (Inl err)
    with assms res dial show ?thesis by (auto simp: tunnel_def)
  next
    case (Inr c)
    with assms res dial show ?thesis by (auto simp: tunnel_def Let_def case_prod_beta split: if_splits)
  qed
  then show ?thesis
  proof
    assume "e \<in> set ev"
    with dial_reaches [OF res, of e] dial show ?thesis by simp
  next
    assume "\<exists>c. r = Inr c \<and> e = Closed (c_Addr c)"
    with dial Dial_conn [of "sv_Dialer sv" "w_net w" profile t] obtain k where
      "k \<in> set ev" "contacted k = contacted e" by auto
    with dial_reaches [OF res, of k] dial show ?thesis by simp
  qed
qed

lemma tunnel_outgoing: "e \<in> set (tunnel sv w remote wid dec) \<Longrightarrow> outgoing e \<Longrightarrow> \<exists>ne. e = Net ne"
  by (cases e) (auto simp: tunnel_def Let_def case_prod_beta dest: quiet_failures
    split: sum.splits if_splits)

text \<open>A tunnel asks the proxy for the authorized host and port, under the profile's account.\<close>

lemma tunnel_connect:
  assumes "Net (SentConnect a hp auth) \<in> set (tunnel sv w remote wid dec)"
  shows "hp = JoinHostPort (cd_Host dec) (Itoa (cd_Port dec)) \<and>
    (\<exists>profile. w_upstream w (cd_Upstream dec) = Inr (Some profile) \<and>
       profile_auth (sv_Dialer sv) profile = Inr auth)"
proof -
  obtain profile t where res: "resolveTarget sv w (cd_Host dec) (cd_Port dec) (cd_Upstream dec) = Inr (profile, t)"
    using assms by (auto simp: tunnel_def split: sum.splits)
  obtain r ev where dial: "Dial (sv_Dialer sv) (w_net w) (Some profile) t = (r, ev)" by fastforce
  have "SentConnect a hp auth \<in> set ev"
    using assms res dial by (cases r) (auto simp: tunnel_def Let_def case_prod_beta split: if_splits)
  with Dial_connect [of a hp auth "sv_Dialer sv" "w_net w" profile t] dial resolveTarget_Inr [OF res]
  show ?thesis by (auto simp: hostPort_def)
qed

text \<open>
  One record for a tunnel, unless the client was gone when it was established: then the proxy has
  been contacted and nothing is recorded.
\<close>

lemma tunnel_audits:
  "audits (tunnel sv w remote wid dec) =
     (if w_client_ok w \<or>
         \<not> (\<exists>profile t c. resolveTarget sv w (cd_Host dec) (cd_Port dec) (cd_Upstream dec) = Inr (profile, t) \<and>
              fst (Dial (sv_Dialer sv) (w_net w) (Some profile) t) = Inr c)
      then 1 else 0)"
  by (auto simp: tunnel_def Let_def case_prod_beta split: sum.split)

section \<open>Plain requests\<close>

text \<open>
  The ways a plain request ends: before it was allowed (the events are quiet), at a failure
  before the proxy is reached, at a failure of the dial, or with the exchange.
\<close>

lemma relayPlain_cases:
  fixes sv :: server and w :: "'ls world"
  assumes tgt: "splitTarget req = (host, port)"
  obtains (no_target) "host = [] \<or> port = 0"
      "relayPlainRequest sv w remote wid req u = ([Reply 400 NoUsableHost], False)"
  | (quiet) out keep where "host \<noteq> []" "port \<noteq> 0" "relayPlainRequest sv w remote wid req u = (out, keep)"
      "\<forall>e\<in>set out. \<not> outgoing e" "audits out = 1" "keep \<longrightarrow> \<not> rq_Close req \<and> drain req"
  | (dialled) dec profile r ev out keep where "host \<noteq> []" "port \<noteq> 0"
      "AuthorizeConnect (w_as_selector w) (w_listed w) (Some wid) host port = Inr dec" "cd_Allowed dec"
      "rd_Allowed (AuthorizeRequest (Some dec) (rq_Method req) (u_RequestURI u) (isUpgrade req))"
      "w_upstream w (rd_Upstream (AuthorizeRequest (Some dec) (rq_Method req) (u_RequestURI u) (isUpgrade req)))
         = Inr (Some profile)"
      "\<forall>g. sv_Guard sv = Some g \<longrightarrow> is_ok (Resolve g (w_lookup w) host)"
      "DialForward (sv_Dialer sv) (w_net w) (Some profile) = (r, ev)"
      "relayPlainRequest sv w remote wid req u = (map Net ev @ out, keep)"
      "(out, keep) =
        (case r of
           Inl e \<Rightarrow> (dialFailure w remote wid (rq_Method req) dec (UpstreamFailed e), False)
         | Inr (c, auth) \<Rightarrow>
             (let (o', k) = exchange_plain w remote wid req u host port dec
                  (AuthorizeRequest (Some dec) (rq_Method req) (u_RequestURI u) (isUpgrade req))
                  (isUpgrade req) c auth in
              (o' @ [Net (Closed (c_Addr c))], k)))"
proof (cases "host = [] \<or> port = 0")
  case True
  with tgt show ?thesis by (intro no_target) (simp_all add: relayPlainRequest_def)
next
  case False
  note ctx = tgt False
  show ?thesis
  proof (cases "AuthorizeConnect (w_as_selector w) (w_listed w) (Some wid) host port")
    case (Inl e)
    with ctx show ?thesis
      by (intro quiet [of "internalError w remote wid (rq_Method req) host port (EngineFailed e)" False])
        (simp_all add: relayPlainRequest_def quiet_failures)
  next
    case dec: (Inr dec)
    define rdec where "rdec = AuthorizeRequest (Some dec) (rq_Method req) (u_RequestURI u) (isUpgrade req)"
    show ?thesis
    proof (cases "cd_Allowed dec \<and> rd_Allowed rdec")
      case False
      with ctx dec show ?thesis
        by (cases "cd_Allowed dec")
          (auto intro!: quiet simp: relayPlainRequest_def rdec_def Let_def)
    next
      case ok: True
      show ?thesis
      proof (cases "Upstream (w_upstream w (rd_Upstream rdec)) (rd_Upstream rdec)")
        case (Inl e)
        with ctx dec ok show ?thesis
          by (intro quiet [of "dialFailure w remote wid (rq_Method req) dec (EngineFailed e)" False])
            (simp_all add: relayPlainRequest_def rdec_def Let_def quiet_failures)
      next
        case (Inr profile)
        then have up: "w_upstream w (rd_Upstream rdec) = Inr (Some profile)"
          by (auto simp: Upstream_def split: sum.splits option.splits)
        define chk where "chk = (case sv_Guard sv of None \<Rightarrow> Inr [] | Some g \<Rightarrow> Resolve g (w_lookup w) host)"
        show ?thesis
        proof (cases chk)
          case (Inl e)
          with ctx dec ok \<open>Upstream _ _ = Inr profile\<close> show ?thesis
            by (intro quiet [of "dialFailure w remote wid (rq_Method req) dec (GuardFailed e)" False])
              (simp_all add: relayPlainRequest_def rdec_def chk_def Let_def quiet_failures)
        next
          case chk_ok: (Inr addrs)
          have g: "\<forall>g. sv_Guard sv = Some g \<longrightarrow> is_ok (Resolve g (w_lookup w) host)"
            using chk_ok by (auto simp: chk_def is_ok_def)
          obtain r ev where df: "DialForward (sv_Dialer sv) (w_net w) (Some profile) = (r, ev)" by fastforce
          define res where "res = (case r of
              Inl e \<Rightarrow> (dialFailure w remote wid (rq_Method req) dec (UpstreamFailed e), False)
            | Inr (c, auth) \<Rightarrow>
                (let (o', k) = exchange_plain w remote wid req u host port dec rdec (isUpgrade req) c auth in
                 (o' @ [Net (Closed (c_Addr c))], k)))"
          have "relayPlainRequest sv w remote wid req u = (map Net ev @ fst res, snd res)"
            using ctx dec ok \<open>Upstream _ _ = Inr profile\<close> chk_ok df
            by (cases r) (auto simp: relayPlainRequest_def rdec_def [symmetric] chk_def [symmetric]
                res_def Let_def split: prod.split)
          note parts = this res_def ok up
          show ?thesis
            using parts [unfolded rdec_def] False dec g df
            by (intro dialled [of dec profile r ev "fst res" "snd res"]) simp_all
        qed
      qed
    qed
  qed
qed

lemma exchange_plain_forwarded:
  "Forwarded a uri h hdr \<in> set (fst (exchange_plain w remote wid req u host port dec rdec upgrade c auth)) \<Longrightarrow>
     a = c_Addr c \<and> uri = u_RequestURI u \<and> h = rq_Host req \<and> hdr = plain_headers req upgrade auth"
  by (auto simp: exchange_plain_def Let_def case_prod_beta split: sum.splits if_splits)

lemma exchange_plain_audits:
  "audits (fst (exchange_plain w remote wid req u host port dec rdec upgrade c auth)) =
     (if (\<exists>resp. is_ok (w_write_proxy w) \<and> w_response w = Inr resp \<and> rs_StatusCode resp = 101) then 0 else 1)"
  by (auto simp: exchange_plain_def Let_def case_prod_beta is_ok_def split: sum.split)

lemma exchange_plain_keep:
  "snd (exchange_plain w remote wid req u host port dec rdec upgrade c auth) \<Longrightarrow>
     \<not> rq_Close req \<and> (\<exists>resp. w_response w = Inr resp \<and> \<not> rs_Close resp \<and> rs_StatusCode resp \<noteq> 101)"
  by (auto simp: exchange_plain_def Let_def case_prod_beta split: sum.splits if_splits)

text \<open>A plain request leaves the relay only when both stages allowed it.\<close>

definition request_allowed ::
    "server \<Rightarrow> 'ls world \<Rightarrow> identity \<Rightarrow> request \<Rightarrow> url \<Rightarrow> bool" where
  "request_allowed sv w wid req u \<longleftrightarrow>
     (let (host, port) = splitTarget req in
      host \<noteq> [] \<and> port \<noteq> 0 \<and> (\<forall>g. sv_Guard sv = Some g \<longrightarrow> is_ok (Resolve g (w_lookup w) host)) \<and>
      (\<exists>dec. AuthorizeConnect (w_as_selector w) (w_listed w) (Some wid) host port = Inr dec \<and> cd_Allowed dec \<and>
         rd_Allowed (AuthorizeRequest (Some dec) (rq_Method req) (u_RequestURI u) (isUpgrade req))))"

lemma relayPlain_allowed:
  assumes "e \<in> set (fst (relayPlainRequest sv w remote wid req u))" "outgoing e"
  shows "request_allowed sv w wid req u"
proof -
  obtain host port where tgt: "splitTarget req = (host, port)" by fastforce
  show ?thesis
  proof (cases rule: relayPlain_cases [OF tgt, of sv w remote wid u])
    case 1
    with assms show ?thesis by simp
  next
    case (2 out keep)
    with assms show ?thesis by auto
  next
    case (3 dec profile r ev out keep)
    with tgt show ?thesis by (auto simp: request_allowed_def)
  qed
qed

text \<open>
  What is forwarded: the authorized path to the profile's proxy, with the headers stripped and
  the relay's own account.
\<close>

lemma DialForward_conn:
  assumes "DialForward d net (Some profile) = (Inr (c, auth), ev)"
  shows "\<exists>u acct. d_url_parse d (up_URL profile) = Inr u \<and> c_Addr c = proxy_address u \<and>
    profile_auth d profile = Inr acct \<and> auth = (case acct of None \<Rightarrow> [] | Some v \<Rightarrow> v)"
proof -
  from assms obtain u acct where u: "d_url_parse d (up_URL profile) = Inr u"
      "profile_auth d profile = Inr acct" "fst (dialProxy net u) = Inr c"
      "auth = (case acct of None \<Rightarrow> [] | Some v \<Rightarrow> v)"
    by (auto simp: DialForward_def split: sum.splits prod.splits)
  from dialProxy_conn [OF u(3)] u show ?thesis by blast
qed

lemma relayPlain_forwarded:
  assumes "Forwarded a uri h hdr \<in> set (fst (relayPlainRequest sv w remote wid req u))"
  shows "uri = u_RequestURI u \<and> h = rq_Host req \<and>
    (\<exists>profile pu acct. d_url_parse (sv_Dialer sv) (up_URL profile) = Inr pu \<and> a = proxy_address pu \<and>
       profile_auth (sv_Dialer sv) profile = Inr acct \<and>
       hdr = plain_headers req (isUpgrade req) (case acct of None \<Rightarrow> [] | Some v \<Rightarrow> v) \<and>
       (\<exists>dec host port. splitTarget req = (host, port) \<and>
          AuthorizeConnect (w_as_selector w) (w_listed w) (Some wid) host port = Inr dec \<and>
          w_upstream w (rd_Upstream (AuthorizeRequest (Some dec) (rq_Method req) (u_RequestURI u) (isUpgrade req)))
            = Inr (Some profile)))"
proof -
  obtain host port where tgt: "splitTarget req = (host, port)" by fastforce
  show ?thesis
  proof (cases rule: relayPlain_cases [OF tgt, of sv w remote wid u])
    case 1
    with assms show ?thesis by simp
  next
    case (2 out keep)
    with assms show ?thesis by force
  next
    case (3 dec profile r ev out keep)
    show ?thesis
    proof (cases r)
      case (Inl e)
      with 3 assms show ?thesis by auto
    next
      case (Inr p)
      obtain c auth where p: "p = (c, auth)" by fastforce
      define rdec where "rdec = AuthorizeRequest (Some dec) (rq_Method req) (u_RequestURI u) (isUpgrade req)"
      from 3(9,10) Inr p assms have
        "Forwarded a uri h hdr \<in> set (fst (exchange_plain w remote wid req u host port dec rdec (isUpgrade req) c auth))"
        by (auto simp: case_prod_beta rdec_def)
      from exchange_plain_forwarded [OF this] DialForward_conn [of "sv_Dialer sv" "w_net w" profile c auth ev]
        3(3,6,8) Inr p tgt show ?thesis by auto
    qed
  qed
qed

text \<open>Exactly one record for a request with a usable target, except for a completed upgrade.\<close>

lemma relayPlain_audits:
  assumes "splitTarget req = (host, port)" "host \<noteq> []" "port \<noteq> 0"
    and "\<forall>resp. w_response w = Inr resp \<longrightarrow> rs_StatusCode resp \<noteq> 101"
  shows "audits (fst (relayPlainRequest sv w remote wid req u)) = 1"
proof (cases rule: relayPlain_cases [OF assms(1), of sv w remote wid u])
  case 1
  with assms show ?thesis by simp
next
  case (2 out keep)
  then show ?thesis by simp
next
  case (3 dec profile r ev out keep)
  have "audits out = 1" using 3(10) assms(4)
    by (cases r) (auto simp: case_prod_beta exchange_plain_audits)
  with 3 show ?thesis by simp
qed

text \<open>The connection is kept only when the body of a denied request was consumed.\<close>

lemma relayPlain_keep:
  assumes "snd (relayPlainRequest sv w remote wid req u)"
  shows "\<not> rq_Close req"
proof -
  obtain host port where tgt: "splitTarget req = (host, port)" by fastforce
  show ?thesis
  proof (cases rule: relayPlain_cases [OF tgt, of sv w remote wid u])
    case (3 dec profile r ev out keep)
    with assms show ?thesis
      by (cases r) (auto simp: case_prod_beta dest: exchange_plain_keep)
  qed (use assms in auto)
qed

text \<open>Every request of a kept connection is authorized on its own.\<close>

declare handlePlainHTTP.simps [simp del]

lemma handlePlainHTTP_events:
  assumes "e \<in> set (handlePlainHTTP sv w remote wid req later)" "outgoing e"
  shows "\<exists>(r, w')\<in>insert (req, w) {(r, w'). (Inr r, w') \<in> set later}. \<exists>u. rq_URL r = Some u \<and> IsAbs u \<and>
    e \<in> set (fst (relayPlainRequest sv w' remote wid r u))"
  using assms
proof (induction later arbitrary: w req)
  case (Cons x later)
  note unf = handlePlainHTTP.simps [of sv w remote wid req "x # later"]
  show ?case
  proof (cases "\<exists>u. rq_URL req = Some u \<and> IsAbs u")
    case False
    with Cons.prems unf show ?thesis by (auto split: option.splits if_splits)
  next
    case True
    then obtain u where u: "rq_URL req = Some u" "IsAbs u" by blast
    obtain out keep where rp: "relayPlainRequest sv w remote wid req u = (out, keep)" by fastforce
    show ?thesis
    proof (cases "e \<in> set out")
      case True
      with rp u show ?thesis by auto
    next
      case False
      obtain got w' where x: "x = (got, w')" by fastforce
      from False Cons.prems(1) unf u rp x obtain r where
        r: "got = Inr r" "e \<in> set (handlePlainHTTP sv w' remote wid r later)"
        by (cases got) (auto split: if_splits)
      from Cons.IH [OF r(2) Cons.prems(2)] r(1) x show ?thesis by auto
    qed
  qed
next
  case Nil
  note unf = handlePlainHTTP.simps [of sv w remote wid req "[]"]
  show ?case
  proof (cases "\<exists>u. rq_URL req = Some u \<and> IsAbs u")
    case False
    with Nil unf show ?thesis by (auto split: option.splits if_splits)
  next
    case True
    then obtain u where u: "rq_URL req = Some u" "IsAbs u" by blast
    from Nil(1) unf u have "e \<in> set (fst (relayPlainRequest sv w remote wid req u))"
      by (auto simp: case_prod_beta split: if_splits)
    with u show ?thesis by auto
  qed
qed

lemma handlePlainHTTP_outgoing:
  assumes "e \<in> set (handlePlainHTTP sv w remote wid req later)" "outgoing e"
  shows "\<exists>(r, w')\<in>insert (req, w) {(r, w'). (Inr r, w') \<in> set later}. \<exists>u. rq_URL r = Some u \<and> IsAbs u \<and>
    request_allowed sv w' wid r u"
  using handlePlainHTTP_events [OF assms] relayPlain_allowed [OF _ assms(2)] by fast

end
