(* ===== verification/Inspected.thy ===== *)
theory Inspected
  imports Dataplane
begin

text \<open>
  What holds of inspected connections: the origin leg is always verified and reached through the
  profile of the rule that allowed the request, a request without such a rule causes no traffic,
  pooled connections stay under the profile they were opened with, and the whole of \<open>handle\<close> lets
  nothing out for a client that policy does not allow.
\<close>

section \<open>The origin leg\<close>

lemma origin_tls_verified:
  "\<not> oc_InsecureSkipVerify (origin_tls base host) \<and> oc_ServerName (origin_tls base host) = host \<and>
   oc_NextProtos (origin_tls base host) = [''http/1.1''] \<and> oc_MinVersion (origin_tls base host) \<noteq> 0"
  by (simp add: origin_tls_def Let_def VersionTLS12_def split: option.split)

lemma int32_small: "0 \<le> i \<Longrightarrow> i < 2 ^ 31 \<Longrightarrow> int32 i = i"
  by (simp add: int32_def)

definition bracket_free :: "string \<Rightarrow> bool" where
  "bracket_free s \<longleftrightarrow> set s \<inter> {CHR ''['', CHR '']''} = {}"

lemma cut_last_parts: "cut_last c s = Some (u, v) \<Longrightarrow> s = u @ c # v"
proof (cases "c \<in> set s")
  case True
  assume a: "cut_last c s = Some (u, v)"
  from split_list_last [OF True] obtain x y where "s = x @ c # y" "c \<notin> set y" by blast
  with cut_last_append [of c y x] a show ?thesis by simp
next
  case False
  assume "cut_last c s = Some (u, v)"
  with False show ?thesis by (simp add: cut_last_def Let_def)
qed

lemma SplitHostPort_bracket_free:
  assumes "SplitHostPort hp = Some (host, port)" shows "bracket_free host"
proof -
  from assms obtain before p where c: "cut_last (CHR '':'') hp = Some (before, p)"
    by (auto simp: SplitHostPort_def split: option.splits)
  from cut_last_parts [OF c] have hp: "hp = before @ CHR '':'' # p" .
  have "CHR ''['' \<notin> set (cut_before {CHR '']''} (tl hp))" if "CHR ''['' \<notin> set (tl hp)"
    using that cut_before_subset [of "{CHR '']''}" "tl hp"] by auto
  moreover have "CHR '']'' \<notin> set (cut_before {CHR '']''} (tl hp))"
    using cut_before_clean [of "{CHR '']''}" "tl hp"] by auto
  ultimately show ?thesis
    using assms c hp by (auto simp: SplitHostPort_def bracket_free_def Let_def split: if_splits)
qed

lemma splitTarget_connect_clean:
  assumes "rq_Method req = MethodConnect" "splitTarget req = (host, port)" "port \<noteq> 0"
  shows "bracket_free host \<and> 0 < port \<and> port \<le> 65535"
  using assms SplitHostPort_bracket_free
  by (auto simp: splitTarget_def Let_def split: option.splits if_splits)

lemma authority_parts:
  assumes "bracket_free host" "0 < port" "port \<le> 65535"
  shows "SplitHostPort (JoinHostPort host (Itoa port)) = Some (host, Itoa port)" "Atoi (Itoa port) = Some port"
    "int32 port = port"
proof -
  have "list_all is_digit (Itoa port)"
    using assms(2) in_base_10_digits [of "nat port"] by (simp add: Itoa_def)
  then have "set (Itoa port) \<inter> {CHR '':'', CHR ''['', CHR '']''} = {}"
    by (auto simp: list_all_iff is_digit_def)
  with SplitHostPort_JoinHostPort assms(1) show "SplitHostPort (JoinHostPort host (Itoa port)) = Some (host, Itoa port)"
    by (simp add: bracket_free_def)
qed (use assms in \<open>simp_all add: Atoi_Itoa int32_small\<close>)

lemma dialOriginTLS_net:
  assumes auth: "SplitHostPort addr = Some (host, p)" "Atoi p = Some port" "int32 port = port"
    and e: "Net e \<in> set (snd (dialOriginTLS sv w name addr))"
  shows "reaches sv w name host port (contacted e)"
proof -
  obtain profile t where res: "resolveTarget sv w host port name = Inr (profile, t)"
    using e auth by (auto simp: dialOriginTLS_def split: sum.splits)
  obtain r ev where dial: "Dial (sv_Dialer sv) (w_net w) (Some profile) t = (r, ev)" by fastforce
  have "e \<in> set ev \<or> (\<exists>c. r = Inr c \<and> e = Closed (c_Addr c))"
    using e auth res dial by (cases r) (auto simp: dialOriginTLS_def Let_def split: sum.splits)
  then show ?thesis
  proof
    assume "e \<in> set ev"
    with dial_reaches [OF res, of e] dial show ?thesis by simp
  next
    assume "\<exists>c. r = Inr c \<and> e = Closed (c_Addr c)"
    with dial Dial_conn [of "sv_Dialer sv" "w_net w" profile t] obtain k where
      "k \<in> set ev" "contacted k = contacted e" by auto
    with dial_reaches [OF res, of k] dial show ?thesis by simp
  qed
qed

lemma dialOriginTLS_verified:
  assumes "OriginTLS a cfg \<in> set (snd (dialOriginTLS sv w name addr))"
  shows "\<not> oc_InsecureSkipVerify cfg \<and> (\<exists>host p. SplitHostPort addr = Some (host, p) \<and> oc_ServerName cfg = host)"
  using assms origin_tls_verified
  by (auto simp: dialOriginTLS_def Let_def split: option.splits sum.splits prod.splits)

lemma dialOriginTLS_conn:
  assumes "fst (dialOriginTLS sv w name addr) = Inr ic"
  shows "ic_Authority ic = addr \<and> w_upstream w name = Inr (Some (ic_Profile ic)) \<and> is_ok (w_origin_tls w)"
proof -
  from assms obtain host p port profile t where
    r: "resolveTarget sv w host (int32 port) name = Inr (profile, t)" and
    ic: "ic = \<lparr>ic_Authority = addr, ic_Profile = profile\<rparr>" "is_ok (w_origin_tls w)"
    by (auto simp: dialOriginTLS_def Let_def is_ok_def split: option.splits sum.splits prod.splits)
  from resolveTarget_Inr [OF r] ic show ?thesis by simp
qed

lemma dialOriginTLS_plain:
  "Forwarded a u h hdr \<notin> set (snd (dialOriginTLS sv w name addr))"
  "e \<in> set (snd (dialOriginTLS sv w name addr)) \<Longrightarrow> \<not> is_audit e"
  by (auto simp: dialOriginTLS_def Let_def split: option.splits sum.splits prod.splits)

section \<open>Round trips\<close>

lemma roundTrip_events:
  assumes "e \<in> set (fst (snd (roundTrip sv w trs name authority sent)))"
  shows "e = sent \<or> e \<in> set (snd (dialOriginTLS sv w name authority))"
  using assms
  by (auto simp: roundTrip_def Let_def case_prod_beta split: option.splits sum.splits if_splits)

text \<open>Pools: every idle connection of a transport was opened under the profile of its name.\<close>

definition pools_ok :: "transports \<Rightarrow> bool" where
  "pools_ok trs \<longleftrightarrow>
     (\<forall>name pool ic. trs name = Some pool \<and> ic \<in> set pool \<longrightarrow> up_Name (ic_Profile ic) = name)"

definition named_world :: "'ls world \<Rightarrow> bool" where
  "named_world w \<longleftrightarrow> (\<forall>name up. w_upstream w name = Inr (Some up) \<longrightarrow> up_Name up = name)"

text \<open>A request that meets an idle connection goes out on one that was opened for its authority.\<close>

lemma idle_to_authority: "idle_to authority pool = Some ic \<Longrightarrow> ic \<in> set pool \<and> ic_Authority ic = authority"
  by (auto simp: idle_to_def find_Some_iff)

lemma settle_pools:
  "pools_ok trs \<Longrightarrow> up_Name (ic_Profile ic) = name \<Longrightarrow> pools_ok (settle w name ic trs)"
  by (cases "trs name") (auto simp: settle_def pools_ok_def Let_def)

lemma roundTrip_pools:
  assumes "pools_ok trs" "named_world w"
  shows "pools_ok (snd (snd (roundTrip sv w trs name authority sent)))"
proof -
  let ?pool = "case trs name of None \<Rightarrow> [] | Some pool \<Rightarrow> pool"
  have pool: "up_Name (ic_Profile ic) = name" if "ic \<in> set ?pool" for ic
    using that assms(1) by (cases "trs name") (auto simp: pools_ok_def)
  have idle: "up_Name (ic_Profile ic) = name" if "idle_to authority ?pool = Some ic" for ic
    using idle_to_authority [OF that] pool by blast
  have fresh: "up_Name (ic_Profile ic) = name" if "fst (dialOriginTLS sv w name authority) = Inr ic" for ic
    using dialOriginTLS_conn [OF that] assms(2) by (simp add: named_world_def)
  have dropped: "pools_ok (trs(name \<mapsto> filter P ?pool))" for P
    using assms(1) by (cases "trs name") (auto simp: pools_ok_def)
  show ?thesis
  proof (cases "if w_reuse w then idle_to authority ?pool else None")
    case None
    have "pools_ok (settle w name ic trs)" if "fst (dialOriginTLS sv w name authority) = Inr ic" for ic
      by (rule settle_pools [OF assms(1) fresh [OF that]])
    with None assms(1) dropped show ?thesis
      by (simp add: roundTrip_def Let_def case_prod_beta split: sum.split)
  next
    case (Some ic)
    then have "up_Name (ic_Profile ic) = name" using idle by (auto split: if_splits)
    from settle_pools [OF assms(1) this, of w] Some assms(1) dropped show ?thesis
      by (simp add: roundTrip_def Let_def split: sum.split)
  qed
qed


section \<open>Headers of forwarded requests\<close>

lemma canonical_names [simp]:
  "canonical_key ''Connection'' = ''Connection''" "canonical_key ''Upgrade'' = ''Upgrade''"
  "canonical_key ''Proxy-Authorization'' = ''Proxy-Authorization''"
  by (simp_all add: canonical_key_def token_byte_def upper_char_def lower_char_def)

lemma strip_hop: "k \<in> set hopByHopHeaders \<Longrightarrow> stripHopByHop h k = None"
  by (simp add: stripHopByHop_iff)

lemma upgrade_headers_other:
  "k \<notin> {''Connection'', ''Upgrade''} \<Longrightarrow> upgrade_headers req upgrade h k = h k"
  by (simp add: upgrade_headers_def header_set_def)

lemma plain_headers_account:
  "plain_headers req upgrade auth ''Proxy-Authorization'' = (if auth = [] then None else Some [auth])"
  using strip_hop [of "''Proxy-Authorization''" "rq_Header req"]
  by (simp add: plain_headers_def upgrade_headers_other header_set_def hopByHopHeaders_def Let_def)

lemma plain_headers_hop:
  "k \<in> set hopByHopHeaders \<Longrightarrow> k \<notin> {''Proxy-Authorization'', ''Connection'', ''Upgrade''} \<Longrightarrow>
     plain_headers req upgrade auth k = None"
  by (simp add: plain_headers_def upgrade_headers_other header_set_def strip_hop Let_def)

lemma bumped_headers_hop:
  "k \<in> set hopByHopHeaders \<Longrightarrow> upgrade_headers req upgrade (stripHopByHop (rq_Header req)) k =
     (if upgrade \<and> k = ''Connection'' then Some [''Upgrade'']
      else if upgrade \<and> k = ''Upgrade'' then Some [header_get (rq_Header req) ''Upgrade'']
      else None)"
  by (simp add: upgrade_headers_def header_set_def strip_hop)

section \<open>Forwarding\<close>

lemma transportFor_pools:
  "pools_ok trs \<Longrightarrow> transportFor w trs name = Inr trs' \<Longrightarrow> pools_ok trs'"
  by (auto simp: transportFor_def pools_ok_def split: option.splits sum.splits if_splits)

lemma forwardBumped_pools:
  assumes "pools_ok trs" "named_world w"
  shows "pools_ok (snd (snd (forwardBumped sv w trs req rdec dec authority upgrade)))"
proof (cases "transportFor w trs (rd_Upstream rdec)")
  case (Inl e)
  with assms show ?thesis by (simp add: forwardBumped_def)
next
  case (Inr trs1)
  let ?sent = "Forwarded authority (rq_RequestURI req) (if rq_Host req = [] then cd_Host dec else rq_Host req)
    (upgrade_headers req upgrade (stripHopByHop (rq_Header req)))"
  obtain r ev trs2 where rt: "roundTrip sv w trs1 (rd_Upstream rdec) authority ?sent = (r, ev, trs2)"
    by (cases "roundTrip sv w trs1 (rd_Upstream rdec) authority ?sent") auto
  have "pools_ok trs1" using transportFor_pools assms(1) Inr by blast
  moreover from roundTrip_pools [OF this assms(2), of sv "rd_Upstream rdec" authority ?sent] rt
  have "pools_ok trs2" by simp
  ultimately show ?thesis using Inr rt
    by (auto simp: forwardBumped_def Let_def split: sum.split prod.split)
qed

lemma spliceUpgrade_quiet:
  "spliceUpgrade w resp = (r, ev) \<Longrightarrow> e \<in> set ev \<Longrightarrow> \<not> outgoing e \<and> \<not> is_audit e"
  by (auto simp: spliceUpgrade_def split: if_splits)

text \<open>Every event of a forward: quiet, the request itself, or of the dial to the authority.\<close>

lemma forwardBumped_events:
  assumes "e \<in> set (fst (snd (forwardBumped sv w trs req rdec dec authority upgrade)))"
  shows "(\<not> outgoing e \<and> \<not> is_audit e) \<or>
    e = Forwarded authority (rq_RequestURI req) (if rq_Host req = [] then cd_Host dec else rq_Host req)
      (upgrade_headers req upgrade (stripHopByHop (rq_Header req))) \<or>
    e \<in> set (snd (dialOriginTLS sv w (rd_Upstream rdec) authority))"
proof (cases "transportFor w trs (rd_Upstream rdec)")
  case (Inl err)
  with assms show ?thesis by (auto simp: forwardBumped_def)
next
  case (Inr trs1)
  let ?sent = "Forwarded authority (rq_RequestURI req) (if rq_Host req = [] then cd_Host dec else rq_Host req)
    (upgrade_headers req upgrade (stripHopByHop (rq_Header req)))"
  obtain r ev trs2 where rt: "roundTrip sv w trs1 (rd_Upstream rdec) authority ?sent = (r, ev, trs2)"
    by (cases "roundTrip sv w trs1 (rd_Upstream rdec) authority ?sent") auto
  show ?thesis
  proof (cases "e \<in> set ev")
    case True
    with roundTrip_events [of e sv w trs1 "rd_Upstream rdec" authority ?sent] rt show ?thesis by auto
  next
    case False
    with assms Inr rt show ?thesis
      by (auto simp: forwardBumped_def Let_def dest: spliceUpgrade_quiet
          split: sum.splits prod.splits if_splits)
  qed
qed

lemma forwardBumped_audits:
  "audits (fst (snd (forwardBumped sv w trs req rdec dec authority upgrade))) = 0"
proof -
  have "\<not> is_audit e" if "e \<in> set (fst (snd (forwardBumped sv w trs req rdec dec authority upgrade)))" for e
    using forwardBumped_events [OF that] by (auto dest: dialOriginTLS_plain(2))
  then show ?thesis by (auto simp: audits_def filter_empty_conv)
qed

section \<open>One request of an inspected connection\<close>

definition bumped_decision :: "connect_decision \<Rightarrow> request \<Rightarrow> request_decision" where
  "bumped_decision dec req = AuthorizeRequest (Some dec) (rq_Method req) (rq_RequestURI req) (isUpgrade req)"

text \<open>One record per request, and no traffic for a refused one.\<close>

lemma serveOne_audits: "audits (fst (serveOne sv w trs wid dec req)) = 1"
proof -
  let ?f = "forwardBumped sv w trs req (bumped_decision dec req) dec
    (JoinHostPort (cd_Host dec) (Itoa (cd_Port dec))) (isUpgrade req)"
  obtain r ev trs' where f: "?f = (r, ev, trs')" by (cases ?f) auto
  have "audits ev = 0"
    using forwardBumped_audits [of sv w trs req "bumped_decision dec req" dec
      "JoinHostPort (cd_Host dec) (Itoa (cd_Port dec))" "isUpgrade req"] f by simp
  with f show ?thesis
    by (cases r) (simp_all add: serveOne_def bumped_decision_def Let_def)
qed

text \<open>
  What may leave for an allowed request: the request itself, to the authority of the CONNECT, and
  the dial of that authority under the profile of the rule that allowed it.
\<close>

definition origin_event ::
    "server \<Rightarrow> 'ls world \<Rightarrow> connect_decision \<Rightarrow> request \<Rightarrow> event \<Rightarrow> bool" where
  "origin_event sv w dec req e \<longleftrightarrow>
     (let authority = JoinHostPort (cd_Host dec) (Itoa (cd_Port dec)) in
      e = Forwarded authority (rq_RequestURI req) (if rq_Host req = [] then cd_Host dec else rq_Host req)
        (upgrade_headers req (isUpgrade req) (stripHopByHop (rq_Header req))) \<or>
      e \<in> set (snd (dialOriginTLS sv w (rd_Upstream (bumped_decision dec req)) authority)))"

lemma serveOne_events:
  assumes "e \<in> set (fst (serveOne sv w trs wid dec req))" "outgoing e"
  shows "rd_Allowed (bumped_decision dec req) \<and> origin_event sv w dec req e"
proof -
  define authority where "authority = JoinHostPort (cd_Host dec) (Itoa (cd_Port dec))"
  let ?f = "forwardBumped sv w trs req (bumped_decision dec req) dec authority (isUpgrade req)"
  obtain r ev trs' where f: "?f = (r, ev, trs')" by (cases ?f) auto
  have al: "rd_Allowed (bumped_decision dec req)"
    using assms(1,2) by (auto simp: serveOne_def bumped_decision_def Let_def split: if_splits)
  then have "e \<in> set ev"
    using assms(1,2) f
    by (cases r) (auto simp: serveOne_def bumped_decision_def authority_def Let_def)
  with forwardBumped_events [of e sv w trs req "bumped_decision dec req" dec authority "isUpgrade req"]
    f assms(2) al show ?thesis by (simp add: origin_event_def authority_def Let_def)
qed

lemma serveOne_pools:
  assumes "pools_ok trs" "named_world w" shows "pools_ok (fst (snd (serveOne sv w trs wid dec req)))"
proof -
  let ?f = "forwardBumped sv w trs req (bumped_decision dec req) dec
    (JoinHostPort (cd_Host dec) (Itoa (cd_Port dec))) (isUpgrade req)"
  obtain r ev trs' where f: "?f = (r, ev, trs')" by (cases ?f) auto
  have "pools_ok trs'"
    using forwardBumped_pools [OF assms, of sv req "bumped_decision dec req" dec
      "JoinHostPort (cd_Host dec) (Itoa (cd_Port dec))" "isUpgrade req"] f by simp
  with f assms(1) show ?thesis
    by (cases r) (simp_all add: serveOne_def bumped_decision_def Let_def)
qed

lemma serveOne_denied_keeps:
  assumes "\<not> rd_Allowed (bumped_decision dec req)"
  shows "snd (snd (serveOne sv w trs wid dec req)) \<longleftrightarrow> w_client_ok w \<and> \<not> rq_Close req \<and> drain req"
    "fst (snd (serveOne sv w trs wid dec req)) = trs"
  using assms by (simp_all add: serveOne_def bumped_decision_def Let_def)

section \<open>The connection\<close>

lemma serveBumped_outgoing:
  assumes "e \<in> set (fst (serveBumped sv trs wid dec later))" "outgoing e"
  shows "\<exists>req w. (Inr req, w) \<in> set later \<and> readBumpedRequest (Inr req) = Some req \<and>
    rd_Allowed (bumped_decision dec req) \<and> origin_event sv w dec req e"
  using assms(1)
proof (induction later arbitrary: trs)
  case (Cons x later)
  obtain got w where x: "x = (got, w)" by fastforce
  show ?case
  proof (cases "readBumpedRequest got")
    case None
    with Cons.prems x show ?thesis by simp
  next
    case (Some req)
    then have got: "got = Inr req" by (auto simp: readBumpedRequest_def split: sum.splits option.splits if_splits)
    obtain out trs1 goes_on where one: "serveOne sv w trs wid dec req = (out, trs1, goes_on)"
      by (cases "serveOne sv w trs wid dec req") auto
    show ?thesis
    proof (cases "e \<in> set out")
      case True
      with serveOne_events [of e sv w trs wid dec req] one assms(2) Some got x show ?thesis by auto
    next
      case False
      with Cons.prems x Some one have "e \<in> set (fst (serveBumped sv trs1 wid dec later))"
        by (auto simp: case_prod_beta split: if_splits)
      from Cons.IH [OF this] show ?thesis by auto
    qed
  qed
qed simp

lemma serveBumped_pools:
  "pools_ok trs \<Longrightarrow> \<forall>(got, w)\<in>set later. named_world w \<Longrightarrow> pools_ok (snd (serveBumped sv trs wid dec later))"
proof (induction later arbitrary: trs)
  case (Cons x later)
  obtain got w where x: "x = (got, w)" by fastforce
  show ?case
  proof (cases "readBumpedRequest got")
    case None
    with Cons.prems x show ?thesis by simp
  next
    case (Some req)
    obtain out trs1 goes_on where one: "serveOne sv w trs wid dec req = (out, trs1, goes_on)"
      by (cases "serveOne sv w trs wid dec req") auto
    have "pools_ok trs1" using serveOne_pools [of trs w sv wid dec req] Cons.prems x one by auto
    moreover from Cons.IH [OF this] Cons.prems have "pools_ok (snd (serveBumped sv trs1 wid dec later))" by auto
    ultimately show ?thesis using x Some one by (simp add: case_prod_beta)
  qed
qed simp

lemma handleInspect_outgoing:
  assumes "e \<in> set (fst (handleInspect sv w trs remote wid dec later))" "outgoing e"
  shows "e \<in> set (fst (serveBumped sv trs wid dec later))"
  using assms quiet_failures(2) [of e w remote wid]
  by (auto simp: handleInspect_def Let_def case_prod_beta split: sum.splits if_splits)

lemma handleConnect_outgoing:
  assumes "e \<in> set (fst (handleConnect sv w trs remote wid req later))" "outgoing e"
  shows "\<exists>host port dec. splitTarget req = (host, port) \<and> host \<noteq> [] \<and> port \<noteq> 0 \<and>
    AuthorizeConnect (w_as_selector w) (w_listed w) (Some wid) host port = Inr dec \<and> cd_Allowed dec \<and>
    (if cd_TLSMode dec = TLSModeInspect then e \<in> set (fst (serveBumped sv trs wid dec later))
     else e \<in> set (tunnel sv w remote wid dec))"
proof -
  obtain host port where tgt: "splitTarget req = (host, port)" by fastforce
  let ?dec = "AuthorizeConnect (w_as_selector w) (w_listed w) (Some wid) host port"
  have ok: "\<not> (host = [] \<or> port = 0)" using assms tgt by (auto simp: handleConnect_def)
  show ?thesis
  proof (cases ?dec)
    case (Inl err)
    with assms tgt ok show ?thesis by (auto simp: handleConnect_def dest: quiet_failures(2))
  next
    case (Inr dec)
    have al: "cd_Allowed dec" using assms tgt ok Inr by (auto simp: handleConnect_def Let_def split: if_splits)
    show ?thesis
    proof (cases "cd_TLSMode dec = TLSModeInspect")
      case True
      with assms(1) tgt ok Inr al have "e \<in> set (fst (handleInspect sv w trs remote wid dec later))"
        by (simp add: handleConnect_def)
      from handleInspect_outgoing [OF this assms(2)] tgt ok Inr al True show ?thesis by auto
    next
      case False
      with assms(1) tgt ok Inr al show ?thesis by (auto simp: handleConnect_def)
    qed
  qed
qed

lemma AuthorizeConnect_allowed:
  assumes "AuthorizeConnect as_sel listed (Some wid) host port = Inr dec" "cd_Allowed dec"
  shows "\<exists>pols. listed = Inr pols \<and> granted as_sel wid host port pols"
proof (cases listed)
  case (Inl e)
  with assms show ?thesis by (simp add: AuthorizeConnect_def Let_def)
next
  case (Inr pols)
  with assms show ?thesis
    by (auto simp: AuthorizeConnect_Inr_iff granted_iff Let_def split: if_splits)
qed

text \<open>The upstream of a decision is that of its first grant.\<close>

lemma AuthorizeConnect_first:
  assumes "AuthorizeConnect as_sel listed (Some wid) host port = Inr dec" "cd_Allowed dec"
  shows "\<exists>m\<in>set (cd_Matched dec). md_Upstream m = cd_Upstream dec"
proof (cases listed)
  case (Inl e)
  with assms show ?thesis by (simp add: AuthorizeConnect_def Let_def)
next
  case (Inr pols)
  let ?gs = "sort_key sort_rank (grants as_sel wid host port pols)"
  have nil: "?gs = [] \<longleftrightarrow> grants as_sel wid host port pols = []"
    by (metis length_0_conv length_sort)
  from assms Inr nil have "?gs \<noteq> []" "cd_Matched dec = ?gs" "cd_Upstream dec = md_Upstream (?gs ! 0)"
    by (auto simp: AuthorizeConnect_Inr_iff Let_def split: if_splits)
  then show ?thesis by (metis length_greater_0_conv nth_mem)
qed

lemma AuthorizeConnect_target:
  "AuthorizeConnect as_sel listed wid_opt host port = Inr dec \<Longrightarrow> cd_Host dec = host \<and> cd_Port dec = port"
  by (auto simp: AuthorizeConnect_def Let_def split: option.splits sum.splits if_splits)

text \<open>
  The whole of \<open>handle\<close>: a client that no policy grants a destination to causes no traffic. Every
  outgoing event belongs to a request of the connection whose target is granted to the
  identified workload.
\<close>

definition grants_target :: "'ls world \<Rightarrow> identity \<Rightarrow> request \<Rightarrow> bool" where
  "grants_target w wid req \<longleftrightarrow>
     (\<exists>host port pols. splitTarget req = (host, port) \<and> w_listed w = Inr pols \<and>
        granted (w_as_selector w) wid host port pols)"

lemma request_allowed_grants: "request_allowed sv w wid req u \<Longrightarrow> grants_target w wid req"
  using AuthorizeConnect_allowed by (fastforce simp: request_allowed_def grants_target_def)

lemma handle_outgoing:
  assumes "e \<in> set (fst (handle sv ready w trs remote got ident later))" "outgoing e"
  shows "ready \<and> (\<exists>wid req. ident = Inr wid \<and> got = Inr req \<and>
    (\<exists>(r, w')\<in>insert (req, w) {(r, w'). (Inr r, w') \<in> set later}. grants_target w' wid r))"
proof -
  from assms denyIdentity_quiet obtain wid req where
    base: "ready" "ident = Inr wid" "got = Inr req"
      "if rq_Method req = MethodConnect then e \<in> set (fst (handleConnect sv w trs remote wid req later))
       else e \<in> set (handlePlainHTTP sv w remote wid req later)"
    by (fastforce simp: handle_def case_prod_beta split: sum.splits if_splits)
  show ?thesis
  proof (cases "rq_Method req = MethodConnect")
    case True
    with base have "e \<in> set (fst (handleConnect sv w trs remote wid req later))" by simp
    from handleConnect_outgoing [OF this assms(2)] have "grants_target w wid req"
      using AuthorizeConnect_allowed by (fastforce simp: grants_target_def)
    with base show ?thesis by auto
  next
    case False
    with base have "e \<in> set (handlePlainHTTP sv w remote wid req later)" by simp
    from handlePlainHTTP_outgoing [OF this assms(2)] base show ?thesis
      by (auto dest: request_allowed_grants)
  qed
qed

end
