(* ===== verification/Config.thy ===== *)
theory Config
  imports Go_Strings
begin

text \<open>
  \<open>internal/config/config.go\<close>: the configuration, its defaults, the repeatable list flag and
  \<open>Validate\<close>. Durations are integers in nanoseconds. The flag package is the environment: a run
  of it is a sequence of assignments, modelled as the option it sets.
\<close>

record config =
  ListenAddr :: string
  AdminAddr :: string
  Namespace :: string
  CASecretName :: string
  CAConfigMapName :: string
  AutoInitCA :: bool
  OriginCAFile :: string
  ExtraDeniedCIDRs :: "string list"
  DisableDefaultDeniedCIDRs :: bool
  HandshakeTimeout :: int
  IdleTimeout :: int
  ShutdownGrace :: int
  UpstreamTimeout :: int
  LeafValidity :: int
  IdentityNegTTL :: int
  CASyncInterval :: int
  LogLevel :: string
  LogFormat :: string
  Kubeconfig :: string

definition seconds :: "int \<Rightarrow> int" where "seconds n = n * 1000000000"

text \<open>\<open>getenv\<close> is the environment; an unset variable reads as the empty string.\<close>

definition envOr :: "(string \<Rightarrow> string) \<Rightarrow> string \<Rightarrow> string \<Rightarrow> string" where
  "envOr getenv key def = (if getenv key \<noteq> [] then getenv key else def)"

definition Default :: "(string \<Rightarrow> string) \<Rightarrow> config" where
  "Default getenv =
     \<lparr>ListenAddr = '':3128'', AdminAddr = '':9090'',
      Namespace = envOr getenv ''POD_NAMESPACE'' ''relay-system'', CASecretName = ''relay-ca'',
      CAConfigMapName = ''relay-ca-bundle'', AutoInitCA = False, OriginCAFile = [],
      ExtraDeniedCIDRs = [], DisableDefaultDeniedCIDRs = False, HandshakeTimeout = seconds 30,
      IdleTimeout = seconds 300, ShutdownGrace = seconds 20, UpstreamTimeout = seconds 10,
      LeafValidity = seconds 86400, IdentityNegTTL = seconds 2, CASyncInterval = seconds 30,
      LogLevel = ''info'', LogFormat = ''json'', Kubeconfig = []\<rparr>"

section \<open>The list flag\<close>

fun set_loop :: "string list \<Rightarrow> string list \<Rightarrow> string list" where
  "set_loop s [] = s"
| "set_loop s (part # parts) =
     (let p = TrimSpace part in set_loop (if p \<noteq> [] then s @ [p] else s) parts)"

definition stringList_Set :: "string \<Rightarrow> string list \<Rightarrow> string list" where
  "stringList_Set v s = set_loop s (Split (CHR '','') v)"

definition stringList_String :: "string list \<Rightarrow> string" where
  "stringList_String s = Join (CHR '','') s"

section \<open>Flags\<close>

text \<open>
  \<open>BindFlags\<close>: each flag name with the option it sets. A value is what the flag package has
  parsed the argument to.
\<close>

datatype flag_value = StringFlag string | BoolFlag bool | DurationFlag int

definition apply_flag :: "string \<times> flag_value \<Rightarrow> config \<Rightarrow> config option" where
  "apply_flag fv c =
     (case snd fv of
        StringFlag v \<Rightarrow>
          (if fst fv = ''listen'' then Some (c\<lparr>ListenAddr := v\<rparr>)
           else if fst fv = ''admin-listen'' then Some (c\<lparr>AdminAddr := v\<rparr>)
           else if fst fv = ''namespace'' then Some (c\<lparr>Namespace := v\<rparr>)
           else if fst fv = ''ca-secret'' then Some (c\<lparr>CASecretName := v\<rparr>)
           else if fst fv = ''ca-configmap'' then Some (c\<lparr>CAConfigMapName := v\<rparr>)
           else if fst fv = ''origin-ca-file'' then Some (c\<lparr>OriginCAFile := v\<rparr>)
           else if fst fv = ''deny-cidr'' then
             Some (c\<lparr>ExtraDeniedCIDRs := stringList_Set v (ExtraDeniedCIDRs c)\<rparr>)
           else if fst fv = ''log-level'' then Some (c\<lparr>LogLevel := v\<rparr>)
           else if fst fv = ''log-format'' then Some (c\<lparr>LogFormat := v\<rparr>)
           else if fst fv = ''kubeconfig'' then Some (c\<lparr>Kubeconfig := v\<rparr>)
           else None)
      | BoolFlag v \<Rightarrow>
          (if fst fv = ''auto-init-ca'' then Some (c\<lparr>AutoInitCA := v\<rparr>)
           else if fst fv = ''no-default-deny-cidrs'' then Some (c\<lparr>DisableDefaultDeniedCIDRs := v\<rparr>)
           else None)
      | DurationFlag v \<Rightarrow>
          (if fst fv = ''handshake-timeout'' then Some (c\<lparr>HandshakeTimeout := v\<rparr>)
           else if fst fv = ''idle-timeout'' then Some (c\<lparr>IdleTimeout := v\<rparr>)
           else if fst fv = ''shutdown-grace'' then Some (c\<lparr>ShutdownGrace := v\<rparr>)
           else if fst fv = ''upstream-timeout'' then Some (c\<lparr>UpstreamTimeout := v\<rparr>)
           else if fst fv = ''leaf-validity'' then Some (c\<lparr>LeafValidity := v\<rparr>)
           else if fst fv = ''ca-sync-interval'' then Some (c\<lparr>CASyncInterval := v\<rparr>)
           else None))"

fun apply_flags :: "(string \<times> flag_value) list \<Rightarrow> config \<Rightarrow> config option" where
  "apply_flags [] c = Some c"
| "apply_flags (fv # fvs) c = (case apply_flag fv c of None \<Rightarrow> None | Some c' \<Rightarrow> apply_flags fvs c')"

section \<open>Validation\<close>

datatype config_error = NamespaceRequired | ListenRequired | LeafValidityTooShort int | BadLogFormat string

definition Validate :: "config \<Rightarrow> config_error option" where
  "Validate c =
     (if Namespace c = [] then Some NamespaceRequired
      else if ListenAddr c = [] then Some ListenRequired
      else if LeafValidity c < seconds 3600 then Some (LeafValidityTooShort (LeafValidity c))
      else if LogFormat c \<noteq> ''json'' \<and> LogFormat c \<noteq> ''text'' then Some (BadLogFormat (LogFormat c))
      else None)"

lemma Validate_None_iff:
  "Validate c = None \<longleftrightarrow> Namespace c \<noteq> [] \<and> ListenAddr c \<noteq> [] \<and> seconds 3600 \<le> LeafValidity c \<and>
     LogFormat c \<in> {''json'', ''text''}"
  by (auto simp: Validate_def)

lemma Validate_Default: "Validate (Default getenv) = None"
  by (simp add: Validate_None_iff Default_def envOr_def seconds_def)

section \<open>What the list flag collects\<close>

lemma set_loop_eq: "set_loop s parts = s @ filter (\<lambda>p. p \<noteq> []) (map TrimSpace parts)"
  by (induction parts arbitrary: s) (auto simp: Let_def)

lemma stringList_Set_eq: "stringList_Set v s = s @ filter (\<lambda>p. p \<noteq> []) (map TrimSpace (Split (CHR '','') v))"
  by (simp add: stringList_Set_def set_loop_eq)

text \<open>What \<open>String\<close> prints, \<open>Set\<close> reads back: for entries without commas and outer spaces.\<close>

lemma stringList_roundtrip:
  assumes "\<forall>x\<in>set xs. x \<noteq> [] \<and> CHR '','' \<notin> set x \<and> TrimSpace x = x"
  shows "stringList_Set (stringList_String xs) [] = xs"
proof (cases "xs = []")
  case True
  then show ?thesis by (simp add: stringList_Set_eq stringList_String_def TrimSpace_def trim_with_def)
next
  case False
  have "Split (CHR '','') (stringList_String xs) = xs"
    unfolding stringList_String_def using False assms by (intro Split_Join) auto
  moreover have "map TrimSpace xs = xs" using assms by (simp add: map_idI)
  ultimately show ?thesis using assms by (simp add: stringList_Set_eq filter_id_conv)
qed

text \<open>Repeating the flag accumulates: setting twice is setting the joined list.\<close>

lemma stringList_Set_append:
  "stringList_Set w (stringList_Set v s) = stringList_Set (v @ CHR '','' # w) s"
  by (simp add: stringList_Set_eq Split_append_sep)

text \<open>No flag touches the life time of negative identity entries.\<close>

lemma apply_flags_neg_ttl: "apply_flags fvs c = Some c' \<Longrightarrow> IdentityNegTTL c' = IdentityNegTTL c"
proof (induction fvs arbitrary: c)
  case (Cons fv fvs)
  then obtain d where d: "apply_flag fv c = Some d" "apply_flags fvs d = Some c'"
    by (auto split: option.splits)
  have "IdentityNegTTL d = IdentityNegTTL c"
    using d(1) by (auto simp: apply_flag_def split: flag_value.splits if_splits)
  with Cons.IH [OF d(2)] show ?case by simp
qed simp

end
