(* ===== verification/Authority.thy ===== *)
theory Authority
  imports Netip
begin

text \<open>
  \<open>internal/tlsbump/ca.go\<close>: the signing authority, its trust bundle and its PEM material. The
  cryptographic primitives and the PEM and X.509 codecs of the Go library form one record of
  functions; a certificate is the record of the fields the relay sets or reads, with its
  encoding in \<open>x_Raw\<close>. A pointer to a certificate is the pair of its allocation number
  (\<open>ca_Ref\<close>) and its contents.
\<close>

section \<open>Certificates and keys\<close>

datatype key_usage =
    KeyUsageDigitalSignature | KeyUsageKeyEncipherment | KeyUsageCertSign | KeyUsageCRLSign

datatype ext_key_usage = ExtKeyUsageServerAuth

record x509 =
  x_Raw :: string
  x_Serial :: nat
  x_CommonName :: string
  x_Organization :: "string list"
  x_NotBefore :: int
  x_NotAfter :: int
  x_KeyUsage :: "key_usage set"
  x_ExtKeyUsage :: "ext_key_usage list"
  x_DNSNames :: "string list"
  x_IPAddresses :: "8 word list list"
  x_IsCA :: bool
  x_BasicConstraintsValid :: bool
  x_MaxPathLenZero :: bool

text \<open>The zero value of \<open>x509.Certificate\<close>.\<close>

definition zero_x509 :: x509 where
  "zero_x509 = \<lparr>x_Raw = [], x_Serial = 0, x_CommonName = [], x_Organization = [], x_NotBefore = 0,
     x_NotAfter = 0, x_KeyUsage = {}, x_ExtKeyUsage = [], x_DNSNames = [], x_IPAddresses = [],
     x_IsCA = False, x_BasicConstraintsValid = False, x_MaxPathLenZero = False\<rparr>"

text \<open>A parsed PKCS8 key is a signer (named by a number) or a key that cannot sign.\<close>

datatype pkcs8_key = Signer nat | NotASigner

record crypto =
  cr_key :: "(string, nat) result"
  cr_serial :: "(string, nat) result"
  cr_create :: "x509 \<Rightarrow> x509 \<Rightarrow> nat \<Rightarrow> nat option \<Rightarrow> (string, string) result"
  cr_parse :: "string \<Rightarrow> (string, x509) result"
  cr_marshal :: "nat option \<Rightarrow> (string, string) result"
  cr_pkcs8 :: "string \<Rightarrow> (string, pkcs8_key) result"
  cr_ec :: "string \<Rightarrow> (string, nat) result"
  cr_pkcs1 :: "string \<Rightarrow> (string, nat) result"
  pem_encode :: "string \<Rightarrow> string \<Rightarrow> string"
  pem_decode :: "string \<Rightarrow> (string \<times> string) option"

datatype ca_error =
    KeyGeneration string
  | SerialGeneration string
  | SelfSign string
  | ParseGenerated string
  | MarshalKeyFailed string
  | NotACertificateBlock
  | ParseCertificate string
  | NotACA
  | KeyNotPEM
  | KeyNotASigner
  | UnrecognisedKey

section \<open>The authority and the trust bundle\<close>

record ca =
  ca_Ref :: nat
  ca_Certificate :: x509
  ca_Key :: "nat option"
  ca_CertPEM :: string

record trust_bundle =
  b_Current :: "ca option"
  b_Next :: "ca option"

definition PEM :: "trust_bundle \<Rightarrow> string" where
  "PEM b = (case b_Current b of None \<Rightarrow> [] | Some c \<Rightarrow> ca_CertPEM c)
         @ (case b_Next b of None \<Rightarrow> [] | Some c \<Rightarrow> ca_CertPEM c)"

definition second :: int where "second = 1000000000"

definition DefaultCAValidity :: int where
  "DefaultCAValidity = 10 * 365 * 24 * 3600 * second"

definition randomSerial :: "crypto \<Rightarrow> (ca_error, nat) result" where
  "randomSerial cr = (case cr_serial cr of Inl e \<Rightarrow> Inl (SerialGeneration e) | Inr n \<Rightarrow> Inr n)"

text \<open>The template of a new authority, valid from five minutes ago.\<close>

definition ca_template :: "string \<Rightarrow> int \<Rightarrow> nat \<Rightarrow> int \<Rightarrow> x509" where
  "ca_template commonName validity serial now = zero_x509\<lparr>
     x_Serial := serial, x_CommonName := commonName, x_Organization := [''proxy-relay-control''],
     x_NotBefore := now - 300 * second, x_NotAfter := now + validity,
     x_KeyUsage := {KeyUsageCertSign, KeyUsageCRLSign, KeyUsageDigitalSignature},
     x_IsCA := True, x_BasicConstraintsValid := True, x_MaxPathLenZero := True\<rparr>"

definition GenerateCA ::
    "crypto \<Rightarrow> nat \<Rightarrow> int \<Rightarrow> string \<Rightarrow> int \<Rightarrow> (ca_error, ca) result" where
  "GenerateCA cr ref now commonName validity0 =
     (let validity = (if validity0 \<le> 0 then DefaultCAValidity else validity0) in
      case cr_key cr of
        Inl e \<Rightarrow> Inl (KeyGeneration e)
      | Inr key \<Rightarrow>
          (case randomSerial cr of
             Inl e \<Rightarrow> Inl e
           | Inr serial \<Rightarrow>
               (let tmpl = ca_template commonName validity serial now in
                case cr_create cr tmpl tmpl key (Some key) of
                  Inl e \<Rightarrow> Inl (SelfSign e)
                | Inr der \<Rightarrow>
                    (case cr_parse cr der of
                       Inl e \<Rightarrow> Inl (ParseGenerated e)
                     | Inr cert \<Rightarrow>
                         Inr \<lparr>ca_Ref = ref, ca_Certificate = cert, ca_Key = Some key,
                              ca_CertPEM = pem_encode cr ''CERTIFICATE'' der\<rparr>))))"

definition MarshalKey :: "crypto \<Rightarrow> ca \<Rightarrow> (ca_error, string) result" where
  "MarshalKey cr c =
     (case cr_marshal cr (ca_Key c) of
        Inl e \<Rightarrow> Inl (MarshalKeyFailed e)
      | Inr der \<Rightarrow> Inr (pem_encode cr ''PRIVATE KEY'' der))"

definition parsePrivateKey :: "crypto \<Rightarrow> string \<Rightarrow> (ca_error, nat) result" where
  "parsePrivateKey cr der =
     (case cr_pkcs8 cr der of
        Inr (Signer k) \<Rightarrow> Inr k
      | Inr NotASigner \<Rightarrow> Inl KeyNotASigner
      | Inl _ \<Rightarrow>
          (case cr_ec cr der of
             Inr k \<Rightarrow> Inr k
           | Inl _ \<Rightarrow> (case cr_pkcs1 cr der of Inr k \<Rightarrow> Inr k | Inl _ \<Rightarrow> Inl UnrecognisedKey)))"

text \<open>The certificate half of \<open>LoadCA\<close> and \<open>LoadCACert\<close>, which state it alike.\<close>

definition load_certificate :: "crypto \<Rightarrow> string \<Rightarrow> (ca_error, x509) result" where
  "load_certificate cr certPEM =
     (case pem_decode cr certPEM of
        None \<Rightarrow> Inl NotACertificateBlock
      | Some (ty, bytes) \<Rightarrow>
          if ty \<noteq> ''CERTIFICATE'' then Inl NotACertificateBlock
          else (case cr_parse cr bytes of
                  Inl e \<Rightarrow> Inl (ParseCertificate e)
                | Inr cert \<Rightarrow> if x_IsCA cert then Inr cert else Inl NotACA))"

definition LoadCA :: "crypto \<Rightarrow> nat \<Rightarrow> string \<Rightarrow> string \<Rightarrow> (ca_error, ca) result" where
  "LoadCA cr ref certPEM keyPEM =
     (case load_certificate cr certPEM of
        Inl e \<Rightarrow> Inl e
      | Inr cert \<Rightarrow>
          (case pem_decode cr keyPEM of
             None \<Rightarrow> Inl KeyNotPEM
           | Some (_, bytes) \<Rightarrow>
               (case parsePrivateKey cr bytes of
                  Inl e \<Rightarrow> Inl e
                | Inr key \<Rightarrow>
                    Inr \<lparr>ca_Ref = ref, ca_Certificate = cert, ca_Key = Some key,
                         ca_CertPEM = pem_encode cr ''CERTIFICATE'' (x_Raw cert)\<rparr>)))"

definition LoadCACert :: "crypto \<Rightarrow> nat \<Rightarrow> string \<Rightarrow> (ca_error, ca) result" where
  "LoadCACert cr ref certPEM =
     (case load_certificate cr certPEM of
        Inl e \<Rightarrow> Inl e
      | Inr cert \<Rightarrow>
          Inr \<lparr>ca_Ref = ref, ca_Certificate = cert, ca_Key = None,
               ca_CertPEM = pem_encode cr ''CERTIFICATE'' (x_Raw cert)\<rparr>)"

section \<open>What loading guarantees\<close>

lemma load_certificate_CA: "load_certificate cr p = Inr cert \<Longrightarrow> x_IsCA cert"
  by (auto simp: load_certificate_def split: option.splits if_splits sum.splits)

lemma LoadCA_parts:
  "LoadCA cr ref p k = Inr c \<Longrightarrow>
     load_certificate cr p = Inr (ca_Certificate c) \<and> ca_Ref c = ref \<and> ca_Key c \<noteq> None"
  by (auto simp: LoadCA_def split: sum.splits option.splits)

lemma LoadCACert_parts:
  "LoadCACert cr ref p = Inr c \<Longrightarrow>
     load_certificate cr p = Inr (ca_Certificate c) \<and> ca_Ref c = ref \<and> ca_Key c = None"
  by (auto simp: LoadCACert_def split: sum.splits)

text \<open>
  The documented behaviour of the codecs on what they wrote themselves: PEM decodes what it
  encoded, a created certificate parses to the template's fields with its encoding in \<open>Raw\<close>
  and its times cut to whole seconds, and a marshalled PKCS8 key parses to the key.
\<close>

definition encoded :: "x509 \<Rightarrow> string \<Rightarrow> x509" where
  "encoded tmpl der = tmpl\<lparr>x_Raw := der, x_NotBefore := x_NotBefore tmpl div second * second,
     x_NotAfter := x_NotAfter tmpl div second * second\<rparr>"

definition codec_laws :: "crypto \<Rightarrow> bool" where
  "codec_laws cr \<longleftrightarrow>
     (\<forall>ty der. pem_decode cr (pem_encode cr ty der) = Some (ty, der)) \<and>
     (\<forall>tmpl parent pub priv der. cr_create cr tmpl parent pub priv = Inr der \<longrightarrow>
        cr_parse cr der = Inr (encoded tmpl der)) \<and>
     (\<forall>key der. cr_marshal cr (Some key) = Inr der \<longrightarrow> cr_pkcs8 cr der = Inr (Signer key))"

lemma GenerateCA_parts:
  assumes "codec_laws cr" "GenerateCA cr ref now name validity = Inr c"
  shows "\<exists>key serial der v. v = (if validity \<le> 0 then DefaultCAValidity else validity) \<and>
    ca_Key c = Some key \<and> ca_Ref c = ref \<and>
    ca_Certificate c = encoded (ca_template name v serial now) der \<and>
    cr_parse cr der = Inr (ca_Certificate c) \<and>
    ca_CertPEM c = pem_encode cr ''CERTIFICATE'' der"
  using assms by (fastforce simp: GenerateCA_def codec_laws_def Let_def split: sum.splits)

lemma LoadCA_GenerateCA:
  assumes laws: "codec_laws cr"
    and gen: "GenerateCA cr ref now name validity = Inr c"
    and key: "MarshalKey cr c = Inr keyPEM"
  shows "LoadCA cr ref (ca_CertPEM c) keyPEM = Inr c"
proof -
  from GenerateCA_parts [OF laws gen] obtain k serial der v where
    c: "ca_Key c = Some k" "ca_Ref c = ref"
       "ca_Certificate c = encoded (ca_template name v serial now) der"
       "cr_parse cr der = Inr (ca_Certificate c)" "ca_CertPEM c = pem_encode cr ''CERTIFICATE'' der"
    by blast
  from key c(1) obtain kder where
    m: "cr_marshal cr (Some k) = Inr kder" "keyPEM = pem_encode cr ''PRIVATE KEY'' kder"
    by (auto simp: MarshalKey_def split: sum.splits)
  from laws have pem: "pem_decode cr (pem_encode cr ty b) = Some (ty, b)" for ty b
    by (simp add: codec_laws_def)
  from laws m(1) have p8: "cr_pkcs8 cr kder = Inr (Signer k)" by (auto simp: codec_laws_def)
  have isca: "x_IsCA (ca_Certificate c)" by (simp add: c(3) ca_template_def encoded_def)
  have raw: "x_Raw (ca_Certificate c) = der" by (simp add: c(3) encoded_def)
  have "load_certificate cr (ca_CertPEM c) = Inr (ca_Certificate c)"
    by (simp add: load_certificate_def c(4,5) pem isca)
  moreover have "parsePrivateKey cr kder = Inr k" by (simp add: parsePrivateKey_def p8)
  ultimately have "LoadCA cr ref (ca_CertPEM c) keyPEM =
      Inr \<lparr>ca_Ref = ref, ca_Certificate = ca_Certificate c, ca_Key = Some k,
           ca_CertPEM = pem_encode cr ''CERTIFICATE'' der\<rparr>"
    by (simp add: LoadCA_def m(2) pem raw)
  also have "\<dots> = Inr c" using c by (cases c) simp
  finally show ?thesis .
qed

text \<open>During a rotation tenants trust both authorities: each one's PEM block is in the bundle.\<close>

lemma PEM_both:
  "PEM \<lparr>b_Current = Some c, b_Next = Some n\<rparr> = ca_CertPEM c @ ca_CertPEM n"
  by (simp add: PEM_def)

end
