(* ===== verification/Cabundle.thy ===== *)
theory Cabundle
  imports Store Authority Config
begin

text \<open>
  \<open>internal/cabundle/controller.go\<close>: the controller that publishes the trust bundle as a ConfigMap.
  The Kubernetes API is a service: its four calls are a record of functions on an abstract
  cluster state, and what the controller relies on about them is the locale \<open>configmap_api\<close>,
  interpreted on a cluster held in memory whose calls can be made to fail.
\<close>

section \<open>The cluster as the controller sees it\<close>

definition managedByLabel :: string where "managedByLabel = ''app.kubernetes.io/managed-by''"
definition managedByValue :: string where "managedByValue = ''proxy-relay-control''"
definition BundleKey :: string where "BundleKey = ''ca.crt''"
definition DefaultConfigMapName :: string where "DefaultConfigMapName = ''relay-ca-bundle''"

record configmap =
  cm_Name :: string
  cm_Namespace :: string
  cm_Labels :: labels
  cm_Data :: labels

record kube_namespace =
  ns_Name :: string
  ns_Labels :: labels
  ns_Deleting :: bool

datatype api_error = NotFound | AlreadyExists | ApiFailed string

type_synonym object_key = "string \<times> string"

record 's api =
  api_List :: "'s \<Rightarrow> (string, kube_namespace list) result"
  api_Get :: "object_key \<Rightarrow> 's \<Rightarrow> (api_error, configmap) result"
  api_Create :: "configmap \<Rightarrow> 's \<Rightarrow> api_error option \<times> 's"
  api_Update :: "configmap \<Rightarrow> 's \<Rightarrow> api_error option \<times> 's"
  api_Delete :: "configmap \<Rightarrow> 's \<Rightarrow> api_error option \<times> 's"

datatype sync_error =
    EmptyBundle
  | ListNamespaces string
  | BadSelector string string
  | CreateFailed object_key api_error
  | ReadFailed object_key api_error
  | NotManaged object_key
  | UpdateFailed object_key api_error
  | DeleteFailed object_key api_error
  | SyncFailed nat sync_error

definition managed :: "configmap \<Rightarrow> bool" where
  "managed cm \<longleftrightarrow> cm_Labels cm managedByLabel = Some managedByValue"

section \<open>The operations\<close>

definition cm_key :: "configmap \<Rightarrow> object_key" where
  "cm_key cm = (cm_Namespace cm, cm_Name cm)"

definition new_configmap :: "string \<Rightarrow> string \<Rightarrow> string \<Rightarrow> configmap" where
  "new_configmap name namespace bdl =
     \<lparr>cm_Name = name, cm_Namespace = namespace, cm_Labels = [managedByLabel \<mapsto> managedByValue],
      cm_Data = [BundleKey \<mapsto> bdl]\<rparr>"

definition publish :: "'s api \<Rightarrow> string \<Rightarrow> string \<Rightarrow> string \<Rightarrow> 's \<Rightarrow> sync_error option \<times> 's" where
  "publish api name namespace bdl s =
     (let key = (namespace, name) in
      case api_Get api key s of
        Inl NotFound \<Rightarrow>
          (case api_Create api (new_configmap name namespace bdl) s of
             (Some e, s') \<Rightarrow> if e \<noteq> AlreadyExists then (Some (CreateFailed key e), s') else (None, s')
           | (None, s') \<Rightarrow> (None, s'))
      | Inl e \<Rightarrow> (Some (ReadFailed key e), s)
      | Inr existing \<Rightarrow>
          if \<not> managed existing then (Some (NotManaged key), s)
          else if cm_Data existing BundleKey = Some bdl then (None, s)
          else (case api_Update api (existing\<lparr>cm_Data := [BundleKey \<mapsto> bdl]\<rparr>) s of
                  (Some e, s') \<Rightarrow> (Some (UpdateFailed key e), s')
                | (None, s') \<Rightarrow> (None, s')))"

definition remove :: "'s api \<Rightarrow> string \<Rightarrow> string \<Rightarrow> 's \<Rightarrow> sync_error option \<times> 's" where
  "remove api name namespace s =
     (let key = (namespace, name) in
      case api_Get api key s of
        Inl NotFound \<Rightarrow> (None, s)
      | Inl e \<Rightarrow> (Some (ReadFailed key e), s)
      | Inr existing \<Rightarrow>
          if \<not> managed existing then (None, s)
          else (case api_Delete api existing s of
                  (Some e, s') \<Rightarrow> if e \<noteq> NotFound then (Some (DeleteFailed key e), s') else (None, s')
                | (None, s') \<Rightarrow> (None, s')))"

fun inspected_loop ::
    "'ls as_selector \<Rightarrow> 'ls egress_policy list \<Rightarrow> (labels \<Rightarrow> bool) list \<Rightarrow>
     (sync_error, (labels \<Rightarrow> bool) list) result" where
  "inspected_loop as_sel [] out = Inr out"
| "inspected_loop as_sel (pol # pols) out =
     (case sel_Namespace (pol_Selector pol) of
        None \<Rightarrow> inspected_loop as_sel pols out
      | Some sel \<Rightarrow>
          (case as_sel sel of
             Inl e \<Rightarrow> Inl (BadSelector (pol_Name pol) e)
           | Inr parsed \<Rightarrow> inspected_loop as_sel pols (out @ [parsed])))"

definition inspectedSelectors ::
    "'ls as_selector \<Rightarrow> 'ls snapshot \<Rightarrow> (sync_error, (labels \<Rightarrow> bool) list) result" where
  "inspectedSelectors as_sel snap = inspected_loop as_sel (InspectedPolicies snap) []"

fun matchesAny :: "(labels \<Rightarrow> bool) list \<Rightarrow> labels \<Rightarrow> bool" where
  "matchesAny [] ls = False"
| "matchesAny (sel # sels) ls = (if sel ls then True else matchesAny sels ls)"

text \<open>The loop over the namespaces; \<open>errs\<close> collects what failed.\<close>

definition sync_one ::
    "'s api \<Rightarrow> string \<Rightarrow> string \<Rightarrow> (labels \<Rightarrow> bool) list \<Rightarrow> kube_namespace \<Rightarrow> 's \<Rightarrow> sync_error option \<times> 's" where
  "sync_one api name bdl sels ns s =
     (if ns_Deleting ns then (None, s)
      else if matchesAny sels (ns_Labels ns) then publish api name (ns_Name ns) bdl s
      else remove api name (ns_Name ns) s)"

fun sync_loop ::
    "'s api \<Rightarrow> string \<Rightarrow> string \<Rightarrow> (labels \<Rightarrow> bool) list \<Rightarrow> kube_namespace list \<Rightarrow> sync_error list \<Rightarrow> 's \<Rightarrow>
     sync_error list \<times> 's" where
  "sync_loop api name bdl sels [] errs s = (errs, s)"
| "sync_loop api name bdl sels (ns # nss) errs s =
     (case sync_one api name bdl sels ns s of
        (Some e, s') \<Rightarrow> sync_loop api name bdl sels nss (errs @ [e]) s'
      | (None, s') \<Rightarrow> sync_loop api name bdl sels nss errs s')"

definition Sync ::
    "'s api \<Rightarrow> 'ls as_selector \<Rightarrow> string \<Rightarrow> trust_bundle \<Rightarrow> 'ls snapshot \<Rightarrow> 's \<Rightarrow> sync_error option \<times> 's" where
  "Sync api as_sel name b snap s =
     (let bdl = PEM b in
      if bdl = [] then (Some EmptyBundle, s)
      else (case api_List api s of
              Inl e \<Rightarrow> (Some (ListNamespaces e), s)
            | Inr namespaces \<Rightarrow>
                (case inspectedSelectors as_sel snap of
                   Inl e \<Rightarrow> (Some e, s)
                 | Inr sels \<Rightarrow>
                     (case sync_loop api name bdl sels namespaces [] s of
                        ([], s') \<Rightarrow> (None, s')
                      | (e # es, s') \<Rightarrow> (Some (SyncFailed (Suc (length es)) e), s')))))"

section \<open>Which namespaces are selected\<close>

lemma matchesAny_iff: "matchesAny sels ls \<longleftrightarrow> (\<exists>sel\<in>set sels. sel ls)"
  by (induction sels) auto

lemma inspected_loop_Inr:
  "inspected_loop as_sel pols out = Inr sels \<Longrightarrow>
     \<exists>parsed. sels = out @ parsed \<and>
       (\<forall>ls. (\<exists>sel\<in>set parsed. sel ls) \<longleftrightarrow>
          (\<exists>pol\<in>set pols. \<exists>ns f. sel_Namespace (pol_Selector pol) = Some ns \<and> as_sel ns = Inr f \<and> f ls))"
proof (induction pols arbitrary: out)
  case (Cons pol pols)
  show ?case
  proof (cases "sel_Namespace (pol_Selector pol)")
    case None
    with Cons.prems have "inspected_loop as_sel pols out = Inr sels" by simp
    from Cons.IH [OF this] None show ?thesis by auto
  next
    case (Some ns)
    with Cons.prems obtain f where f: "as_sel ns = Inr f" "inspected_loop as_sel pols (out @ [f]) = Inr sels"
      by (auto split: sum.splits)
    from Cons.IH [OF f(2)] obtain parsed where p: "sels = (out @ [f]) @ parsed"
      "\<forall>ls. (\<exists>sel\<in>set parsed. sel ls) \<longleftrightarrow>
         (\<exists>pol\<in>set pols. \<exists>ns f. sel_Namespace (pol_Selector pol) = Some ns \<and> as_sel ns = Inr f \<and> f ls)" by blast
    with f(1) Some show ?thesis by (intro exI [of _ "f # parsed"]) auto
  qed
qed simp

text \<open>A namespace is given the bundle when an inspecting policy selects it.\<close>

definition wants_bundle :: "'ls as_selector \<Rightarrow> 'ls snapshot \<Rightarrow> labels \<Rightarrow> bool" where
  "wants_bundle as_sel snap ls \<longleftrightarrow>
     (\<exists>pol\<in>set (snap_policies snap). has_inspect pol \<and>
        (\<exists>ns f. sel_Namespace (pol_Selector pol) = Some ns \<and> as_sel ns = Inr f \<and> f ls))"

lemma inspectedSelectors_match:
  "inspectedSelectors as_sel snap = Inr sels \<Longrightarrow> matchesAny sels ls \<longleftrightarrow> wants_bundle as_sel snap ls"
  using inspected_loop_Inr [of as_sel "InspectedPolicies snap" "[]" sels]
  by (auto simp: inspectedSelectors_def matchesAny_iff wants_bundle_def InspectedPolicies_def)

section \<open>What the controller relies on\<close>

text \<open>
  \<open>view\<close> is what the cluster holds under each key. A read returns what is there or fails; a
  create, an update and a delete change their own key only, or fail without effect; a create does
  not replace an object.
\<close>

locale configmap_api =
  fixes api :: "'s api" and view :: "'s \<Rightarrow> object_key \<rightharpoonup> configmap"
  assumes get_found: "api_Get api key s = Inr cm \<Longrightarrow> view s key = Some cm \<and> cm_key cm = key"
    and get_absent: "api_Get api key s = Inl NotFound \<Longrightarrow> view s key = None"
    and created: "api_Create api cm s = (None, t) \<Longrightarrow> view s (cm_key cm) = None \<and> view t = (view s)(cm_key cm \<mapsto> cm)"
    and updated: "api_Update api cm s = (None, t) \<Longrightarrow> view t = (view s)(cm_key cm \<mapsto> cm)"
    and deleted: "api_Delete api cm s = (None, t) \<Longrightarrow> view t = (view s)(cm_key cm := None)"
    and failed: "api_Create api cm s = (Some e, t) \<Longrightarrow> view t = view s"
      "api_Update api cm s = (Some e, t) \<Longrightarrow> view t = view s"
      "api_Delete api cm s = (Some e, t) \<Longrightarrow> view t = view s"
    and exists: "api_Create api cm s = (Some AlreadyExists, t) \<Longrightarrow> view s (cm_key cm) \<noteq> None"
    and gone: "api_Delete api cm s = (Some NotFound, t) \<Longrightarrow> view s (cm_key cm) = None"
begin

text \<open>
  One namespace: only the key of the controller in that namespace can change, and only when it
  held nothing or a ConfigMap the controller manages; what it holds then is managed, or nothing.
\<close>

definition touches :: "object_key \<Rightarrow> 's \<Rightarrow> 's \<Rightarrow> bool" where
  "touches key s t \<longleftrightarrow>
     (\<forall>k. k \<noteq> key \<longrightarrow> view t k = view s k) \<and>
     (view t key \<noteq> view s key \<longrightarrow>
        (\<forall>cm. view s key = Some cm \<longrightarrow> managed cm) \<and> (\<forall>cm. view t key = Some cm \<longrightarrow> managed cm))"

lemma touches_same: "view t = view s \<Longrightarrow> touches key s t"
  by (simp add: touches_def)

lemma new_configmap_simps [simp]:
  "cm_key (new_configmap name namespace bdl) = (namespace, name)"
  "managed (new_configmap name namespace bdl)"
  "cm_Data (new_configmap name namespace bdl) = [BundleKey \<mapsto> bdl]"
  by (simp_all add: new_configmap_def cm_key_def managed_def)

lemma data_update_simps [simp]:
  "cm_key (cm\<lparr>cm_Data := d\<rparr>) = cm_key cm" "managed (cm\<lparr>cm_Data := d\<rparr>) = managed cm"
  by (simp_all add: cm_key_def managed_def)

lemma publish_touches:
  assumes "publish api name namespace bdl s = (r, t)"
  shows "touches (namespace, name) s t \<and>
    (r = None \<longrightarrow> (\<exists>cm. view t (namespace, name) = Some cm \<and> managed cm \<and> cm_Data cm BundleKey = Some bdl))"
proof (cases "api_Get api (namespace, name) s")
  case (Inl e)
  show ?thesis
  proof (cases "e = NotFound")
    case True
    obtain c u where c: "api_Create api (new_configmap name namespace bdl) s = (c, u)" by fastforce
    have absent: "view s (namespace, name) = None" using get_absent Inl True by simp
    show ?thesis
    proof (cases c)
      case None
      with created [of "new_configmap name namespace bdl" s u] c
      have "view u = (view s)((namespace, name) \<mapsto> new_configmap name namespace bdl)" by simp
      with assms Inl True c None absent show ?thesis by (auto simp: publish_def touches_def)
    next
      case (Some f)
      with failed(1) c have same: "view u = view s" by blast
      from exists [of "new_configmap name namespace bdl" s u] c Some absent have "f \<noteq> AlreadyExists" by auto
      with assms Inl True c Some same show ?thesis by (auto simp: publish_def touches_same)
    qed
  next
    case False
    with assms Inl show ?thesis by (cases e) (auto simp: publish_def touches_same)
  qed
next
  case (Inr existing)
  from get_found [OF this] have held: "view s (namespace, name) = Some existing" "cm_key existing = (namespace, name)"
    by auto
  consider "\<not> managed existing" | "managed existing" "cm_Data existing BundleKey = Some bdl"
    | "managed existing" "cm_Data existing BundleKey \<noteq> Some bdl" by blast
  then show ?thesis
  proof cases
    case 3
    obtain c u where c: "api_Update api (existing\<lparr>cm_Data := [BundleKey \<mapsto> bdl]\<rparr>) s = (c, u)" by fastforce
    show ?thesis
    proof (cases c)
      case None
      with updated c held(2) have
        "view u = (view s)((namespace, name) \<mapsto> existing\<lparr>cm_Data := [BundleKey \<mapsto> bdl]\<rparr>)" by fastforce
      with assms Inr 3 c None held show ?thesis by (auto simp: publish_def touches_def)
    next
      case (Some f)
      with failed(2) c have "view u = view s" by blast
      with assms Inr 3 c Some show ?thesis by (auto simp: publish_def touches_same)
    qed
  qed (use assms Inr held in \<open>auto simp: publish_def touches_same\<close>)
qed

lemma remove_touches:
  assumes "remove api name namespace s = (r, t)"
  shows "touches (namespace, name) s t \<and>
    (r = None \<longrightarrow> (\<forall>cm. view t (namespace, name) = Some cm \<longrightarrow> \<not> managed cm))"
proof (cases "api_Get api (namespace, name) s")
  case (Inl e)
  with assms get_absent [of "(namespace, name)" s] show ?thesis
    by (cases e) (auto simp: remove_def touches_same)
next
  case (Inr existing)
  from get_found [OF this] have held: "view s (namespace, name) = Some existing" "cm_key existing = (namespace, name)"
    by auto
  obtain c u where c: "api_Delete api existing s = (c, u)" by fastforce
  show ?thesis
  proof (cases c)
    case None
    with deleted [of existing s u] c held have "view u = (view s)((namespace, name) := None)" by simp
    with assms Inr c None held show ?thesis by (auto simp: remove_def touches_def split: if_splits)
  next
    case (Some f)
    with failed(3) c have same: "view u = view s" by blast
    from gone [of existing s u] c Some held have "f \<noteq> NotFound" by auto
    with assms Inr c Some same held show ?thesis by (auto simp: remove_def touches_same split: if_splits)
  qed
qed

lemma touches_other: "touches key s t \<Longrightarrow> k \<noteq> key \<Longrightarrow> view t k = view s k"
  by (simp only: touches_def) blast

lemma touches_foreign: "touches key s t \<Longrightarrow> view s k = Some cm \<Longrightarrow> \<not> managed cm \<Longrightarrow> view t k = Some cm"
proof (cases "k = key")
  case True
  assume "touches key s t" "view s k = Some cm" "\<not> managed cm"
  with True show ?thesis by (auto simp only: touches_def)
next
  case False
  assume "touches key s t" "view s k = Some cm"
  with touches_other [OF _ False] show ?thesis by simp
qed

lemma sync_one_touches:
  "sync_one api name bdl sels ns s = (r, t) \<Longrightarrow> touches (ns_Name ns, name) s t"
  using publish_touches remove_touches by (auto simp: sync_one_def touches_same split: if_splits)

text \<open>A ConfigMap of somebody else survives every synchronisation as it is.\<close>

lemma sync_loop_foreign:
  assumes "view s key = Some cm" "\<not> managed cm"
  shows "view (snd (sync_loop api name bdl sels nss errs s)) key = Some cm"
  using assms(1)
proof (induction nss arbitrary: errs s)
  case (Cons ns nss)
  obtain r t where one: "sync_one api name bdl sels ns s = (r, t)" by fastforce
  from touches_foreign [OF sync_one_touches [OF one] Cons.prems assms(2)]
  have "view t key = Some cm" .
  from Cons.IH [OF this] one show ?case by (cases r) auto
qed simp

lemma sync_loop_other:
  assumes "\<forall>ns\<in>set nss. key \<noteq> (ns_Name ns, name)"
  shows "view (snd (sync_loop api name bdl sels nss errs s)) key = view s key"
  using assms
proof (induction nss arbitrary: errs s)
  case (Cons ns nss)
  obtain r t where one: "sync_one api name bdl sels ns s = (r, t)" by fastforce
  from touches_other [OF sync_one_touches [OF one], of key] Cons.prems have "view t key = view s key" by simp
  with Cons one show ?case by (cases r) auto
qed simp

text \<open>The state a namespace is in when its round succeeded.\<close>

definition settled :: "string \<Rightarrow> string \<Rightarrow> (labels \<Rightarrow> bool) list \<Rightarrow> kube_namespace \<Rightarrow> 's \<Rightarrow> bool" where
  "settled name bdl sels ns t \<longleftrightarrow>
     (if matchesAny sels (ns_Labels ns)
      then (\<exists>cm. view t (ns_Name ns, name) = Some cm \<and> managed cm \<and> cm_Data cm BundleKey = Some bdl)
      else (\<forall>cm. view t (ns_Name ns, name) = Some cm \<longrightarrow> \<not> managed cm))"

lemma sync_one_settles:
  "sync_one api name bdl sels ns s = (None, t) \<Longrightarrow> \<not> ns_Deleting ns \<Longrightarrow> settled name bdl sels ns t"
  using publish_touches [of name "ns_Name ns" bdl s None t] remove_touches [of name "ns_Name ns" s None t]
  by (auto simp: sync_one_def settled_def split: if_splits)

lemma sync_loop_errs: "sync_loop api name bdl sels nss errs s = (out, t) \<Longrightarrow> prefix errs out"
proof (induction nss arbitrary: errs s)
  case (Cons ns nss)
  obtain r u where one: "sync_one api name bdl sels ns s = (r, u)" by fastforce
  show ?case
  proof (cases r)
    case None
    with Cons one show ?thesis by simp
  next
    case (Some e)
    with Cons.prems one have "sync_loop api name bdl sels nss (errs @ [e]) u = (out, t)" by simp
    from Cons.IH [OF this] show ?thesis by (rule append_prefixD)
  qed
qed simp

lemma sync_loop_settles:
  assumes "sync_loop api name bdl sels nss [] s = ([], t)" "distinct (map ns_Name nss)"
    and "ns \<in> set nss" "\<not> ns_Deleting ns"
  shows "settled name bdl sels ns t"
  using assms(1-3)
proof (induction nss arbitrary: s)
  case (Cons x nss)
  obtain r u where one: "sync_one api name bdl sels x s = (r, u)" by fastforce
  have r: "r = None"
  proof (cases r)
    case (Some e)
    with Cons.prems(1) one have "sync_loop api name bdl sels nss [e] u = ([], t)" by simp
    from sync_loop_errs [OF this] show ?thesis by simp
  qed
  with Cons.prems(1) one have rest: "sync_loop api name bdl sels nss [] u = ([], t)" by simp
  show ?case
  proof (cases "ns = x")
    case True
    from sync_one_settles [of name bdl sels x s u] one r True assms(4) have "settled name bdl sels x u" by simp
    moreover from Cons.prems(2) have "\<forall>y\<in>set nss. (ns_Name x, name) \<noteq> (ns_Name y, name)" by force
    then have "view t (ns_Name x, name) = view u (ns_Name x, name)"
      using sync_loop_other [of nss "(ns_Name x, name)" name bdl sels "[]" u] rest by simp
    ultimately show ?thesis using True by (simp add: settled_def)
  next
    case False
    with Cons.prems Cons.IH [OF rest] show ?thesis by simp
  qed
qed simp

lemma Sync_foreign:
  assumes "view s key = Some cm" "\<not> managed cm \<or> snd key \<noteq> name"
  shows "view (snd (Sync api as_sel name b snap s)) key = Some cm"
proof -
  have "view (snd (sync_loop api name bdl sels nss [] s)) key = Some cm" for bdl sels nss
  proof (cases "managed cm")
    case True
    with assms have "\<forall>ns\<in>set nss. key \<noteq> (ns_Name ns, name)" by auto
    with sync_loop_other assms(1) show ?thesis by simp
  next
    case False
    with sync_loop_foreign assms(1) show ?thesis by blast
  qed
  then have "view u key = Some cm" if "sync_loop api name bdl sels nss [] s = (errs, u)" for bdl sels nss errs u
    using that by (metis snd_conv)
  with assms(1) show ?thesis
    by (auto simp: Sync_def Let_def split: sum.split prod.split list.split)
qed

lemma Sync_settles:
  assumes "Sync api as_sel name b snap s = (None, t)" "api_List api s = Inr nss"
    and "distinct (map ns_Name nss)" "ns \<in> set nss" "\<not> ns_Deleting ns"
  shows "if wants_bundle as_sel snap (ns_Labels ns)
    then \<exists>cm. view t (ns_Name ns, name) = Some cm \<and> managed cm \<and> cm_Data cm BundleKey = Some (PEM b)
    else \<forall>cm. view t (ns_Name ns, name) = Some cm \<longrightarrow> \<not> managed cm"
proof -
  from assms(1,2) obtain sels where sels: "inspectedSelectors as_sel snap = Inr sels"
    and loop: "sync_loop api name (PEM b) sels nss [] s = ([], t)"
    by (auto simp: Sync_def Let_def split: sum.splits prod.splits list.splits if_splits)
  from sync_loop_settles [OF loop assms(3-5)] inspectedSelectors_match [OF sels] show ?thesis
    by (simp add: settled_def)
qed

end

section \<open>A cluster in memory\<close>

text \<open>
  The interface on a cluster that is a map, with the calls the \<open>faulty\<close> predicate names failing.
\<close>

type_synonym cluster = "kube_namespace list \<times> (object_key \<rightharpoonup> configmap)"

definition held :: "cluster \<Rightarrow> object_key \<rightharpoonup> configmap" where
  "held s key = map_option (\<lambda>cm. cm\<lparr>cm_Namespace := fst key, cm_Name := snd key\<rparr>) (snd s key)"

definition memory_api :: "(string \<Rightarrow> object_key \<Rightarrow> bool) \<Rightarrow> cluster api" where
  "memory_api faulty =
     \<lparr>api_List = (\<lambda>s. Inr (fst s)),
      api_Get = (\<lambda>key s. if faulty ''get'' key then Inl (ApiFailed ''get'')
                         else case held s key of None \<Rightarrow> Inl NotFound | Some cm \<Rightarrow> Inr cm),
      api_Create = (\<lambda>cm s. if faulty ''create'' (cm_key cm) then (Some (ApiFailed ''create''), s)
                           else if snd s (cm_key cm) \<noteq> None then (Some AlreadyExists, s)
                           else (None, (fst s, (snd s)(cm_key cm \<mapsto> cm)))),
      api_Update = (\<lambda>cm s. if faulty ''update'' (cm_key cm) then (Some (ApiFailed ''update''), s)
                           else if snd s (cm_key cm) = None then (Some NotFound, s)
                           else (None, (fst s, (snd s)(cm_key cm \<mapsto> cm)))),
      api_Delete = (\<lambda>cm s. if faulty ''delete'' (cm_key cm) then (Some (ApiFailed ''delete''), s)
                           else if snd s (cm_key cm) = None then (Some NotFound, s)
                           else (None, (fst s, (snd s)(cm_key cm := None))))\<rparr>"

lemma held_simps:
  "held (nss, m(key \<mapsto> cm)) = (held (nss, m))(key \<mapsto> cm\<lparr>cm_Namespace := fst key, cm_Name := snd key\<rparr>)"
  "held (nss, m(key := None)) = (held (nss, m))(key := None)"
  "held s key = None \<longleftrightarrow> snd s key = None"
  by (auto simp: held_def fun_eq_iff)

lemma cm_key_place [simp]:
  "cm\<lparr>cm_Namespace := fst (cm_key cm), cm_Name := snd (cm_key cm)\<rparr> = cm"
  by (cases cm) (simp add: cm_key_def)

interpretation memory: configmap_api "memory_api faulty" held for faulty
proof unfold_locales
  show "held s key = Some cm \<and> cm_key cm = key" if "api_Get (memory_api faulty) key s = Inr cm" for key s cm
    using that by (auto simp: memory_api_def held_def cm_key_def split: if_splits option.splits)
  show "held s key = None" if "api_Get (memory_api faulty) key s = Inl NotFound" for key s
    using that by (auto simp: memory_api_def split: if_splits option.splits)
  show "held s (cm_key cm) = None \<and> held t = (held s)(cm_key cm \<mapsto> cm)"
    if "api_Create (memory_api faulty) cm s = (None, t)" for cm s t
    using that by (cases s) (auto simp: memory_api_def held_simps split: if_splits)
  show "held t = (held s)(cm_key cm \<mapsto> cm)" if "api_Update (memory_api faulty) cm s = (None, t)" for cm s t
    using that by (cases s) (auto simp: memory_api_def held_simps split: if_splits)
  show "held t = (held s)(cm_key cm := None)" if "api_Delete (memory_api faulty) cm s = (None, t)" for cm s t
    using that by (cases s) (auto simp: memory_api_def held_simps split: if_splits)
  show "held t = held s" if "api_Create (memory_api faulty) cm s = (Some e, t)" for cm s t e
    using that by (auto simp: memory_api_def split: if_splits)
  show "held t = held s" if "api_Update (memory_api faulty) cm s = (Some e, t)" for cm s t e
    using that by (auto simp: memory_api_def split: if_splits)
  show "held t = held s" if "api_Delete (memory_api faulty) cm s = (Some e, t)" for cm s t e
    using that by (auto simp: memory_api_def split: if_splits)
  show "held s (cm_key cm) \<noteq> None" if "api_Create (memory_api faulty) cm s = (Some AlreadyExists, t)" for cm s t
    using that by (auto simp: memory_api_def held_def split: if_splits)
  show "held s (cm_key cm) = None" if "api_Delete (memory_api faulty) cm s = (Some NotFound, t)" for cm s t
    using that by (auto simp: memory_api_def held_def split: if_splits)
qed

section \<open>The controller\<close>

text \<open>
  \<open>New\<close>: \<open>given\<close> says whether client, store and issuer are all there. \<open>Start\<close> synchronises at once
  and then on every tick; a round is the bundle and the snapshot it reads and what the rest of the
  cluster did since the round before. A failed round is logged and the loop goes on.
\<close>

record controller =
  ct_name :: string
  ct_interval :: int

definition controller_New :: "bool \<Rightarrow> string \<Rightarrow> int \<Rightarrow> controller option" where
  "controller_New given name interval =
     (if \<not> given then None
      else Some \<lparr>ct_name = (if name = [] then DefaultConfigMapName else name),
                 ct_interval = (if interval \<le> 0 then seconds 30 else interval)\<rparr>)"

fun controller_Start ::
    "'s api \<Rightarrow> 'ls as_selector \<Rightarrow> controller \<Rightarrow> (trust_bundle \<times> 'ls snapshot \<times> ('s \<Rightarrow> 's)) list \<Rightarrow> 's \<Rightarrow>
     sync_error option list \<times> 's" where
  "controller_Start api as_sel ct [] s = ([], s)"
| "controller_Start api as_sel ct ((b, snap, others) # rounds) s =
     (let (r, s1) = Sync api as_sel (ct_name ct) b snap s;
          (rs, t) = controller_Start api as_sel ct rounds (others s1)
      in (r # rs, t))"

lemma controller_New_interval:
  "controller_New given name interval = Some ct \<Longrightarrow> 0 < ct_interval ct \<and> ct_name ct \<noteq> []"
  by (auto simp: controller_New_def seconds_def DefaultConfigMapName_def split: if_splits)

context configmap_api
begin

text \<open>Over any number of rounds the controller itself never changes what is not its own.\<close>

lemma controller_Start_foreign:
  assumes "view s key = Some cm" "\<not> managed cm"
    and "\<And>b snap others u. (b, snap, others) \<in> set rounds \<Longrightarrow> view u key = Some cm \<Longrightarrow> view (others u) key = Some cm"
  shows "view (snd (controller_Start api as_sel ct rounds s)) key = Some cm"
  using assms(1,3)
proof (induction rounds arbitrary: s)
  case (Cons round rounds)
  obtain b snap others where round: "round = (b, snap, others)" by (cases round) auto
  have "view (snd (Sync api as_sel (ct_name ct) b snap s)) key = Some cm"
    by (rule Sync_foreign [OF Cons.prems(1)]) (simp add: assms(2))
  with Cons.prems(2) round have
    "view (others (snd (Sync api as_sel (ct_name ct) b snap s))) key = Some cm" by auto
  then have "view (snd (controller_Start api as_sel ct rounds
      (others (snd (Sync api as_sel (ct_name ct) b snap s))))) key = Some cm"
    by (rule Cons.IH) (rule Cons.prems(2), auto)
  with round show ?case by (simp add: case_prod_beta)
qed simp

end

end
