(* ===== verification/Issuer.thy ===== *)
theory Issuer
  imports Authority Matching "HOL-Library.Signed_Division"
begin

text \<open>
  \<open>internal/tlsbump/issuer.go\<close>: the issuer of leaf certificates. The cache is the code's pair of
  a map from hosts to list elements and a list of elements, most recently used first; an
  element is named by its allocation number. \<open>Certificate\<close> runs in two critical sections with
  the minting between them, and so it is modelled twice: as one function for a call that runs
  alone, and as the step relation of calls that interleave with each other and with
  \<open>SetBundle\<close>. Times are integers in nanoseconds.
\<close>

section \<open>State\<close>

record tls_cert =
  tc_Certificate :: "string list"
  tc_PrivateKey :: nat
  tc_Leaf :: x509

record cache_entry =
  ce_key :: string
  ce_cert :: tls_cert
  ce_expires :: int
  ce_signer :: nat

type_synonym element = "nat \<times> cache_entry"

record issuer =
  is_bundle :: trust_bundle
  is_validity :: int
  is_maxSize :: nat
  is_entries :: "string \<rightharpoonup> nat"
  is_order :: "element list"
  is_fresh :: nat

datatype issuer_error =
    NoCurrentCA
  | EmptyHost
  | LeafKey string string
  | LeafSerial ca_error
  | SignLeaf string string
  | ParseLeaf string string

datatype leaf_metric = HitLeaf | MintLeaf | ErrorLeaf

definition DefaultLeafValidity :: int where "DefaultLeafValidity = 24 * 3600 * second"
definition DefaultCacheSize :: int where "DefaultCacheSize = 1024"

definition NewIssuer :: "trust_bundle option \<Rightarrow> int \<Rightarrow> int \<Rightarrow> (issuer_error, issuer) result" where
  "NewIssuer bdl validity maxSize =
     (case bdl of
        None \<Rightarrow> Inl NoCurrentCA
      | Some b \<Rightarrow>
          if b_Current b = None then Inl NoCurrentCA
          else Inr \<lparr>is_bundle = b,
                    is_validity = (if validity \<le> 0 then DefaultLeafValidity else validity),
                    is_maxSize = nat (if maxSize \<le> 0 then DefaultCacheSize else maxSize),
                    is_entries = Map.empty, is_order = [], is_fresh = 0\<rparr>)"

definition SetBundle :: "trust_bundle option \<Rightarrow> issuer \<Rightarrow> issuer" where
  "SetBundle bdl i =
     (case bdl of
        None \<Rightarrow> i
      | Some b \<Rightarrow> if b_Current b = None then i else i\<lparr>is_bundle := b\<rparr>)"

text \<open>\<open>GetCertificate\<close> of \<open>ServerConfig\<close>: the name a handshake asks a certificate for.\<close>

definition handshake_name :: "string \<Rightarrow> string \<Rightarrow> string" where
  "handshake_name fallbackHost serverName = (if serverName = [] then fallbackHost else serverName)"

section \<open>Minting\<close>

fun AsSlice :: "addr \<Rightarrow> 8 word list" where
  "AsSlice (V4 w) = map (\<lambda>k. ucast (drop_bit (8 * k) w)) [3, 2, 1, 0]"
| "AsSlice (V6 w z) = map (\<lambda>k. ucast (drop_bit (8 * k) w)) (rev [0 ..< 16])"

definition leaf_template :: "string \<Rightarrow> int \<Rightarrow> nat \<Rightarrow> int \<Rightarrow> x509" where
  "leaf_template host validity serial now =
     (let base = zero_x509\<lparr>x_Serial := serial, x_CommonName := host,
            x_NotBefore := now - 300 * second, x_NotAfter := now + validity,
            x_KeyUsage := {KeyUsageDigitalSignature, KeyUsageKeyEncipherment},
            x_ExtKeyUsage := [ExtKeyUsageServerAuth]\<rparr> in
      case ParseAddr host of
        Some a \<Rightarrow> base\<lparr>x_IPAddresses := [AsSlice a]\<rparr>
      | None \<Rightarrow> base\<lparr>x_DNSNames := [host]\<rparr>)"

definition mint ::
    "crypto \<Rightarrow> int \<Rightarrow> int \<Rightarrow> ca \<Rightarrow> string \<Rightarrow> (issuer_error, tls_cert \<times> int) result" where
  "mint cr now validity c host =
     (case cr_key cr of
        Inl e \<Rightarrow> Inl (LeafKey host e)
      | Inr key \<Rightarrow>
          (case randomSerial cr of
             Inl e \<Rightarrow> Inl (LeafSerial e)
           | Inr serial \<Rightarrow>
               (let notAfter = now + validity;
                    tmpl = leaf_template host validity serial now in
                case cr_create cr tmpl (ca_Certificate c) key (ca_Key c) of
                  Inl e \<Rightarrow> Inl (SignLeaf host e)
                | Inr der \<Rightarrow>
                    (case cr_parse cr der of
                       Inl e \<Rightarrow> Inl (ParseLeaf host e)
                     | Inr leaf \<Rightarrow>
                         Inr (\<lparr>tc_Certificate = [der, x_Raw (ca_Certificate c)],
                               tc_PrivateKey = key, tc_Leaf = leaf\<rparr>, notAfter)))))"

section \<open>The cache\<close>

definition element_at :: "nat \<Rightarrow> issuer \<Rightarrow> element option" where
  "element_at e i = find (\<lambda>el. fst el = e) (is_order i)"

definition removeLocked :: "element \<Rightarrow> issuer \<Rightarrow> issuer" where
  "removeLocked el i =
     i\<lparr>is_entries := (is_entries i)(ce_key (snd el) := None),
       is_order := filter (\<lambda>x. fst x \<noteq> fst el) (is_order i)\<rparr>"

definition moveToFront :: "element \<Rightarrow> issuer \<Rightarrow> issuer" where
  "moveToFront el i = i\<lparr>is_order := el # filter (\<lambda>x. fst x \<noteq> fst el) (is_order i)\<rparr>"

definition pushFront :: "cache_entry \<Rightarrow> issuer \<Rightarrow> issuer" where
  "pushFront c i =
     i\<lparr>is_entries := (is_entries i)(ce_key c \<mapsto> is_fresh i),
       is_order := (is_fresh i, c) # is_order i,
       is_fresh := Suc (is_fresh i)\<rparr>"

text \<open>The loop that removes the last element while the list is longer than \<open>maxSize\<close>.\<close>

function evict :: "issuer \<Rightarrow> issuer" where
  "evict i = (if is_maxSize i < length (is_order i) then evict (removeLocked (last (is_order i)) i)
              else i)"
  by pat_completeness auto

lemma filter_last_shorter:
  assumes "xs \<noteq> []" shows "length (filter (\<lambda>x. fst x \<noteq> fst (last xs)) xs) < length xs"
  using assms by (intro length_filter_less [of "last xs"]) auto

termination evict
proof (relation "measure (\<lambda>i. length (is_order i))")
  fix i :: issuer
  assume "is_maxSize i < length (is_order i)"
  then have "is_order i \<noteq> []" by auto
  from filter_last_shorter [OF this]
  show "(removeLocked (last (is_order i)) i, i) \<in> measure (\<lambda>i. length (is_order i))"
    by (simp add: removeLocked_def)
qed simp

declare evict.simps [simp del]

text \<open>An entry serves a call when it is fresh and was signed by the authority the call uses.\<close>

definition usable :: "int \<Rightarrow> ca \<Rightarrow> cache_entry \<Rightarrow> bool" where
  "usable now c entry \<longleftrightarrow> now < ce_expires entry \<and> ce_signer entry = ca_Ref c"

text \<open>
  The lookup both critical sections begin with: a usable entry moves to the front and is the
  answer, an unusable one is removed.
\<close>

definition probe :: "int \<Rightarrow> ca \<Rightarrow> string \<Rightarrow> issuer \<Rightarrow> tls_cert option \<times> issuer" where
  "probe now c host i =
     (case is_entries i host of
        None \<Rightarrow> (None, i)
      | Some e \<Rightarrow>
          (case element_at e i of
             None \<Rightarrow> (None, i)
           | Some el \<Rightarrow>
               if usable now c (snd el) then (Some (ce_cert (snd el)), moveToFront el i)
               else (None, removeLocked el i)))"

text \<open>The second critical section: probe again, and insert the minted leaf on a miss.\<close>

definition store ::
    "int \<Rightarrow> ca \<Rightarrow> string \<Rightarrow> tls_cert \<Rightarrow> int \<Rightarrow> issuer \<Rightarrow> tls_cert \<times> leaf_metric option \<times> issuer" where
  "store now c host cert notAfter i =
     (case probe now c host i of
        (Some cached, i') \<Rightarrow> (cached, None, i')
      | (None, i') \<Rightarrow>
          (cert, Some MintLeaf,
           evict (pushFront \<lparr>ce_key = host, ce_cert = cert,
                             ce_expires = notAfter + (- is_validity i') sdiv 2,
                             ce_signer = ca_Ref c\<rparr> i')))"

text \<open>
  \<open>Certificate\<close> for a call that runs alone: \<open>t1\<close>, \<open>t2\<close> and \<open>t3\<close> are the readings of the clock.
\<close>

definition Certificate ::
    "crypto \<Rightarrow> int \<times> int \<times> int \<Rightarrow> string \<Rightarrow> issuer \<Rightarrow>
     (issuer_error, tls_cert) result \<times> leaf_metric option \<times> issuer" where
  "Certificate cr ts host0 i =
     (let host = canonicalHost host0; (t1, t2, t3) = ts in
      if host = [] then (Inl EmptyHost, None, i)
      else (case b_Current (is_bundle i) of
              None \<Rightarrow> (Inl NoCurrentCA, None, i)
            | Some c \<Rightarrow>
                (case probe t1 c host i of
                   (Some cert, i1) \<Rightarrow> (Inr cert, Some HitLeaf, i1)
                 | (None, i1) \<Rightarrow>
                     (case mint cr t2 (is_validity i1) c host of
                        Inl e \<Rightarrow> (Inl e, Some ErrorLeaf, i1)
                      | Inr (cert, notAfter) \<Rightarrow>
                          (let (r, m, i2) = store t3 c host cert notAfter i1 in (Inr r, m, i2))))))"

section \<open>The cache invariant\<close>

text \<open>
  The elements are distinct and older than the next allocation, the map holds exactly the
  elements of the list under their hosts, and the list is no longer than \<open>maxSize\<close>.
\<close>

definition linked :: "issuer \<Rightarrow> bool" where
  "linked i \<longleftrightarrow>
     distinct (map fst (is_order i)) \<and> (\<forall>el\<in>set (is_order i). fst el < is_fresh i) \<and>
     (\<forall>host e. is_entries i host = Some e \<longleftrightarrow>
        (\<exists>c. (e, c) \<in> set (is_order i) \<and> ce_key c = host))"

definition configured :: "issuer \<Rightarrow> bool" where
  "configured i \<longleftrightarrow> b_Current (is_bundle i) \<noteq> None \<and> 0 < is_validity i \<and> 0 < is_maxSize i"

definition issuer_ok :: "issuer \<Rightarrow> bool" where
  "issuer_ok i \<longleftrightarrow> configured i \<and> linked i \<and> length (is_order i) \<le> is_maxSize i"

text \<open>The cache as its client sees it: hosts and entries, most recently used first.\<close>

definition lru :: "issuer \<Rightarrow> (string \<times> cache_entry) list" where
  "lru i = map (\<lambda>el. (ce_key (snd el), snd el)) (is_order i)"

lemma linked_entry:
  "linked i \<Longrightarrow> el \<in> set (is_order i) \<Longrightarrow> is_entries i (ce_key (snd el)) = Some (fst el)"
  unfolding linked_def by (metis prod.collapse)

lemma linked_unique:
  assumes "linked i" "x \<in> set (is_order i)" "y \<in> set (is_order i)"
    and "fst x = fst y \<or> ce_key (snd x) = ce_key (snd y)"
  shows "x = y"
proof -
  from assms linked_entry [OF assms(1,2)] linked_entry [OF assms(1,3)] have "fst x = fst y" by auto
  moreover have "inj_on fst (set (is_order i))" using assms(1) by (simp add: linked_def distinct_map)
  ultimately show ?thesis using assms(2,3) by (auto dest: inj_onD)
qed

lemma linked_filter:
  assumes "linked i" "el \<in> set (is_order i)"
  shows "filter (\<lambda>x. fst x \<noteq> fst el) (is_order i) =
    filter (\<lambda>x. ce_key (snd x) \<noteq> ce_key (snd el)) (is_order i)"
  using linked_unique [OF assms(1) _ assms(2)] by (intro filter_cong refl) blast

lemma linked_distinct_keys:
  assumes "linked i" shows "distinct (map fst (lru i))"
proof -
  have "distinct (map fst (is_order i))" using assms by (simp add: linked_def)
  then have "distinct (is_order i)" by (simp add: distinct_map)
  moreover have "inj_on (\<lambda>el. ce_key (snd el)) (set (is_order i))"
    using linked_unique [OF assms] by (intro inj_onI) blast
  ultimately show ?thesis by (simp add: lru_def comp_def distinct_map)
qed

text \<open>A lookup through the map and the element is a lookup of the host in the list.\<close>

lemma linked_lookup:
  assumes "linked i"
  obtains (absent) "is_entries i host = None" "map_of (lru i) host = None"
  | (present) el where "is_entries i host = Some (fst el)" "element_at (fst el) i = Some el"
      "el \<in> set (is_order i)" "ce_key (snd el) = host" "map_of (lru i) host = Some (snd el)"
proof (cases "is_entries i host")
  case None
  have "host \<notin> fst ` set (lru i)"
  proof
    assume "host \<in> fst ` set (lru i)"
    then obtain el where "el \<in> set (is_order i)" "ce_key (snd el) = host" by (auto simp: lru_def)
    with linked_entry [OF assms] None show False by fastforce
  qed
  with None show ?thesis by (intro absent) (simp_all add: map_of_eq_None_iff)
next
  case (Some e)
  with assms obtain c where mem: "(e, c) \<in> set (is_order i)" and key: "ce_key c = host"
    unfolding linked_def by blast
  have "element_at e i = Some (e, c)" unfolding element_at_def
  proof (rule find_unique [OF mem])
    show "y = (e, c)" if "y \<in> set (is_order i)" "fst y = e" for y
      using linked_unique [OF assms that(1) mem] that(2) by simp
  qed simp
  moreover have "map_of (lru i) host = Some c"
    using mem key linked_distinct_keys [OF assms]
    by (intro map_of_is_SomeI) (auto simp: lru_def intro!: image_eqI [of _ _ "(e, c)"])
  ultimately show ?thesis using Some mem key by (intro present [of "(e, c)"]) simp_all
qed

lemma removeLocked_linked:
  assumes "linked i" "el \<in> set (is_order i)" shows "linked (removeLocked el i)"
proof -
  have "(removeLocked el i) = i\<lparr>is_entries := (is_entries i)(ce_key (snd el) := None),
      is_order := filter (\<lambda>x. ce_key (snd x) \<noteq> ce_key (snd el)) (is_order i)\<rparr>"
    by (simp add: removeLocked_def linked_filter [OF assms])
  with assms(1) show ?thesis unfolding linked_def by (auto simp: distinct_map_filter)
qed

lemma removeLocked_lru:
  assumes "linked i" "el \<in> set (is_order i)"
  shows "lru (removeLocked el i) = filter (\<lambda>p. fst p \<noteq> ce_key (snd el)) (lru i)"
  by (simp add: removeLocked_def lru_def filter_map comp_def linked_filter [OF assms])

lemma moveToFront_linked:
  assumes "linked i" "el \<in> set (is_order i)" shows "linked (moveToFront el i)"
proof -
  have "set (is_order (moveToFront el i)) = set (is_order i)"
    using assms(2) linked_unique [OF assms(1) _ assms(2)] unfolding moveToFront_def by fastforce
  moreover have "distinct (map fst (is_order (moveToFront el i)))"
    using assms(1) by (auto simp: moveToFront_def linked_def distinct_map_filter)
  ultimately show ?thesis using assms(1) by (simp add: linked_def) (simp add: moveToFront_def)
qed

lemma moveToFront_lru:
  assumes "linked i" "el \<in> set (is_order i)"
  shows "lru (moveToFront el i) =
    (ce_key (snd el), snd el) # filter (\<lambda>p. fst p \<noteq> ce_key (snd el)) (lru i)"
  by (simp add: moveToFront_def lru_def filter_map comp_def linked_filter [OF assms])

lemma moveToFront_length:
  assumes "linked i" "el \<in> set (is_order i)"
  shows "length (is_order (moveToFront el i)) = length (is_order i)"
  using assms length_filter_other [of fst "is_order i" el] by (simp add: moveToFront_def linked_def)

lemma pushFront_linked:
  assumes "linked i" "is_entries i (ce_key c) = None" shows "linked (pushFront c i)"
proof -
  have "ce_key d \<noteq> ce_key c" if "(e, d) \<in> set (is_order i)" for e d
    using linked_entry [OF assms(1) that] assms(2) by auto
  moreover have "e < is_fresh i" if "(e, d) \<in> set (is_order i)" for e d
    using assms(1) that by (auto simp: linked_def)
  ultimately show ?thesis using assms(1)
    by (fastforce simp: linked_def pushFront_def less_Suc_eq image_iff)
qed

lemma pushFront_lru: "lru (pushFront c i) = (ce_key c, c) # lru i"
  by (simp add: pushFront_def lru_def)

lemma filter_last_butlast:
  "xs \<noteq> [] \<Longrightarrow> distinct (map f xs) \<Longrightarrow> filter (\<lambda>x. f x \<noteq> f (last xs)) xs = butlast xs"
  by (induction xs rule: rev_induct) (auto simp: filter_id_conv image_iff)

lemma evict_spec:
  "linked i \<Longrightarrow> linked (evict i) \<and> is_order (evict i) = take (is_maxSize i) (is_order i) \<and>
     is_bundle (evict i) = is_bundle i \<and> is_validity (evict i) = is_validity i \<and>
     is_maxSize (evict i) = is_maxSize i"
proof (induction i rule: evict.induct)
  case (1 i)
  show ?case
  proof (cases "is_maxSize i < length (is_order i)")
    case True
    let ?j = "removeLocked (last (is_order i)) i"
    from True have ne: "is_order i \<noteq> []" by auto
    from 1(2) ne have lj: "linked ?j" by (intro removeLocked_linked) simp_all
    have oj: "is_order ?j = butlast (is_order i)"
      using filter_last_butlast [OF ne, of fst] 1(2) by (simp add: removeLocked_def linked_def)
    have "take (is_maxSize i) (butlast (is_order i)) = take (is_maxSize i) (is_order i)"
      using True by (simp add: butlast_conv_take)
    with 1(1) [OF True lj] oj True show ?thesis
      by (simp add: evict.simps [of i]) (simp add: removeLocked_def)
  next
    case False
    with 1(2) show ?thesis by (simp add: evict.simps [of i])
  qed
qed

lemma probe_cases:
  assumes "linked i"
  obtains (absent) "probe now c host i = (None, i)" "map_of (lru i) host = None"
  | (fresh) el where "probe now c host i = (Some (ce_cert (snd el)), moveToFront el i)"
      "el \<in> set (is_order i)" "ce_key (snd el) = host" "usable now c (snd el)"
      "map_of (lru i) host = Some (snd el)"
  | (stale) el where "probe now c host i = (None, removeLocked el i)"
      "el \<in> set (is_order i)" "ce_key (snd el) = host" "\<not> usable now c (snd el)"
      "map_of (lru i) host = Some (snd el)"
proof (cases rule: linked_lookup [OF assms, of host])
  case 1
  then show ?thesis by (intro absent) (simp_all add: probe_def)
next
  case (2 el)
  then show ?thesis by (cases "usable now c (snd el)") (auto simp: probe_def intro: fresh stale)
qed

section \<open>The cache is a least-recently-used list\<close>

text \<open>
  The specification: a list of hosts and entries. A probe moves a usable entry to the front and
  drops an unusable one; a store puts a new entry in front and cuts the list at its bound.
\<close>

definition lru_probe ::
    "int \<Rightarrow> ca \<Rightarrow> string \<Rightarrow> (string \<times> cache_entry) list \<Rightarrow> tls_cert option \<times> (string \<times> cache_entry) list" where
  "lru_probe now c host xs =
     (let rest = filter (\<lambda>p. fst p \<noteq> host) xs in
      case map_of xs host of
        None \<Rightarrow> (None, xs)
      | Some entry \<Rightarrow>
          if usable now c entry then (Some (ce_cert entry), (host, entry) # rest) else (None, rest))"

definition lru_store ::
    "int \<Rightarrow> ca \<Rightarrow> nat \<Rightarrow> cache_entry \<Rightarrow> (string \<times> cache_entry) list \<Rightarrow>
     tls_cert \<times> (string \<times> cache_entry) list" where
  "lru_store now c bound entry xs =
     (case lru_probe now c (ce_key entry) xs of
        (Some cached, ys) \<Rightarrow> (cached, ys)
      | (None, ys) \<Rightarrow> (ce_cert entry, take bound ((ce_key entry, entry) # ys)))"

definition entry_for :: "int \<Rightarrow> ca \<Rightarrow> string \<Rightarrow> tls_cert \<Rightarrow> int \<Rightarrow> cache_entry" where
  "entry_for validity c host cert notAfter =
     \<lparr>ce_key = host, ce_cert = cert, ce_expires = notAfter + (- validity) sdiv 2,
      ce_signer = ca_Ref c\<rparr>"

lemma entry_for_simps [simp]:
  "ce_key (entry_for v c host cert notAfter) = host"
  "ce_cert (entry_for v c host cert notAfter) = cert"
  "ce_signer (entry_for v c host cert notAfter) = ca_Ref c"
  by (simp_all add: entry_for_def)

lemma half_validity: "0 < v \<Longrightarrow> v sdiv 2 = v div (2::int)"
  by (simp add: signed_divide_int_def sgn_if)

text \<open>Probing keeps the configuration and the invariant, and does what the specification does.\<close>

definition same_config :: "issuer \<Rightarrow> issuer \<Rightarrow> bool" where
  "same_config i j \<longleftrightarrow> is_bundle j = is_bundle i \<and> is_validity j = is_validity i \<and>
     is_maxSize j = is_maxSize i"

lemma cache_ops_config [simp]:
  "same_config i (removeLocked el i)" "same_config i (moveToFront el i)"
  "same_config i (pushFront e i)" "same_config i i"
  by (simp_all add: same_config_def removeLocked_def moveToFront_def pushFront_def)

lemma same_config_trans: "same_config i j \<Longrightarrow> same_config j k \<Longrightarrow> same_config i k"
  by (simp add: same_config_def)

lemma same_config_configured: "same_config i j \<Longrightarrow> configured j = configured i"
  by (simp add: same_config_def configured_def)

lemma probe_refines:
  assumes "linked i"
  shows "lru_probe now c host (lru i) = map_prod id lru (probe now c host i)"
  using assms
  by (cases rule: probe_cases [OF assms, of now c host])
    (simp_all add: lru_probe_def Let_def moveToFront_lru removeLocked_lru)

lemma probe_keeps:
  assumes "linked i" "length (is_order i) \<le> is_maxSize i" and pr: "probe now c host i = (r, j)"
  shows "linked j \<and> length (is_order j) \<le> is_maxSize j \<and> same_config i j \<and>
    set (is_order j) \<subseteq> set (is_order i)"
proof (cases rule: probe_cases [OF assms(1), of now c host])
  case 1
  with assms show ?thesis by simp
next
  case (2 el)
  with pr have j: "j = moveToFront el i" by simp
  with assms moveToFront_linked [OF assms(1) 2(2)] moveToFront_length [OF assms(1) 2(2)]
    2(2) show ?thesis by (simp add: same_config_def) (auto simp: moveToFront_def)
next
  case (3 el)
  with pr have j: "j = removeLocked el i" by simp
  have "length (is_order (removeLocked el i)) \<le> is_maxSize i"
    using assms(2) by (simp add: removeLocked_def le_trans [OF length_filter_le])
  with assms j removeLocked_linked [OF assms(1) 3(2)] show ?thesis
    by (simp add: same_config_def) (auto simp: removeLocked_def)
qed

lemma probe_miss_absent:
  assumes "linked i" "probe now c host i = (None, j)" shows "is_entries j host = None"
proof (cases rule: probe_cases [OF assms(1), of now c host])
  case 1
  with assms show ?thesis by (cases rule: linked_lookup [OF assms(1), of host]) auto
next
  case (3 el)
  with assms show ?thesis by (auto simp: removeLocked_def)
qed (use assms in auto)

lemma probe_hit:
  assumes "linked i" "probe now c host i = (Some cert, j)"
  shows "\<exists>e entry. (e, entry) \<in> set (is_order i) \<and> ce_key entry = host \<and> usable now c entry \<and>
    cert = ce_cert entry"
  using assms by (cases rule: probe_cases [OF assms(1), of now c host]) (simp_all, metis prod.collapse)

text \<open>Storing: what is left when the probe misses, and when a concurrent call was faster.\<close>

lemma store_cases:
  obtains (cached) cert' j where "probe now c host i = (Some cert', j)"
      "store now c host cert notAfter i = (cert', None, j)"
  | (insert) j where "probe now c host i = (None, j)"
      "store now c host cert notAfter i =
         (cert, Some MintLeaf, evict (pushFront (entry_for (is_validity j) c host cert notAfter) j))"
  by (cases "probe now c host i"; cases "fst (probe now c host i)")
    (auto simp: store_def entry_for_def)

lemma store_refines:
  assumes lk: "linked i" and st: "store now c host cert notAfter i = (r, m, j)"
  shows "lru_store now c (is_maxSize i) (entry_for (is_validity i) c host cert notAfter) (lru i) =
    (r, lru j)"
proof (cases rule: store_cases [of now c host i cert notAfter])
  case (cached cert' k)
  with st probe_refines [OF lk, of now c host] show ?thesis by (simp add: lru_store_def)
next
  case (insert k)
  let ?e = "entry_for (is_validity k) c host cert notAfter"
  have cfg: "is_validity k = is_validity i" "is_maxSize k = is_maxSize i" and lk': "linked k"
    using lk insert(1) removeLocked_linked [OF lk]
    by (cases rule: probe_cases [OF lk, of now c host]; auto simp: removeLocked_def)+
  have lp: "linked (pushFront ?e k)"
    using probe_miss_absent [OF lk insert(1)] by (intro pushFront_linked lk') simp
  have "is_order (evict (pushFront ?e k)) = take (is_maxSize k) ((is_fresh k, ?e) # is_order k)"
    using evict_spec [OF lp] by (simp add: pushFront_def)
  then have "lru (evict (pushFront ?e k)) = take (is_maxSize i) ((host, ?e) # lru k)"
    by (simp add: lru_def cfg(2) flip: take_map)
  with insert st cfg probe_refines [OF lk, of now c host] show ?thesis by (simp add: lru_store_def)
qed

lemma store_keeps:
  assumes "linked i" "length (is_order i) \<le> is_maxSize i"
    and st: "store now c host cert notAfter i = (r, m, j)"
  shows "linked j \<and> length (is_order j) \<le> is_maxSize j \<and> same_config i j \<and>
    snd ` set (is_order j) \<subseteq> insert (entry_for (is_validity i) c host cert notAfter) (snd ` set (is_order i))"
proof (cases rule: store_cases [of now c host i cert notAfter])
  case (cached cert' k)
  with st probe_keeps [OF assms(1,2) cached(1)] show ?thesis by auto
next
  case (insert k)
  let ?e = "entry_for (is_validity k) c host cert notAfter"
  from probe_keeps [OF assms(1,2) insert(1)] have k: "linked k" "same_config i k"
    "set (is_order k) \<subseteq> set (is_order i)" by auto
  have lp: "linked (pushFront ?e k)"
    using probe_miss_absent [OF assms(1) insert(1)] by (intro pushFront_linked k(1)) simp
  from trans [OF st [symmetric] insert(2)] have j: "j = evict (pushFront ?e k)" by simp
  have "set (is_order j) \<subseteq> insert (is_fresh k, ?e) (set (is_order k))"
    using evict_spec [OF lp] set_take_subset [of "is_maxSize k" "is_order (pushFront ?e k)"]
    by (simp add: j) (simp add: pushFront_def)
  then have "snd ` set (is_order j) \<subseteq> insert ?e (snd ` set (is_order i))" using k(3) by force
  with evict_spec [OF lp] k(2) show ?thesis by (simp add: j same_config_def pushFront_def)
qed

section \<open>Where cached leaves come from\<close>

text \<open>
  \<open>heap\<close> gives the certificate at each address. A leaf is issued for a host by the authority at
  \<open>ref\<close> when some run of \<open>mint\<close> with that authority returned it.
\<close>

definition issued :: "(nat \<Rightarrow> x509) \<Rightarrow> int \<Rightarrow> string \<Rightarrow> nat \<Rightarrow> tls_cert \<Rightarrow> int \<Rightarrow> bool" where
  "issued heap v host ref cert notAfter \<longleftrightarrow>
     (\<exists>cr t c. ca_Ref c = ref \<and> ca_Certificate c = heap ref \<and> mint cr t v c host = Inr (cert, notAfter))"

definition vouched :: "(nat \<Rightarrow> x509) \<Rightarrow> int \<Rightarrow> cache_entry \<Rightarrow> bool" where
  "vouched heap v entry \<longleftrightarrow>
     (\<exists>notAfter. issued heap v (ce_key entry) (ce_signer entry) (ce_cert entry) notAfter \<and>
        ce_expires entry = notAfter - v div 2)"

lemma mint_chain:
  "mint cr t v c host = Inr (cert, notAfter) \<Longrightarrow>
     notAfter = t + v \<and> (\<exists>der. tc_Certificate cert = [der, x_Raw (ca_Certificate c)])"
  by (auto simp: mint_def Let_def split: sum.splits)

lemma mint_leaf:
  assumes "codec_laws cr" "mint cr t v c host = Inr (cert, notAfter)"
  shows "\<exists>serial der. tc_Leaf cert = encoded (leaf_template host v serial t) der"
  using assms by (fastforce simp: mint_def codec_laws_def Let_def split: sum.splits)

lemma issued_chain:
  "issued heap v host ref cert notAfter \<Longrightarrow> \<exists>der. tc_Certificate cert = [der, x_Raw (heap ref)]"
  using mint_chain by (fastforce simp: issued_def)

lemma entry_for_vouched:
  "0 < v \<Longrightarrow> issued heap v host (ca_Ref c) cert notAfter \<Longrightarrow>
     vouched heap v (entry_for v c host cert notAfter)"
  by (auto simp: vouched_def entry_for_def half_validity)

definition placed :: "(nat \<Rightarrow> x509) \<Rightarrow> trust_bundle \<Rightarrow> bool" where
  "placed heap b \<longleftrightarrow> (\<forall>c. b_Current b = Some c \<longrightarrow> ca_Certificate c = heap (ca_Ref c))"

section \<open>Interleaved calls\<close>

text \<open>
  A call is either about to mint or about to store; \<open>ms_handed\<close> records what calls returned, for
  which host and authority, when, and whether it came from the cache.
\<close>

datatype leaf_call =
    Minting string ca
  | Storing string ca tls_cert int

record handed =
  hd_host :: string
  hd_ca :: ca
  hd_cert :: tls_cert
  hd_time :: int
  hd_cached :: bool

record issuer_sys =
  ms_issuer :: issuer
  ms_clock :: int
  ms_calls :: "leaf_call list"
  ms_handed :: "handed list"

inductive issuer_step :: "(nat \<Rightarrow> x509) \<Rightarrow> issuer_sys \<Rightarrow> issuer_sys \<Rightarrow> bool" for heap where
  tick: "ms_clock s \<le> t \<Longrightarrow> issuer_step heap s (s\<lparr>ms_clock := t\<rparr>)"
| rotate: "placed heap b \<Longrightarrow>
    issuer_step heap s (s\<lparr>ms_issuer := SetBundle (Some b) (ms_issuer s)\<rparr>)"
| serve: "host \<noteq> [] \<Longrightarrow> b_Current (is_bundle (ms_issuer s)) = Some c \<Longrightarrow>
    probe (ms_clock s) c host (ms_issuer s) = (Some cert, i) \<Longrightarrow>
    issuer_step heap s (s\<lparr>ms_issuer := i,
      ms_handed := \<lparr>hd_host = host, hd_ca = c, hd_cert = cert, hd_time = ms_clock s, hd_cached = True\<rparr>
        # ms_handed s\<rparr>)"
| miss: "host \<noteq> [] \<Longrightarrow> b_Current (is_bundle (ms_issuer s)) = Some c \<Longrightarrow>
    probe (ms_clock s) c host (ms_issuer s) = (None, i) \<Longrightarrow>
    issuer_step heap s (s\<lparr>ms_issuer := i, ms_calls := Minting host c # ms_calls s\<rparr>)"
| minted: "ms_calls s = as @ Minting host c # bs \<Longrightarrow>
    mint cr (ms_clock s) (is_validity (ms_issuer s)) c host = Inr (cert, notAfter) \<Longrightarrow>
    issuer_step heap s (s\<lparr>ms_calls := as @ Storing host c cert notAfter # bs\<rparr>)"
| failed: "ms_calls s = as @ Minting host c # bs \<Longrightarrow> issuer_step heap s (s\<lparr>ms_calls := as @ bs\<rparr>)"
| stored: "ms_calls s = as @ Storing host c cert notAfter # bs \<Longrightarrow>
    store (ms_clock s) c host cert notAfter (ms_issuer s) = (r, m, i) \<Longrightarrow>
    issuer_step heap s (s\<lparr>ms_issuer := i, ms_calls := as @ bs,
      ms_handed := \<lparr>hd_host = host, hd_ca = c, hd_cert = r, hd_time = ms_clock s, hd_cached = (m = None)\<rparr>
        # ms_handed s\<rparr>)"

inductive_cases issuer_stepE: "issuer_step heap s t"

definition issuer_start :: "(nat \<Rightarrow> x509) \<Rightarrow> issuer_sys \<Rightarrow> bool" where
  "issuer_start heap s \<longleftrightarrow>
     (\<exists>b v n. placed heap b \<and> NewIssuer (Some b) v n = Inr (ms_issuer s)) \<and>
     ms_calls s = [] \<and> ms_handed s = []"

text \<open>
  The invariant: the cache is well linked and bounded, everything cached, in flight or handed
  out was issued for its host by its authority, and nothing was handed out from the cache in
  the second half of its validity.
\<close>

definition call_ok :: "(nat \<Rightarrow> x509) \<Rightarrow> int \<Rightarrow> leaf_call \<Rightarrow> bool" where
  "call_ok heap v k =
     (case k of
        Minting host c \<Rightarrow> ca_Certificate c = heap (ca_Ref c)
      | Storing host c cert notAfter \<Rightarrow> issued heap v host (ca_Ref c) cert notAfter)"

definition handed_ok :: "(nat \<Rightarrow> x509) \<Rightarrow> int \<Rightarrow> handed \<Rightarrow> bool" where
  "handed_ok heap v h \<longleftrightarrow>
     (\<exists>notAfter. issued heap v (hd_host h) (ca_Ref (hd_ca h)) (hd_cert h) notAfter \<and>
        (hd_cached h \<longrightarrow> hd_time h < notAfter - v div 2))"

definition issuer_inv :: "(nat \<Rightarrow> x509) \<Rightarrow> issuer_sys \<Rightarrow> bool" where
  "issuer_inv heap s \<longleftrightarrow>
     issuer_ok (ms_issuer s) \<and> placed heap (is_bundle (ms_issuer s)) \<and>
     (\<forall>e\<in>snd ` set (is_order (ms_issuer s)). vouched heap (is_validity (ms_issuer s)) e) \<and>
     (\<forall>k\<in>set (ms_calls s). call_ok heap (is_validity (ms_issuer s)) k) \<and>
     (\<forall>h\<in>set (ms_handed s). handed_ok heap (is_validity (ms_issuer s)) h)"

lemma NewIssuer_ok:
  "NewIssuer (Some b) v n = Inr i \<Longrightarrow> issuer_ok i \<and> is_bundle i = b \<and> is_order i = []"
  by (auto simp: NewIssuer_def issuer_ok_def configured_def linked_def DefaultLeafValidity_def
      DefaultCacheSize_def second_def split: if_splits)

lemma SetBundle_ok: "issuer_ok i \<Longrightarrow> issuer_ok (SetBundle b i)"
  by (auto simp: SetBundle_def issuer_ok_def configured_def linked_def split: option.splits)

lemma probe_handed:
  assumes "linked i" "probe now c host i = (Some cert, j)"
    and "\<forall>e\<in>snd ` set (is_order i). vouched heap v e"
  shows "handed_ok heap v \<lparr>hd_host = host, hd_ca = c, hd_cert = cert, hd_time = now, hd_cached = k\<rparr>"
proof -
  from probe_hit [OF assms(1,2)] obtain e entry where
    "(e, entry) \<in> set (is_order i)" "ce_key entry = host" "usable now c entry" "cert = ce_cert entry"
    by blast
  moreover from this(1) assms(3) have "vouched heap v entry" by force
  ultimately show ?thesis by (auto simp: handed_ok_def vouched_def usable_def)
qed

lemma issuer_inv_cache:
  assumes inv: "issuer_inv heap s" and cfg: "same_config (ms_issuer s) j"
    and lk: "linked j" "length (is_order j) \<le> is_maxSize j"
    and ent: "\<And>e. e \<in> snd ` set (is_order j) \<Longrightarrow> vouched heap (is_validity (ms_issuer s)) e"
    and calls: "\<And>k. k \<in> set ks \<Longrightarrow> call_ok heap (is_validity (ms_issuer s)) k"
    and handed: "\<And>h. h \<in> set hs \<Longrightarrow> handed_ok heap (is_validity (ms_issuer s)) h"
  shows "issuer_inv heap (s\<lparr>ms_issuer := j, ms_calls := ks, ms_handed := hs\<rparr>)"
  using assms same_config_configured [OF cfg]
  by (simp add: issuer_inv_def issuer_ok_def same_config_def)

lemma issuer_invD:
  assumes "issuer_inv heap s"
  shows "linked (ms_issuer s)" "length (is_order (ms_issuer s)) \<le> is_maxSize (ms_issuer s)"
    "0 < is_validity (ms_issuer s)"
    "b_Current (is_bundle (ms_issuer s)) = Some c \<Longrightarrow> ca_Certificate c = heap (ca_Ref c)"
    "e \<in> snd ` set (is_order (ms_issuer s)) \<Longrightarrow> vouched heap (is_validity (ms_issuer s)) e"
    "k \<in> set (ms_calls s) \<Longrightarrow> call_ok heap (is_validity (ms_issuer s)) k"
    "h \<in> set (ms_handed s) \<Longrightarrow> handed_ok heap (is_validity (ms_issuer s)) h"
  using assms by (auto simp: issuer_inv_def issuer_ok_def configured_def placed_def)

lemma issuer_inv_probe:
  assumes inv: "issuer_inv heap s" and pr: "probe now c host (ms_issuer s) = (r, j)"
    and calls: "\<And>k. k \<in> set ks \<Longrightarrow> call_ok heap (is_validity (ms_issuer s)) k"
    and handed: "\<And>h. h \<in> set hs \<Longrightarrow> handed_ok heap (is_validity (ms_issuer s)) h"
  shows "issuer_inv heap (s\<lparr>ms_issuer := j, ms_calls := ks, ms_handed := hs\<rparr>)"
proof (rule issuer_inv_cache [OF inv _ _ _ _ calls handed])
  note k = probe_keeps [OF issuer_invD(1,2) [OF inv] pr]
  show "same_config (ms_issuer s) j" "linked j" "length (is_order j) \<le> is_maxSize j"
    using k by simp_all
  show "vouched heap (is_validity (ms_issuer s)) e" if "e \<in> snd ` set (is_order j)" for e
    using that k by (intro issuer_invD(5) [OF inv]) blast
qed

lemma issuer_inv_store:
  assumes inv: "issuer_inv heap s" and call: "call_ok heap (is_validity (ms_issuer s)) (Storing host c cert na)"
    and st: "store (ms_clock s) c host cert na (ms_issuer s) = (r, m, j)"
    and calls: "\<And>k. k \<in> set ks \<Longrightarrow> call_ok heap (is_validity (ms_issuer s)) k"
  shows "issuer_inv heap (s\<lparr>ms_issuer := j, ms_calls := ks,
    ms_handed := \<lparr>hd_host = host, hd_ca = c, hd_cert = r, hd_time = ms_clock s, hd_cached = (m = None)\<rparr>
      # ms_handed s\<rparr>)"
proof (rule issuer_inv_cache [OF inv _ _ _ _ calls])
  let ?i = "ms_issuer s" and ?v = "is_validity (ms_issuer s)"
  note k = store_keeps [OF issuer_invD(1,2) [OF inv] st]
  from call have iss: "issued heap ?v host (ca_Ref c) cert na" by (simp add: call_ok_def)
  show "same_config ?i j" "linked j" "length (is_order j) \<le> is_maxSize j" using k by simp_all
  show "vouched heap ?v e" if "e \<in> snd ` set (is_order j)" for e
  proof -
    from that k have "e = entry_for ?v c host cert na \<or> e \<in> snd ` set (is_order ?i)" by blast
    then show ?thesis
      using entry_for_vouched [OF issuer_invD(3) [OF inv] iss] issuer_invD(5) [OF inv] by auto
  qed
  have new: "handed_ok heap ?v \<lparr>hd_host = host, hd_ca = c, hd_cert = r, hd_time = ms_clock s,
      hd_cached = (m = None)\<rparr>"
  proof (cases rule: store_cases [of "ms_clock s" c host ?i cert na])
    case (cached cert' l)
    have "cert' = r" using cached(2) st by simp
    with cached(1) show ?thesis
      by (intro probe_handed [OF issuer_invD(1) [OF inv], of _ _ _ _ l])
        (use issuer_invD(5) [OF inv] in auto)
  next
    case (insert l)
    with st iss show ?thesis by (auto simp: handed_ok_def)
  qed
  show "handed_ok heap ?v h"
    if "h \<in> set (\<lparr>hd_host = host, hd_ca = c, hd_cert = r, hd_time = ms_clock s, hd_cached = (m = None)\<rparr>
      # ms_handed s)" for h
    using that new issuer_invD(7) [OF inv, of h] by (auto simp only: list.set insert_iff)
qed

lemma issuer_inv_step:
  assumes inv: "issuer_inv heap s" and step: "issuer_step heap s t" shows "issuer_inv heap t"
  using step
proof (cases rule: issuer_stepE [consumes 1, case_names tick rotate serve miss minted failed stored])
  case (tick u)
  with inv show ?thesis by (simp add: issuer_inv_def)
next
  case (rotate b)
  have ok: "issuer_ok (SetBundle (Some b) (ms_issuer s))"
    using inv SetBundle_ok by (simp add: issuer_inv_def)
  show ?thesis using inv rotate ok by (auto simp: issuer_inv_def SetBundle_def)
next
  case (serve host c cert i)
  have "issuer_inv heap (s\<lparr>ms_issuer := i, ms_calls := ms_calls s, ms_handed := ms_handed t\<rparr>)"
    using serve issuer_invD(6,7) [OF inv]
      probe_handed [OF issuer_invD(1) [OF inv] serve(4), of heap "is_validity (ms_issuer s)" True]
      issuer_invD(5) [OF inv]
    by (intro issuer_inv_probe [OF inv serve(4)]) auto
  with serve(1) show ?thesis by simp
next
  case (miss host c i)
  have "issuer_inv heap (s\<lparr>ms_issuer := i, ms_calls := Minting host c # ms_calls s, ms_handed := ms_handed s\<rparr>)"
    using issuer_invD(4) [OF inv miss(3)] issuer_invD(6,7) [OF inv]
    by (intro issuer_inv_probe [OF inv miss(4)]) (auto simp: call_ok_def)
  with miss(1) show ?thesis by simp
next
  case (minted as host c bs cr cert notAfter)
  have "call_ok heap (is_validity (ms_issuer s)) (Minting host c)"
    using issuer_invD(6) [OF inv] minted(2) by simp
  then have "call_ok heap (is_validity (ms_issuer s)) (Storing host c cert notAfter)"
    using minted(3) by (auto simp: call_ok_def issued_def)
  with inv minted(1,2) show ?thesis by (simp add: issuer_inv_def)
next
  case (failed as host c bs)
  with inv show ?thesis by (simp add: issuer_inv_def)
next
  case (stored as host c cert notAfter bs r m i)
  have "call_ok heap (is_validity (ms_issuer s)) (Storing host c cert notAfter)"
    using issuer_invD(6) [OF inv] stored(2) by simp
  moreover have "call_ok heap (is_validity (ms_issuer s)) k" if "k \<in> set (as @ bs)" for k
    using issuer_invD(6) [OF inv] stored(2) that by auto
  ultimately show ?thesis unfolding stored(1) by (rule issuer_inv_store [OF inv _ stored(3)])
qed

interpretation issuer_machine: machine_invariant "issuer_start heap" "issuer_step heap" "issuer_inv heap"
  for heap
proof unfold_locales
  show "issuer_inv heap s" if "issuer_start heap s" for s
    using that by (auto simp: issuer_start_def issuer_inv_def dest!: NewIssuer_ok)
qed (rule issuer_inv_step)

text \<open>
  A rotation retires what the previous authority signed: after \<open>SetBundle\<close> with an authority at
  another address, a probe finds no leaf signed before.
\<close>

lemma rotation_discards:
  assumes "linked i" "probe now c host i = (Some cert, j)"
  shows "\<exists>e entry. (e, entry) \<in> set (is_order i) \<and> ce_cert entry = cert \<and> ce_signer entry = ca_Ref c"
  using probe_hit [OF assms] by (auto simp: usable_def)

end
