(* ===== verification/Command.thy ===== *)
theory Command
  imports Config Cabundle Issuer Inspect
begin

text \<open>
  \<open>cmd/relay\<close>: choosing the command, the CA Secret and its rotation, the origin trust roots, the
  start of the service up to the moment it listens, and the preflight check. The Kubernetes
  client, the file system and the certificate pool are parameters.
\<close>

section \<open>Dispatch\<close>

datatype command = Serve "string list" | Preflight "string list" | InitCA "string list" | Help | Unknown string

definition isFlag :: "string \<Rightarrow> bool" where
  "isFlag s \<longleftrightarrow> 0 < length s \<and> s ! 0 = CHR ''-''"

definition run :: "string list \<Rightarrow> command" where
  "run argv =
     (let (command, args) =
        (if 0 < length argv \<and> \<not> isFlag (argv ! 0) then (argv ! 0, tl argv) else (''serve'', argv)) in
      if command = ''serve'' then Serve args
      else if command = ''preflight'' then Preflight args
      else if command = ''init-ca'' then InitCA args
      else if command = ''help'' \<or> command = ''-h'' \<or> command = ''--help'' then Help
      else Unknown command)"

text \<open>The lines \<open>usage\<close> prints, and the commands they name.\<close>

definition usage :: "string list" where
  "usage =
     [''proxy-relay-control'',
      [],
      ''Commands:'',
      ''  serve       run the relay (default)'',
      ''  preflight   check, from inside a pod, that the relay sees the pod'' @ [CHR 0x27] @ ''s own IP'',
      ''  init-ca     generate a relay CA and print the Secret that holds it'',
      [],
      ''Run '' @ [CHR 0x22] @ ''relay <command> -h'' @ [CHR 0x22] @ '' for the flags of a command.'']"

definition usage_commands :: "string list" where
  "usage_commands = map (takeWhile (\<lambda>c. c \<noteq> CHR '' '') \<circ> drop 2) (filter (prefix ''  '') usage)"

text \<open>The usage text and the dispatch name the same commands.\<close>

lemma usage_names_the_commands:
  assumes "\<not> isFlag c" "c \<noteq> ''help''"
  shows "c \<in> set usage_commands \<longleftrightarrow> run (c # args) \<noteq> Unknown c"
proof -
  have "set usage_commands = {''serve'', ''preflight'', ''init-ca''}"
    by (simp add: usage_commands_def usage_def)
  moreover have "c \<noteq> ''-h''" "c \<noteq> ''--help''" using assms(1) by (auto simp: isFlag_def)
  ultimately show ?thesis using assms by (simp add: run_def)
qed

section \<open>The CA Secret\<close>

definition caCertKey :: string where "caCertKey = ''ca.crt''"
definition caKeyKey :: string where "caKeyKey = ''ca.key''"
definition nextCACertKey :: string where "nextCACertKey = ''next-ca.crt''"

type_synonym secret_data = "string \<rightharpoonup> string"

datatype rotation_error =
    CurrentCA ca_error
  | NextCA ca_error
  | ReadCASecret string
  | CreateCASecret string
  | GenerateFailed ca_error

text \<open>A missing key reads as the empty byte slice.\<close>

definition data_at :: "secret_data \<Rightarrow> string \<Rightarrow> string" where
  "data_at d k = (case d k of None \<Rightarrow> [] | Some v \<Rightarrow> v)"

text \<open>\<open>ref\<close> numbers the two certificates this call allocates.\<close>

definition bundleFromSecret :: "crypto \<Rightarrow> nat \<Rightarrow> secret_data \<Rightarrow> (rotation_error, trust_bundle) result" where
  "bundleFromSecret cr ref d =
     (case LoadCA cr ref (data_at d caCertKey) (data_at d caKeyKey) of
        Inl e \<Rightarrow> Inl (CurrentCA e)
      | Inr current \<Rightarrow>
          (case d nextCACertKey of
             None \<Rightarrow> Inr \<lparr>b_Current = Some current, b_Next = None\<rparr>
           | Some next_pem \<Rightarrow>
               if 0 < length next_pem then
                 (case LoadCACert cr (Suc ref) next_pem of
                    Inl e \<Rightarrow> Inl (NextCA e)
                  | Inr nextCA \<Rightarrow> Inr \<lparr>b_Current = Some current, b_Next = Some nextCA\<rparr>)
               else Inr \<lparr>b_Current = Some current, b_Next = None\<rparr>))"

text \<open>\<open>initCASecret\<close>: \<open>created\<close> is what the API server answers to the create.\<close>

definition initCASecret ::
    "crypto \<Rightarrow> nat \<Rightarrow> int \<Rightarrow> (secret_data \<Rightarrow> (string, unit) result) \<Rightarrow>
     (rotation_error, trust_bundle) result \<times> secret_data option" where
  "initCASecret cr ref now created =
     (case GenerateCA cr ref now ''proxy-relay-control'' DefaultCAValidity of
        Inl e \<Rightarrow> (Inl (GenerateFailed e), None)
      | Inr c \<Rightarrow>
          (case MarshalKey cr c of
             Inl e \<Rightarrow> (Inl (GenerateFailed e), None)
           | Inr keyPEM \<Rightarrow>
               (let d = [caCertKey \<mapsto> ca_CertPEM c, caKeyKey \<mapsto> keyPEM] in
                case created d of
                  Inl e \<Rightarrow> (Inl (CreateCASecret e), None)
                | Inr _ \<Rightarrow> (Inr \<lparr>b_Current = Some c, b_Next = None\<rparr>, Some d))))"

datatype get_error = SecretNotFound | GetFailed string

definition loadCABundle ::
    "crypto \<Rightarrow> nat \<Rightarrow> int \<Rightarrow> config \<Rightarrow> (get_error, secret_data) result \<Rightarrow>
     (secret_data \<Rightarrow> (string, unit) result) \<Rightarrow>
     (rotation_error, trust_bundle) result \<times> secret_data option" where
  "loadCABundle cr ref now cfg got created =
     (case got of
        Inl SecretNotFound \<Rightarrow>
          if AutoInitCA cfg then initCASecret cr ref now created
          else (Inl (ReadCASecret ''not found''), None)
      | Inl (GetFailed e) \<Rightarrow> (Inl (ReadCASecret e), None)
      | Inr d \<Rightarrow> (bundleFromSecret cr ref d, None))"

section \<open>Rotation\<close>

text \<open>\<open>Certificate.Equal\<close> compares the encodings.\<close>

definition cert_equal :: "x509 \<Rightarrow> x509 \<Rightarrow> bool" where
  "cert_equal a b \<longleftrightarrow> x_Raw a = x_Raw b"

definition sameNext :: "ca option \<Rightarrow> ca option \<Rightarrow> bool" where
  "sameNext a b =
     (case (a, b) of
        (None, None) \<Rightarrow> True
      | (Some x, Some y) \<Rightarrow> cert_equal (ca_Certificate x) (ca_Certificate y)
      | _ \<Rightarrow> False)"

definition same_bundle :: "trust_bundle \<Rightarrow> trust_bundle \<Rightarrow> bool" where
  "same_bundle current new =
     (case (b_Current current, b_Current new) of
        (Some x, Some y) \<Rightarrow> cert_equal (ca_Certificate x) (ca_Certificate y) \<and> sameNext (b_Next current) (b_Next new)
      | _ \<Rightarrow> False)"

text \<open>One round of \<open>watchCARotation\<close>, after the ticker fired.\<close>

definition rotate_once ::
    "crypto \<Rightarrow> nat \<Rightarrow> (get_error, secret_data) result \<Rightarrow> issuer \<Rightarrow> issuer" where
  "rotate_once cr ref got i =
     (case got of
        Inl _ \<Rightarrow> i
      | Inr d \<Rightarrow>
          (case bundleFromSecret cr ref d of
             Inl _ \<Rightarrow> i
           | Inr b \<Rightarrow> if same_bundle (is_bundle i) b then i else SetBundle (Some b) i))"

text \<open>\<open>time.NewTicker\<close> panics (\<open>None\<close>) on a duration that is not positive.\<close>

definition NewTicker :: "int \<Rightarrow> int option" where
  "NewTicker d = (if d \<le> 0 then None else Some d)"

fun rotate_rounds :: "crypto \<Rightarrow> (nat \<times> (get_error, secret_data) result) list \<Rightarrow> issuer \<Rightarrow> issuer" where
  "rotate_rounds cr [] i = i"
| "rotate_rounds cr ((ref, got) # rounds) i = rotate_rounds cr rounds (rotate_once cr ref got i)"

definition watchCARotation ::
    "crypto \<Rightarrow> config \<Rightarrow> (nat \<times> (get_error, secret_data) result) list \<Rightarrow> issuer \<Rightarrow> issuer option" where
  "watchCARotation cr cfg rounds i =
     (case NewTicker (CASyncInterval cfg) of None \<Rightarrow> None | Some _ \<Rightarrow> Some (rotate_rounds cr rounds i))"

section \<open>Origin trust roots\<close>

text \<open>A pool is a set of certificates; \<open>append_pem\<close> is \<open>AppendCertsFromPEM\<close>.\<close>

datatype origin_error = ReadOriginFile string | NoUsableCertificate string

definition originTLSConfig ::
    "(string \<Rightarrow> (string, string) result) \<Rightarrow> 'pool option \<Rightarrow> 'pool \<Rightarrow> (string \<Rightarrow> 'pool \<Rightarrow> 'pool \<times> bool) \<Rightarrow>
     string \<Rightarrow> (origin_error, ('pool \<times> int) option) result" where
  "originTLSConfig readFile systemPool emptyPool append_pem caFile =
     (if caFile = [] then Inr None
      else (case readFile caFile of
              Inl e \<Rightarrow> Inl (ReadOriginFile e)
            | Inr pem \<Rightarrow>
                (let pool = (case systemPool of None \<Rightarrow> emptyPool | Some p \<Rightarrow> p);
                     (pool', ok) = append_pem pem pool in
                 if \<not> ok then Inl (NoUsableCertificate caFile) else Inr (Some (pool', VersionTLS12)))))"

section \<open>The admin endpoint and the preflight check\<close>

definition readyz :: "bool \<Rightarrow> int \<times> string" where
  "readyz ready = (if \<not> ready then (503, ''caches not synced'') else (200, ''ok''))"

definition observed_ip :: "string \<Rightarrow> string" where
  "observed_ip remoteAddr = (case SplitHostPort remoteAddr of None \<Rightarrow> remoteAddr | Some (host, _) \<Rightarrow> host)"

datatype preflight_error = NoPodIP | RelayUnreachable string | PreflightMismatch string string

definition preflight_endpoint :: "string \<Rightarrow> string" where
  "preflight_endpoint adminURL = TrimSuffix adminURL ''/'' @ ''/observed-ip''"

definition preflight ::
    "(string \<Rightarrow> (string, string) result) \<Rightarrow> string \<Rightarrow> string \<Rightarrow> preflight_error option" where
  "preflight http_get adminURL podIP =
     (if podIP = [] then Some NoPodIP
      else (case http_get (preflight_endpoint adminURL) of
              Inl e \<Rightarrow> Some (RelayUnreachable e)
            | Inr body \<Rightarrow>
                (let observed = TrimSpace (take 256 body) in
                 if observed = podIP then None else Some (PreflightMismatch observed podIP))))"

section \<open>What rotation guarantees\<close>

lemma bundleFromSecret_Inr:
  assumes "bundleFromSecret cr ref d = Inr b"
  shows "\<exists>c. b_Current b = Some c \<and> LoadCA cr ref (data_at d caCertKey) (data_at d caKeyKey) = Inr c \<and>
    (\<forall>n. b_Next b = Some n \<longrightarrow> (\<exists>p. d nextCACertKey = Some p \<and> LoadCACert cr (Suc ref) p = Inr n))"
  using assms by (auto simp: bundleFromSecret_def split: sum.splits option.splits if_splits)

lemma rotate_once_ok: "issuer_ok i \<Longrightarrow> issuer_ok (rotate_once cr ref got i)"
  by (auto simp: rotate_once_def SetBundle_ok split: sum.splits)

lemma rotate_rounds_ok: "issuer_ok i \<Longrightarrow> issuer_ok (rotate_rounds cr rounds i)"
  by (induction cr rounds i rule: rotate_rounds.induct) (simp_all add: rotate_once_ok)

text \<open>
  A round never leaves the relay without a signing authority, and what it signs with afterwards
  is what the Secret holds, or, when the Secret cannot be read or parsed, what it was.
\<close>

lemma rotate_once_bundle:
  "is_bundle (rotate_once cr ref got i) =
     (case got of
        Inl _ \<Rightarrow> is_bundle i
      | Inr d \<Rightarrow> (case bundleFromSecret cr ref d of
                   Inl _ \<Rightarrow> is_bundle i
                 | Inr b \<Rightarrow> if same_bundle (is_bundle i) b then is_bundle i else b))"
  using bundleFromSecret_Inr
  by (fastforce simp: rotate_once_def SetBundle_def split: sum.split)

text \<open>The published bundle follows the Secret: same current certificate, same next certificate.\<close>

lemma same_bundle_certs:
  "same_bundle a b \<Longrightarrow> map_option (\<lambda>c. x_Raw (ca_Certificate c)) (b_Current a) =
     map_option (\<lambda>c. x_Raw (ca_Certificate c)) (b_Current b) \<and>
   map_option (\<lambda>c. x_Raw (ca_Certificate c)) (b_Next a) =
     map_option (\<lambda>c. x_Raw (ca_Certificate c)) (b_Next b)"
  by (auto simp: same_bundle_def sameNext_def cert_equal_def split: option.splits)

end
