(* ===== verification/Examples.thy ===== *)
theory Examples
  imports Inspected Command
begin

text \<open>
  A small deployment the witnesses evaluate on: one policy that grants a tunnel to one host and an
  inspected path on another, one profile, a network on which every call succeeds.
\<close>

definition ex_identity :: identity where
  "ex_identity = \<lparr>id_Namespace = ''ta'', id_Pod = ''p0'', id_ServiceAccount = ''sa'',
     id_PodLabels = Map.empty, id_NamespaceLabels = [''team'' \<mapsto> ''a''], id_SourceIP = V4 0x0A000001\<rparr>"

definition ex_tunnel :: destination where
  "ex_tunnel = \<lparr>dst_Host = ''a.io'', dst_Ports = [], dst_TLSMode = TLSModeTunnel, dst_Paths = []\<rparr>"

definition ex_rule :: path_rule where
  "ex_rule = \<lparr>rule_Path = ''/r'', rule_Exact = False, rule_Methods = [], rule_AllowUpgrade = False\<rparr>"

definition ex_inspect :: destination where
  "ex_inspect = \<lparr>dst_Host = ''b.io'', dst_Ports = [], dst_TLSMode = TLSModeInspect, dst_Paths = [ex_rule]\<rparr>"

definition ex_policy :: "(string \<times> string) list egress_policy" where
  "ex_policy = \<lparr>pol_Name = ''pa'', pol_Selector = \<lparr>sel_Namespace = Some [(''team'', ''a'')], sel_Pod = None\<rparr>,
     pol_Destinations = [ex_tunnel, ex_inspect], pol_Upstream = ''corp''\<rparr>"

definition ex_profile :: upstream_proxy where
  "ex_profile = \<lparr>up_Name = ''corp'', up_URL = ''http://px:1'',
     up_Credentials = Some \<lparr>ref_Name = ''s'', ref_Namespace = [], ref_UsernameKey = [], ref_PasswordKey = []\<rparr>,
     up_NoProxy = []\<rparr>"

definition ex_secrets :: secret_reader where
  "ex_secrets key = (if key = (''relay'', ''s'') then Inr [''username'' \<mapsto> ''u'', ''password'' \<mapsto> ''p'']
     else Inl ''not found'')"

definition ex_dialer :: dialer where
  "ex_dialer = \<lparr>d_creds = Some (Credentials ex_secrets ''relay''),
     d_url_parse = (\<lambda>_. Inr \<lparr>url_Scheme = ''http'', url_Host = ''px:1''\<rparr>)\<rparr>"

definition ex_net :: network where
  "ex_net = \<lparr>net_dial = (\<lambda>_. Inr ()), net_handshake = (\<lambda>_. Inr ()), net_write = (\<lambda>_. Inr ()),
     net_response = (\<lambda>_. Inr (200, ''200 OK'', 0))\<rparr>"

definition ex_server :: server where
  "ex_server = \<lparr>sv_Guard = Some \<lparr>g_denied = default_prefixes\<rparr>, sv_Dialer = ex_dialer, sv_HasIssuer = True,
     sv_OriginTLS = None\<rparr>"

definition ex_response :: response where
  "ex_response = \<lparr>rs_StatusCode = 200, rs_Status = ''200 OK'', rs_Header = Map.empty, rs_Close = False,
     rs_Writable = False, rs_ContentLength = 2, rs_Chunked = False, rs_Uncompressed = False\<rparr>"

definition ex_world :: "(string \<times> string) list world" where
  "ex_world = \<lparr>w_as_selector = match_labels, w_listed = Inr [ex_policy],
     w_upstream = (\<lambda>n. if n = ''corp'' then Inr (Some ex_profile) else Inl ''not found''),
     w_lookup = (\<lambda>_. Inr [V4 0x08080808]), w_net = ex_net, w_elapsed = 0, w_client_ok = True,
     w_spliced = (1, 2), w_handshake = Inr (), w_write_proxy = Inr (), w_response = Inr ex_response,
     w_written = (3, None), w_counted = (4, 5), w_parse_uri = (\<lambda>_. Inr ()), w_origin_tls = Inr (),
     w_reuse = False, w_pooled = True\<rparr>"

definition connect_to :: "string \<Rightarrow> request" where
  "connect_to hp = \<lparr>rq_Method = MethodConnect, rq_Host = hp, rq_URL = None, rq_RequestURI = hp,
     rq_Header = Map.empty, rq_Close = False, rq_Body = None\<rparr>"

definition get_path :: "string \<Rightarrow> request" where
  "get_path path = \<lparr>rq_Method = ''GET'', rq_Host = ''b.io'', rq_URL = None, rq_RequestURI = path,
     rq_Header = Map.empty, rq_Close = False, rq_Body = None\<rparr>"

definition get_plain :: "string \<Rightarrow> request" where
  "get_plain path = \<lparr>rq_Method = ''GET'', rq_Host = ''a.io'',
     rq_URL = Some \<lparr>u_Scheme = ''http'', u_Host = ''a.io'', u_RequestURI = path\<rparr>, rq_RequestURI = path,
     rq_Header = [''Proxy-Authorization'' \<mapsto> [''Basic eA=='']], rq_Close = False, rq_Body = None\<rparr>"

section \<open>Evaluation\<close>

lemmas host_eval = canonicalHost_def TrimSpace_def trim_with_def is_space_def ToLower_def lower_char_def
  TrimSuffix_def suffix_to_prefix MatchHost_def MatchPort_def DefaultPorts_def Let_def

lemma canonical_examples [simp]:
  "canonicalHost ''a.io'' = ''a.io''" "canonicalHost ''b.io'' = ''b.io''"
  by (simp_all add: canonicalHost_def TrimSpace_def trim_with_def is_space_def ToLower_def lower_char_def
      TrimSuffix_def suffix_to_prefix)

lemma match_examples [simp]:
  "MatchHost ''a.io'' ''a.io''" "MatchHost ''b.io'' ''b.io''"
  "\<not> MatchHost ''a.io'' ''b.io''" "\<not> MatchHost ''b.io'' ''a.io''"
  by (simp_all add: MatchHost_def Let_def)

lemma port_examples [simp]: "MatchPort [] 443" "MatchPort [] 80"
  by (simp_all add: MatchPort_iff)

lemma selects_example [simp]:
  "selects match_labels (pol_Selector ex_policy) ex_identity = Inr True"
  by (simp add: selects_def ex_policy_def ex_identity_def match_labels_def)

definition ex_match :: "destination \<Rightarrow> matched_destination" where
  "ex_match dst = \<lparr>md_Policy = ''pa'', md_Upstream = ''corp'', md_Destination = dst, md_specificity = 3\<rparr>"

definition ex_decision :: "string \<Rightarrow> int \<Rightarrow> destination \<Rightarrow> connect_decision" where
  "ex_decision host port dst = \<lparr>cd_Allowed = True, cd_Reason = Some (AllowedBy [''pa'']), cd_Host = host,
     cd_Port = port, cd_TLSMode = dst_TLSMode dst, cd_Matched = [ex_match dst], cd_Upstream = ''corp''\<rparr>"

lemma specificity_examples [simp]: "hostSpecificity ''a.io'' = 3" "hostSpecificity ''b.io'' = 3"
  by (simp_all add: hostSpecificity_def)

lemma connect_examples [simp]:
  "AuthorizeConnect match_labels (Inr [ex_policy]) (Some ex_identity) ''a.io'' 443 =
     Inr (ex_decision ''a.io'' 443 ex_tunnel)"
  "AuthorizeConnect match_labels (Inr [ex_policy]) (Some ex_identity) ''a.io'' 80 =
     Inr (ex_decision ''a.io'' 80 ex_tunnel)"
  "AuthorizeConnect match_labels (Inr [ex_policy]) (Some ex_identity) ''b.io'' 443 =
     Inr (ex_decision ''b.io'' 443 ex_inspect)"
  by (simp_all add: AuthorizeConnect_def match_destinations_def ex_policy_def policyNames_def
      ex_decision_def ex_match_def ex_tunnel_def ex_inspect_def Let_def selects_example [unfolded ex_policy_def, simplified])

lemma split_examples [simp]:
  "splitTarget (connect_to ''a.io:443'') = (''a.io'', 443)"
  "splitTarget (connect_to ''b.io:443'') = (''b.io'', 443)"
  "splitTarget (get_plain path) = (''a.io'', 80)"
  by (simp_all add: splitTarget_def raw_target_def connect_to_def get_plain_def SplitHostPort_def
      MethodConnect_def cut_last_def Atoi_def dec_value_def is_digit_def Let_def)

lemma normalize_example [simp]: "NormalizePath ''/r/x'' = Inr ''/r/x''"
  by (simp add: NormalizePath_def control_at.simps is_control_def decodeOnce_def cut_before_def Let_def suffix_Cons)

lemma path_example [simp]: "MatchPath ''/r'' False ''/r/x''"
  by (simp add: MatchPath_def Let_def suffix_Cons)

lemma request_example [simp]:
  "AuthorizeRequest (Some (ex_decision ''b.io'' 443 ex_inspect)) ''GET'' ''/r/x'' False =
     \<lparr>rd_Allowed = True, rd_Reason = RuleAllows ''pa'' ''/r'', rd_Policy = ''pa'', rd_Upstream = ''corp'',
      rd_Rule = ''/r''\<rparr>"
  by (simp add: AuthorizeRequest_def ex_decision_def ex_match_def ex_inspect_def ex_rule_def MatchMethod_def)

lemma request_plain_example [simp]:
  "AuthorizeRequest (Some (ex_decision ''a.io'' 80 ex_tunnel)) ''GET'' ''/r/x'' False =
     \<lparr>rd_Allowed = True, rd_Reason = WholeHost ''pa'', rd_Policy = ''pa'', rd_Upstream = ''corp'',
      rd_Rule = ''host grant''\<rparr>"
  by (simp add: AuthorizeRequest_def ex_decision_def ex_match_def ex_tunnel_def)

end
