(* ===== verification/Wrappers.thy ===== *)
theory Wrappers
  imports Tunnel
begin

text \<open>
  The connection wrappers of the proxy: \<open>countingConn\<close> and \<open>readerConn\<close> of \<open>proxy/tunnel.go\<close> and the
  \<open>writeCounter\<close> of \<open>proxy/http.go\<close>. What a read or a write of the wrapped connection returns, a
  number of bytes and possibly an error, is an argument. The model of the data plane takes the
  totals from its world; the lemmas say what these totals are.
\<close>

section \<open>Counting\<close>

record counting_conn =
  cc_read :: nat
  cc_written :: nat

definition counting_Read :: "nat \<times> 'e option \<Rightarrow> counting_conn \<Rightarrow> (nat \<times> 'e option) \<times> counting_conn" where
  "counting_Read got c = (let (n, err) = got in ((n, err), c\<lparr>cc_read := cc_read c + n\<rparr>))"

definition counting_Write :: "nat \<times> 'e option \<Rightarrow> counting_conn \<Rightarrow> (nat \<times> 'e option) \<times> counting_conn" where
  "counting_Write got c = (let (n, err) = got in ((n, err), c\<lparr>cc_written := cc_written c + n\<rparr>))"

datatype 'e transfer = ReadCall "nat \<times> 'e option" | WriteCall "nat \<times> 'e option"

fun moved :: "'e transfer \<Rightarrow> counting_conn \<Rightarrow> counting_conn" where
  "moved (ReadCall got) c = snd (counting_Read got c)"
| "moved (WriteCall got) c = snd (counting_Write got c)"

fun bytes_read :: "'e transfer \<Rightarrow> nat" where
  "bytes_read (ReadCall got) = fst got"
| "bytes_read (WriteCall _) = 0"

fun bytes_written :: "'e transfer \<Rightarrow> nat" where
  "bytes_written (ReadCall _) = 0"
| "bytes_written (WriteCall got) = fst got"

text \<open>
  Failed calls count what they moved; each direction has its own total, whatever the order of the
  calls, and the totals never go back: a record written later in the connection includes what an
  earlier one reported.
\<close>

lemma moved_totals:
  "cc_read (fold moved ts c) = cc_read c + sum_list (map bytes_read ts) \<and>
   cc_written (fold moved ts c) = cc_written c + sum_list (map bytes_written ts)"
proof (induction ts arbitrary: c)
  case (Cons t ts)
  have "cc_read (moved t c) = cc_read c + bytes_read t \<and> cc_written (moved t c) = cc_written c + bytes_written t"
    by (cases t) (auto simp: counting_Read_def counting_Write_def split: prod.split)
  with Cons.IH [of "moved t c"] show ?case by simp
qed simp

lemma moved_totals_mono:
  "cc_read (fold moved ts c) \<le> cc_read (fold moved (ts @ us) c)"
  "cc_written (fold moved ts c) \<le> cc_written (fold moved (ts @ us) c)"
  by (simp_all add: moved_totals)

section \<open>Counting a response\<close>

definition counter_Write :: "nat \<times> 'e option \<Rightarrow> nat \<Rightarrow> (nat \<times> 'e option) \<times> nat" where
  "counter_Write got n = (let (k, err) = got in ((k, err), n + k))"

text \<open>
  \<open>writeCounted\<close>: \<open>http.Response.Write\<close> writes until everything is out or a write fails; \<open>writes\<close>
  are the results of the writes it would make.
\<close>

fun response_Write :: "(nat \<times> 'e option) list \<Rightarrow> nat \<Rightarrow> nat \<times> 'e option" where
  "response_Write [] n = (n, None)"
| "response_Write (got # writes) n =
     (let ((k, err), n') = counter_Write got n in
      if err \<noteq> None then (n', err) else response_Write writes n')"

definition writeCounted :: "(nat \<times> 'e option) list \<Rightarrow> nat \<times> 'e option" where
  "writeCounted writes = response_Write writes 0"

text \<open>The count of a response that failed is what the client got before and in the failing write.\<close>

lemma response_Write_prefix:
  "response_Write writes n = (m, err) \<Longrightarrow>
     \<exists>out rest. writes = out @ rest \<and> m = n + sum_list (map fst out) \<and>
       (err = None \<longrightarrow> rest = []) \<and> (err \<noteq> None \<longrightarrow> out \<noteq> [] \<and> snd (last out) = err)"
proof (induction writes arbitrary: n)
  case (Cons got writes)
  obtain k e where got: "got = (k, e)" by fastforce
  show ?case
  proof (cases e)
    case None
    with got Cons.prems have "response_Write writes (n + k) = (m, err)" by (simp add: counter_Write_def)
    from Cons.IH [OF this] obtain out rest where
      "writes = out @ rest" "m = n + k + sum_list (map fst out)" "err = None \<longrightarrow> rest = []"
      "err \<noteq> None \<longrightarrow> out \<noteq> [] \<and> snd (last out) = err" by blast
    with got show ?thesis by (intro exI [of _ "got # out"] exI [of _ rest]) auto
  next
    case (Some x)
    with got Cons.prems show ?thesis
      by (intro exI [of _ "[got]"] exI [of _ writes]) (auto simp: counter_Write_def)
  qed
qed simp

lemma writeCounted_total:
  "writeCounted writes = (m, None) \<Longrightarrow> m = sum_list (map fst writes)"
  using response_Write_prefix [of writes 0 m None] by (auto simp: writeCounted_def)

section \<open>Reading what was buffered first\<close>

text \<open>
  \<open>readerConn\<close> as \<open>handleConnect\<close> builds it: the reader is the bytes the request parser had buffered,
  then the connection. A read for at most \<open>room\<close> bytes returns what the underlying reader has ready,
  \<open>ready\<close> bytes of it at most; the state is what is left of both.
\<close>

definition readerConn_Read :: "nat \<Rightarrow> nat \<Rightarrow> string \<times> string \<Rightarrow> string \<times> string \<times> string" where
  "readerConn_Read room ready s =
     (let (buffered, stream) = s; k = min room ready in
      if buffered \<noteq> [] then (take k buffered, drop k buffered, stream)
      else (take k stream, [], drop k stream))"

fun reads_of :: "(nat \<times> nat) list \<Rightarrow> string \<times> string \<Rightarrow> string \<times> string \<times> string" where
  "reads_of [] s = ([], s)"
| "reads_of ((room, ready) # calls) s =
     (let (got, s1) = readerConn_Read room ready s; (rest, s2) = reads_of calls s1 in (got @ rest, s2))"

text \<open>No byte the client pipelined behind its CONNECT is lost, duplicated or reordered.\<close>

lemma reads_of_exact:
  "reads_of calls (buffered, stream) = (got, b, s) \<Longrightarrow> got @ b @ s = buffered @ stream"
proof (induction calls arbitrary: buffered stream got)
  case (Cons call calls)
  obtain room ready where call: "call = (room, ready)" by fastforce
  obtain first b1 s1 where r: "readerConn_Read room ready (buffered, stream) = (first, b1, s1)" by (metis prod_cases3)
  obtain rest where rest: "reads_of calls (b1, s1) = (rest, b, s)" "got = first @ rest"
    using Cons.prems call r by (auto split: prod.splits)
  have "first @ b1 @ s1 = buffered @ stream" using r by (auto simp: readerConn_Read_def Let_def split: if_splits)
  with Cons.IH [OF rest(1)] rest(2) show ?case by simp
qed simp

end
