(* ===== verification/Upgrade.thy ===== *)
theory Upgrade
  imports Wrappers
begin

text \<open>
  A connection after a permitted protocol upgrade. \<open>spliceUpgrade\<close> of \<open>proxy/inspect.go\<close> writes the answer
  with \<open>http.Response.Write\<close> and then copies with two \<open>io.Copy\<close>, one of them in a goroutine it waits for: a
  machine of these calls and of what the client and the origin do. Then what the connection reads first.
\<close>

section \<open>The answer and the two copies\<close>

text \<open>
  The body of an answer 101 is the connection to the origin, and its length is given as 0.
  \<open>Response.Write\<close> sends the status line, reads one byte of such a body to learn whether it is
  really empty, sends the header fields, and then, when there was a byte, the whole body up to its
  end, and closes it. Only after that the copies start.
\<close>

datatype upgrade_phase = Probing | Writing | Copying | Finished

text \<open>
  \<open>ug_client\<close> and \<open>ug_origin\<close> say whether that peer still sends, \<open>ug_from_origin\<close> counts what the origin did
  (sending and ending), \<open>ug_to_origin\<close> what was passed on to it.
\<close>

record upgrade_sys =
  ug_now :: int
  ug_client :: bool
  ug_origin :: bool
  ug_from_origin :: nat
  ug_to_origin :: nat
  ug_phase :: upgrade_phase
  ug_body_closed :: bool
  ug_up_running :: bool
  ug_down_running :: bool

text \<open>
  A write to a client that is gone can fail, and with it \<open>Response.Write\<close>. The shutdown of the
  relay closes the client's connection: it is \<open>client_gone\<close> too. The copies: one ends when its source
  has ended or its destination takes nothing; \<open>passed\<close> is a successful write to the origin.
\<close>

inductive upgrade_step :: "upgrade_sys \<Rightarrow> upgrade_sys \<Rightarrow> bool" where
  tick: "ug_now s \<le> t \<Longrightarrow> upgrade_step s (s\<lparr>ug_now := t\<rparr>)"
| client_gone: "upgrade_step s (s\<lparr>ug_client := False\<rparr>)"
| origin_gone: "upgrade_step s (s\<lparr>ug_origin := False, ug_from_origin := Suc (ug_from_origin s)\<rparr>)"
| probed: "ug_phase s = Probing \<Longrightarrow> ug_origin s \<Longrightarrow>
    upgrade_step s (s\<lparr>ug_phase := Writing, ug_from_origin := Suc (ug_from_origin s)\<rparr>)"
| probed_end: "ug_phase s = Probing \<Longrightarrow> \<not> ug_origin s \<Longrightarrow> upgrade_step s (s\<lparr>ug_phase := Copying\<rparr>)"
| head_failed: "ug_phase s = Probing \<Longrightarrow> \<not> ug_origin s \<Longrightarrow> \<not> ug_client s \<Longrightarrow> upgrade_step s (s\<lparr>ug_phase := Finished\<rparr>)"
| wrote: "ug_phase s = Writing \<Longrightarrow> ug_origin s \<Longrightarrow>
    upgrade_step s (s\<lparr>ug_from_origin := Suc (ug_from_origin s)\<rparr>)"
| write_failed: "ug_phase s = Writing \<Longrightarrow> \<not> ug_client s \<Longrightarrow> upgrade_step s (s\<lparr>ug_phase := Finished\<rparr>)"
| written: "ug_phase s = Writing \<Longrightarrow> \<not> ug_origin s \<Longrightarrow>
    upgrade_step s (s\<lparr>ug_phase := Copying, ug_body_closed := True\<rparr>)"
| passed: "ug_phase s = Copying \<Longrightarrow> ug_up_running s \<Longrightarrow> ug_client s \<Longrightarrow> \<not> ug_body_closed s \<Longrightarrow>
    upgrade_step s (s\<lparr>ug_to_origin := Suc (ug_to_origin s)\<rparr>)"
| up_ended: "ug_phase s = Copying \<Longrightarrow> ug_up_running s \<Longrightarrow> upgrade_step s (s\<lparr>ug_up_running := False\<rparr>)"
| down_ended: "ug_phase s = Copying \<Longrightarrow> ug_down_running s \<Longrightarrow> upgrade_step s (s\<lparr>ug_down_running := False\<rparr>)"
| both_done: "ug_phase s = Copying \<Longrightarrow> \<not> ug_up_running s \<Longrightarrow> \<not> ug_down_running s \<Longrightarrow>
    upgrade_step s (s\<lparr>ug_phase := Finished\<rparr>)"

inductive_cases upgrade_stepE: "upgrade_step s t"

text \<open>The start: the status line is out.\<close>

definition upgrade_start :: "upgrade_sys \<Rightarrow> bool" where
  "upgrade_start s \<longleftrightarrow> ug_client s \<and> ug_origin s \<and> ug_from_origin s = 0 \<and> ug_to_origin s = 0 \<and> ug_phase s = Probing \<and>
     \<not> ug_body_closed s \<and> ug_up_running s \<and> ug_down_running s"

definition upgrade_inv :: "upgrade_sys \<Rightarrow> bool" where
  "upgrade_inv s \<longleftrightarrow>
     (ug_from_origin s = 0 \<longrightarrow> ug_phase s = Probing \<and> ug_origin s) \<and>
     (ug_phase s = Copying \<longrightarrow> \<not> ug_origin s) \<and> (ug_phase s = Probing \<or> ug_phase s = Writing \<longrightarrow> ug_to_origin s = 0) \<and>
     (0 < ug_to_origin s \<longrightarrow> \<not> ug_origin s)"

lemma upgrade_inv_step: "upgrade_inv s \<Longrightarrow> upgrade_step s t \<Longrightarrow> upgrade_inv t"
  by (erule upgrade_stepE) (auto simp: upgrade_inv_def)

interpretation upgrading: machine_invariant upgrade_start upgrade_step upgrade_inv
proof unfold_locales
  show "upgrade_inv s" if "upgrade_start s" for s using that by (simp add: upgrade_start_def upgrade_inv_def)
qed (rule upgrade_inv_step)

text \<open>
  So the client is not heard before the origin's stream has ended, and not answered before the origin
  has spoken: a protocol in which the client speaks first, as the WebSocket protocol is used, never
  starts, and the handler stays, whether or not the client does.
\<close>

lemma upgraded_client_is_not_heard:
  assumes "reachable upgrade_start upgrade_step s"
  shows "ug_origin s \<Longrightarrow> ug_to_origin s = 0" and "ug_from_origin s = 0 \<Longrightarrow> ug_phase s = Probing \<and> ug_to_origin s = 0"
  using upgrading.reachable_inv [OF assms] by (auto simp: upgrade_inv_def)

section \<open>What the upgraded connection reads\<close>

text \<open>
  The copies read the client's connection itself and not the reader that has parsed the upgrade request:
  what that reader has buffered stays there. The same holds of the splice after an upgrade over plain
  HTTP.
\<close>

definition upgraded_Read :: "nat \<Rightarrow> nat \<Rightarrow> string \<times> string \<Rightarrow> string \<times> string \<times> string" where
  "upgraded_Read room ready s =
     (let (buffered, stream) = s; k = min room ready in (take k stream, buffered, drop k stream))"

fun upgraded_reads :: "(nat \<times> nat) list \<Rightarrow> string \<times> string \<Rightarrow> string \<times> string \<times> string" where
  "upgraded_reads [] s = ([], s)"
| "upgraded_reads ((room, ready) # calls) s =
     (let (got, s1) = upgraded_Read room ready s; (rest, s2) = upgraded_reads calls s1 in (got @ rest, s2))"

text \<open>What the client sent along with its upgrade request never reaches the origin.\<close>

lemma upgrade_drops_what_is_buffered:
  "upgraded_reads calls (buffered, stream) = (got, b, rest) \<Longrightarrow> b = buffered \<and> got @ rest = stream"
proof (induction calls arbitrary: stream got)
  case (Cons call calls)
  obtain room ready where call: "call = (room, ready)" by fastforce
  define k where "k = min room ready"
  obtain more where m: "upgraded_reads calls (buffered, drop k stream) = (more, b, rest)" "got = take k stream @ more"
    using Cons.prems call by (auto simp: upgraded_Read_def Let_def k_def split: prod.splits)
  from Cons.IH [OF m(1)] m(2) show ?case by simp
qed simp

end
