(* ===== verification/Framing.thy ===== *)
theory Framing
  imports Inspected
begin

text \<open>
  Where a relayed response ends, for the client that reads it: what \<open>http.Response.Write\<close> makes of a
  response, and which responses the loops of \<open>proxy/http.go\<close> and \<open>proxy/inspect.go\<close> go on after.
\<close>

section \<open>Writing a response\<close>

definition body_allowed :: "string \<Rightarrow> int \<Rightarrow> bool" where
  "body_allowed meth code \<longleftrightarrow> meth \<noteq> ''HEAD'' \<and> \<not> (100 \<le> code \<and> code < 200) \<and> code \<noteq> 204 \<and> code \<noteq> 304"

text \<open>
  A body of unknown length that is not chunked ends with the connection. The writer then announces
  that the connection closes, but not for a body that was decompressed on the way unless the response
  says so itself.
\<close>

datatype framing = Bodyless | Sized int | Chunks | UntilClose | Unframed

definition response_framing :: "string \<Rightarrow> response \<Rightarrow> framing" where
  "response_framing meth resp =
     (if \<not> body_allowed meth (rs_StatusCode resp) then Bodyless
      else if rs_Chunked resp then Chunks
      else if 0 \<le> rs_ContentLength resp then Sized (rs_ContentLength resp)
      else if rs_Close resp \<or> \<not> rs_Uncompressed resp then UntilClose
      else Unframed)"

definition self_delimiting :: "framing \<Rightarrow> bool" where
  "self_delimiting f \<longleftrightarrow> f \<noteq> UntilClose \<and> f \<noteq> Unframed"

section \<open>Reading a response\<close>

text \<open>
  \<open>http.ReadResponse\<close> sets \<open>Close\<close> on a response whose body ends with the connection. The transport
  asks for gzip when a request names no encoding, no range and is not HEAD, and decompresses the
  answer, whose length it then does not know.
\<close>

definition read_response :: "string \<Rightarrow> response \<Rightarrow> bool" where
  "read_response meth resp \<longleftrightarrow>
     (body_allowed meth (rs_StatusCode resp) \<and> rs_ContentLength resp < 0 \<and> \<not> rs_Chunked resp \<and> \<not> rs_Uncompressed resp \<longrightarrow>
        rs_Close resp)"

definition asks_gzip :: "string \<Rightarrow> header \<Rightarrow> bool" where
  "asks_gzip meth h \<longleftrightarrow>
     header_get h ''Accept-Encoding'' = [] \<and> header_get h ''Range'' = [] \<and> meth \<noteq> ''HEAD''"

definition transport_response :: "string \<Rightarrow> header \<Rightarrow> response \<Rightarrow> bool" where
  "transport_response meth h resp \<longleftrightarrow>
     read_response meth resp \<and>
     (rs_Uncompressed resp \<longrightarrow> asks_gzip meth h \<and> rs_ContentLength resp = -1)"

lemma kept_framing:
  "read_response meth resp \<Longrightarrow> \<not> rs_Close resp \<Longrightarrow>
     self_delimiting (response_framing meth resp) \<longleftrightarrow>
       \<not> (rs_Uncompressed resp \<and> body_allowed meth (rs_StatusCode resp) \<and> rs_ContentLength resp < 0 \<and> \<not> rs_Chunked resp)"
  by (auto simp: read_response_def response_framing_def self_delimiting_def)

section \<open>Which responses a connection goes on after\<close>

definition sent_headers :: "request \<Rightarrow> header" where
  "sent_headers req = upgrade_headers req (isUpgrade req) (stripHopByHop (rq_Header req))"

lemma forwardBumped_goes_on:
  assumes "fst (forwardBumped sv w trs req rdec dec authority upgrade) = Inr True"
  shows "\<exists>resp. w_response w = Inr resp \<and> rs_StatusCode resp \<noteq> 101 \<and> w_client_ok w \<and> \<not> rs_Close resp \<and> \<not> rq_Close req"
  using assms
  by (auto simp: forwardBumped_def roundTrip_def Let_def case_prod_beta split: sum.splits if_splits prod.splits)

lemma serveOne_goes_on:
  assumes "snd (snd (serveOne sv w trs wid dec req))" "rd_Allowed (bumped_decision dec req)"
  shows "\<exists>resp. w_response w = Inr resp \<and> rs_StatusCode resp \<noteq> 101 \<and> w_client_ok w \<and> \<not> rs_Close resp \<and> \<not> rq_Close req"
proof -
  let ?f = "forwardBumped sv w trs req (bumped_decision dec req) dec
    (JoinHostPort (cd_Host dec) (Itoa (cd_Port dec))) (isUpgrade req)"
  have "fst ?f = Inr True"
    using assms by (auto simp: serveOne_def bumped_decision_def Let_def split: sum.splits prod.splits)
  then show ?thesis by (rule forwardBumped_goes_on)
qed

lemma exchange_plain_goes_on:
  assumes "snd (exchange_plain w remote wid req u host port dec rdec upgrade c auth)"
  shows "\<exists>resp. w_response w = Inr resp \<and> rs_StatusCode resp \<noteq> 101 \<and> snd (w_written w) = None \<and>
    \<not> rs_Close resp \<and> \<not> rq_Close req"
  using assms by (auto simp: exchange_plain_def Let_def split: sum.splits if_splits prod.splits)

lemma relayPlain_goes_on:
  assumes "snd (relayPlainRequest sv w remote wid req u)" "\<exists>e\<in>set (fst (relayPlainRequest sv w remote wid req u)). outgoing e"
  shows "\<exists>resp. w_response w = Inr resp \<and> rs_StatusCode resp \<noteq> 101 \<and> snd (w_written w) = None \<and>
    \<not> rs_Close resp \<and> \<not> rq_Close req"
proof -
  obtain host port where tgt: "splitTarget req = (host, port)" by fastforce
  show ?thesis
  proof (cases rule: relayPlain_cases [OF tgt, of sv w remote wid u])
    case 1
    with assms show ?thesis by simp
  next
    case (2 out keep)
    with assms show ?thesis by simp
  next
    case (3 dec profile r ev out keep)
    with assms exchange_plain_goes_on show ?thesis
      by (cases r) (fastforce simp: case_prod_beta)+
  qed
qed

text \<open>
  A plain exchange reads one response. An interim one (a status below 200 other than 101) is relayed as
  the answer and recorded as such, the connection that would bring the final one is closed, and the
  loop goes on with the client.
\<close>

lemma interim_response_is_final:
  assumes "w_write_proxy w = Inr ()" "w_response w = Inr resp" "100 \<le> rs_StatusCode resp" "rs_StatusCode resp < 200"
    and "rs_StatusCode resp \<noteq> 101"
  shows "filter (\<lambda>e. \<exists>r h. e = Relayed r h) (fst (exchange_plain w remote wid req u host port dec rdec upgrade c auth)) =
      [Relayed resp (stripHopByHop (rs_Header resp))]"
    and "snd (exchange_plain w remote wid req u host port dec rdec upgrade c auth) \<longleftrightarrow>
      snd (w_written w) = None \<and> \<not> rs_Close resp \<and> \<not> rq_Close req"
  using assms by (simp_all add: exchange_plain_def Let_def case_prod_beta audit_def)

end
