(* ===== verification/Dataplane_Properties.thy ===== *)
theory Dataplane_Properties
  imports Examples Upgrade Framing
begin

text \<open>
  The properties of the data plane, from the accepted connection to the bytes of an answer, each
  with an instance on the example deployment where it has hypotheses.
\<close>

section \<open>The example deployment at work\<close>

lemma ex_resolve [simp]:
  "Resolve \<lparr>g_denied = default_prefixes\<rparr> (\<lambda>_. Inr [V4 0x08080808]) ''a.io'' = Inr [V4 0x08080808]"
  "Resolve \<lparr>g_denied = default_prefixes\<rparr> (\<lambda>_. Inr [V4 0x08080808]) ''b.io'' = Inr [V4 0x08080808]"
  by (simp_all add: Resolve_def TrimSpace_def trim_with_def is_space_def TrimSuffix_def suffix_Cons Let_def
      parse_eval ParseAddr_from.simps Denied_iff default_V4)

lemma Itoa_examples [simp]: "Itoa 443 = ''443''" "Itoa 80 = ''80''"
  by code_simp+

lemma ex_dial [simp]:
  "Dial ex_dialer ex_net (Some ex_profile) \<lparr>t_Host = ''a.io'', t_Port = 443, t_Addrs = as\<rparr> =
     (Inr \<lparr>c_Addr = ''px:1'', c_TLS = False, c_Buffered = 0\<rparr>,
      [Dialed ''px:1'', SentConnect ''px:1'' ''a.io:443'' (Some (basic_auth ''u'' ''p''))])"
  "Dial ex_dialer ex_net (Some ex_profile) \<lparr>t_Host = ''b.io'', t_Port = 443, t_Addrs = as\<rparr> =
     (Inr \<lparr>c_Addr = ''px:1'', c_TLS = False, c_Buffered = 0\<rparr>,
      [Dialed ''px:1'', SentConnect ''px:1'' ''b.io:443'' (Some (basic_auth ''u'' ''p''))])"
  by (simp_all add: Dial_def ex_dialer_def ex_net_def ex_profile_def matchesNoProxy_def dialProxy_def
      proxy_address_def url_Port_def url_split_def cut_last_def is_digit_def connect_def profile_auth_def
      Credentials_def ex_secrets_def orDefault_def DefaultUsernameKey_def DefaultPasswordKey_def
      trim_newlines_def TrimRight_def hostPort_def JoinHostPort_def Let_def)

lemma ex_connect_method: "rq_Method (connect_to hp) = MethodConnect"
  by (simp add: connect_to_def)

lemma ex_decision_host [simp]:
  "cd_Host (ex_decision host port dst) = host" "cd_Port (ex_decision host port dst) = port"
  by (simp_all add: ex_decision_def)

lemma ex_authority [simp]:
  "JoinHostPort ''b.io'' ''443'' = ''b.io:443''" "SplitHostPort ''b.io:443'' = Some (''b.io'', ''443'')"
  "Atoi ''443'' = Some 443" "int32 443 = 443"
  by (simp_all add: JoinHostPort_def SplitHostPort_def cut_last_def Atoi_def dec_value_def is_digit_def
      int32_def Let_def)

lemma ex_forward [simp]:
  "DialForward ex_dialer ex_net (Some ex_profile) =
     (Inr (\<lparr>c_Addr = ''px:1'', c_TLS = False, c_Buffered = 0\<rparr>, basic_auth ''u'' ''p''), [Dialed ''px:1''])"
  by (simp add: DialForward_def ex_dialer_def ex_net_def ex_profile_def dialProxy_def
      proxy_address_def url_Port_def url_split_def cut_last_def is_digit_def profile_auth_def
      Credentials_def ex_secrets_def orDefault_def DefaultUsernameKey_def DefaultPasswordKey_def
      trim_newlines_def TrimRight_def Let_def)

lemma ex_method [simp]: "rq_Method (get_plain path) = ''GET''"
  by (simp add: get_plain_def)

lemma ex_decision_allowed [simp]: "cd_Allowed (ex_decision host port dst)"
  by (simp add: ex_decision_def)

lemma ex_world_fields [simp]:
  "w_client_ok ex_world" "w_handshake ex_world = Inr ()" "w_as_selector ex_world = match_labels"
  "w_listed ex_world = Inr [ex_policy]" "w_counted ex_world = (4, 5)" "sv_HasIssuer ex_server"
  by (simp_all add: ex_world_def ex_server_def)

lemma ex_inspected [simp]: "cd_TLSMode (ex_decision host port ex_inspect) = TLSModeInspect"
  by (simp add: ex_decision_def ex_inspect_def)

lemma get_path_url [simp]: "rq_URL (get_path path) = None"
  by (simp add: get_path_def)

lemma ex_tunnel_events:
  "set (fst (handle ex_server True ex_world Map.empty None (Inr (connect_to ''a.io:443'')) (Inr ex_identity) []))
     \<supseteq> {Net (Dialed ''px:1''), Net (SentConnect ''px:1'' ''a.io:443'' (Some (basic_auth ''u'' ''p''))), Established}"
  by (simp add: handle_def handleConnect_def ex_world_def tunnel_def resolveTarget_def ex_server_def Upstream_def
      ex_decision_def ex_tunnel_def Let_def) (simp add: connect_to_def)

section \<open>What may leave the relay\<close>

text \<open>
  C1. No traffic without a grant. Whatever \<open>handle\<close> does with a connection, an event that leaves
  the relay (a dial, a handshake, a forwarded request) implies that the caches were loaded, the
  client was identified, and some request of the connection has a target that the policies listed
  at the time grant to that workload.
\<close>

theorem handle_no_traffic_without_grant:
  assumes "e \<in> set (fst (handle sv ready w trs remote got ident later))" "outgoing e"
  shows "ready \<and> (\<exists>wid req. ident = Inr wid \<and> got = Inr req \<and>
    (\<exists>(r, w')\<in>insert (req, w) {(r, w'). (Inr r, w') \<in> set later}.
       \<exists>host port pols. splitTarget r = (host, port) \<and> w_listed w' = Inr pols \<and>
         granted (w_as_selector w') wid host port pols))"
  using handle_outgoing [OF assms] by (simp add: grants_target_def)

theorem handle_no_traffic_witness:
  "splitTarget (connect_to ''a.io:443'') = (''a.io'', 443) \<and>
   granted match_labels ex_identity ''a.io'' 443 [ex_policy]"
proof -
  have "Net (Dialed ''px:1'') \<in> set (fst (handle ex_server True ex_world Map.empty None
      (Inr (connect_to ''a.io:443'')) (Inr ex_identity) []))"
    using ex_tunnel_events by auto
  from handle_no_traffic_without_grant [OF this] show ?thesis by (simp add: ex_world_def)
qed





section \<open>What leaving requests carry\<close>




lemma ex_not_upgrade [simp]: "isUpgrade (get_path path) = False"
  by (simp add: isUpgrade_def get_path_def header_get_def)

lemma ex_get_path [simp]:
  "rq_Method (get_path path) = ''GET''" "rq_RequestURI (get_path path) = path"
  "rq_Host (get_path path) = ''b.io''" "rq_Header (get_path path) = Map.empty"
  "rq_Close (get_path path) = False" "rq_Body (get_path path) = None"
  by (simp_all add: get_path_def)

lemma ex_serve_events:
  "set (fst (serveOne ex_server ex_world Map.empty ex_identity (ex_decision ''b.io'' 443 ex_inspect) (get_path ''/r/x'')))
     \<supseteq> {Forwarded ''b.io:443'' ''/r/x'' ''b.io'' (stripHopByHop Map.empty),
         OriginTLS ''px:1'' (origin_tls None ''b.io'')}"
  by (simp add: serveOne_def forwardBumped_def transportFor_def roundTrip_def dialOriginTLS_def
      resolveTarget_def Upstream_def ex_world_def ex_server_def Let_def upgrade_headers_def ex_response_def)


text \<open>
  The CONNECT a tunnel sends upstream names exactly the authorized host and port and carries
  the credentials of the profile of the decision, or none when the profile has none.
\<close>

theorem tunnel_asks_for_authorized_target:
  assumes "Net (SentConnect a hp auth) \<in> set (tunnel sv w remote wid dec)"
  shows "hp = JoinHostPort (cd_Host dec) (Itoa (cd_Port dec)) \<and>
    reaches sv w (cd_Upstream dec) (cd_Host dec) (cd_Port dec) a \<and>
    (\<exists>profile. w_upstream w (cd_Upstream dec) = Inr (Some profile) \<and>
       profile_auth (sv_Dialer sv) profile = Inr auth)"
  using tunnel_connect [OF assms] tunnel_net [OF assms] by simp

theorem tunnel_asks_witness: "reaches ex_server ex_world ''corp'' ''a.io'' 443 ''px:1''"
proof -
  have "Net (SentConnect ''px:1'' ''a.io:443'' (Some (basic_auth ''u'' ''p''))) \<in>
      set (tunnel ex_server ex_world None ex_identity (ex_decision ''a.io'' 443 ex_tunnel))"
    by (simp add: ex_world_def tunnel_def resolveTarget_def ex_server_def Upstream_def ex_decision_def Let_def)
  from tunnel_asks_for_authorized_target [OF this] show ?thesis by (simp add: ex_decision_def)
qed

text \<open>
  C14. The origin of an inspected connection is always verified: every TLS handshake on the origin
  leg checks the certificate, for the host of the CONNECT, whatever the configured base is.
\<close>

theorem origin_leg_is_verified:
  assumes "OriginTLS a cfg \<in> set (fst (handleConnect sv w trs remote wid req later))"
    and "rq_Method req = MethodConnect"
  shows "\<not> oc_InsecureSkipVerify cfg \<and> oc_ServerName cfg = fst (splitTarget req)"
proof -
  from handleConnect_outgoing [OF assms(1)] obtain host port dec where
    t: "splitTarget req = (host, port)" "port \<noteq> 0" and
    dec: "AuthorizeConnect (w_as_selector w) (w_listed w) (Some wid) host port = Inr dec" and
    ev: "if cd_TLSMode dec = TLSModeInspect then OriginTLS a cfg \<in> set (fst (serveBumped sv trs wid dec later))
         else OriginTLS a cfg \<in> set (tunnel sv w remote wid dec)"
    by auto
  have "OriginTLS a cfg \<notin> set (tunnel sv w remote wid dec)"
    using tunnel_outgoing [of "OriginTLS a cfg" sv w remote wid dec] by auto
  with ev have "OriginTLS a cfg \<in> set (fst (serveBumped sv trs wid dec later))" by (auto split: if_splits)
  from serveBumped_outgoing [OF this] obtain r w' where
    "(Inr r, w') \<in> set later" "origin_event sv w' dec r (OriginTLS a cfg)" by auto
  then have "OriginTLS a cfg \<in> set (snd (dialOriginTLS sv w' (rd_Upstream (bumped_decision dec r))
      (JoinHostPort host (Itoa port))))"
    using AuthorizeConnect_target [OF dec] by (simp add: origin_event_def Let_def)
  from dialOriginTLS_verified [OF this] splitTarget_connect_clean [OF assms(2) t] t
    authority_parts(1) [of host port] show ?thesis by auto
qed

theorem origin_leg_witness:
  "\<not> oc_InsecureSkipVerify (origin_tls None ''b.io'') \<and> oc_ServerName (origin_tls None ''b.io'') = ''b.io''"
proof -
  have "OriginTLS ''px:1'' (origin_tls None ''b.io'') \<in> set (fst (handleConnect ex_server ex_world Map.empty None
      ex_identity (connect_to ''b.io:443'') [(Inr (get_path ''/r/x''), ex_world)]))"
    using ex_serve_events
    by (simp add: handleConnect_def handleInspect_def ex_inspected readBumpedRequest_def get_path_url
        ex_world_fields case_prod_beta Let_def)
  from origin_leg_is_verified [OF this ex_connect_method] show ?thesis by simp
qed

text \<open>
  C18. Idle connections never change hands: after any sequence of requests on an inspected
  connection every pooled connection of a transport was opened under the profile the transport is
  named after, provided the API returns profiles under their own name.
\<close>

theorem pools_stay_with_their_profile:
  assumes "pools_ok trs" "\<forall>(got, w)\<in>set later. named_world w"
  shows "pools_ok (snd (serveBumped sv trs wid dec later))"
  by (rule serveBumped_pools [OF assms])

lemma ex_world_named: "named_world ex_world"
  by (simp add: named_world_def ex_world_def ex_profile_def)

theorem pools_stay_with_their_profile_witness:
  "pools_ok (snd (serveBumped ex_server Map.empty ex_identity (ex_decision ''b.io'' 443 ex_inspect)
     [(Inr (get_path ''/r/x''), ex_world), (Inr (get_path ''/r/x''), ex_world\<lparr>w_reuse := True\<rparr>)]))"
proof (rule pools_stay_with_their_profile)
  have "named_world (ex_world\<lparr>w_reuse := True\<rparr>)" using ex_world_named by (simp add: named_world_def)
  then show "\<forall>(got, w)\<in>set [(Inr (get_path ''/r/x''), ex_world),
      (Inr (get_path ''/r/x''), ex_world\<lparr>w_reuse := True\<rparr>)]. named_world w"
    using ex_world_named by simp
qed (simp add: pools_ok_def)

section \<open>What is recorded and answered\<close>

text \<open>
  Every request read from an inspected connection leaves exactly one audit record, whatever
  the decision, the dial and the origin do.
\<close>

theorem inspected_request_recorded_once:
  "length (filter is_audit (fst (serveOne sv w trs wid dec req))) = 1"
  using serveOne_audits [of sv w trs wid dec req] by (simp add: audits_def)

text \<open>
  A tunnel leaves exactly one audit record, with one exception: when the upstream accepted
  the tunnel and the client is gone before it could be told so, nothing is recorded although the
  upstream was contacted.
\<close>

theorem tunnel_recorded_unless_client_gone:
  "length (filter is_audit (tunnel sv w remote wid dec)) =
     (if \<not> w_client_ok w \<and>
         (\<exists>profile t c. resolveTarget sv w (cd_Host dec) (cd_Port dec) (cd_Upstream dec) = Inr (profile, t) \<and>
            fst (Dial (sv_Dialer sv) (w_net w) (Some profile) t) = Inr c)
      then 0 else 1)"
  using tunnel_audits [of sv w remote wid dec] by (auto simp: audits_def)

text \<open>
  A plain request with a usable target leaves exactly one audit record unless the proxy
  answers with a protocol switch, which is the one completed exchange that leaves none.
\<close>

theorem plain_request_recorded:
  assumes "splitTarget req = (host, port)" "host \<noteq> []" "port \<noteq> 0"
    and "\<forall>resp. w_response w = Inr resp \<longrightarrow> rs_StatusCode resp \<noteq> 101"
  shows "length (filter is_audit (fst (relayPlainRequest sv w remote wid req u))) = 1"
  using relayPlain_audits [OF assms] by (simp add: audits_def)



text \<open>
  A failure after the connect decision is recorded once, under the decision of its kind, with
  the workload and the target it concerns, and is answered with 403 when the guard refused and
  with 502 otherwise.
\<close>

theorem dial_failure_reported:
  "\<exists>rec y. filter is_audit (dialFailure w remote wid meth dec err) = [Audited rec] \<and>
     last (dialFailure w remote wid meth dec err) = Reply (failure_status err) y \<and>
     ar_Decision rec = failure_decision err \<and> ar_Reason rec = Failed err \<and>
     ar_Host rec = cd_Host dec \<and> ar_Port rec = cd_Port dec \<and>
     ar_Namespace rec = id_Namespace wid \<and> ar_Pod rec = id_Pod wid"
  by (cases err)
    (auto simp: dialFailure_def failure_decision_def failure_status_def audit_def record_of_def Let_def
      split: upstream_error.split engine_error.split)

text \<open>
  C26. A denied request on an inspected connection does not end it: the next request is read
  exactly when the refusal could be written, the client did not ask to close, and the body was
  consumed to its end within the drain limit; and no transport is created for it.
\<close>

theorem denied_request_keeps_connection:
  assumes "\<not> rd_Allowed (AuthorizeRequest (Some dec) (rq_Method req) (rq_RequestURI req) (isUpgrade req))"
  shows "(snd (snd (serveOne sv w trs wid dec req)) \<longleftrightarrow>
      w_client_ok w \<and> \<not> rq_Close req \<and>
      (case rq_Body req of None \<Rightarrow> True | Some body \<Rightarrow> \<exists>n\<le>drainLimit. body_size body = Some n)) \<and>
    fst (snd (serveOne sv w trs wid dec req)) = trs"
  using serveOne_denied_keeps [of dec req sv w trs wid] assms by (simp_all add: bumped_decision_def drain_iff)

lemma ex_denied:
  "\<not> rd_Allowed (AuthorizeRequest (Some (ex_decision ''b.io'' 443 ex_inspect)) ''GET'' ''/x'' False)"
proof -
  have "NormalizePath ''/x'' = Inr ''/x''"
    by (simp add: NormalizePath_def control_at.simps is_control_def decodeOnce_def cut_before_def Let_def suffix_Cons)
  then show ?thesis
    by (simp add: AuthorizeRequest_def ex_decision_def ex_match_def ex_inspect_def ex_rule_def MatchPath_def
        suffix_Cons Let_def)
qed

theorem denied_request_keeps_connection_witness:
  "snd (snd (serveOne ex_server ex_world Map.empty ex_identity (ex_decision ''b.io'' 443 ex_inspect) (get_path ''/x'')))"
  using denied_request_keeps_connection [of "ex_decision ''b.io'' 443 ex_inspect" "get_path ''/x''"
    ex_server ex_world Map.empty ex_identity] ex_denied by simp

text \<open>
  C25. The relay's own answers cannot be split by what they quote: whatever the reason is, a
  reader of HTTP finds the intended status line, the four header fields with the reason flattened
  to one line, and a body of exactly the announced length.
\<close>

theorem own_answers_are_framed:
  "(\<exists>body. read_head 6 (writeStatus (int n) why) =
      Some (status_lines (int n) (length body) why @ [''Connection: close''], body)) \<and>
   (\<exists>body. read_head 6 (writeDeniedRequest (int n) why) = Some (status_lines (int n) (length body) why, body))"
  using writeStatus_framed [of "int n" why] writeDeniedRequest_framed [of "int n" why] by simp_all

section \<open>Kept connections\<close>

text \<open>
  C13. Where a relayed response ends on a connection that goes on. After an allowed inspected request
  the loop goes on after a response that says itself where it ends, by its length, in chunks or by
  having no body, except when the transport of the relay decompressed one that had a length: then the client is sent a
  body without a length and no announcement that the connection closes, and waits. That takes a request
  whose forwarded header fields name no encoding and no range. On the plain path, where nothing is
  decompressed, every response after which the connection goes on says where it ends.
\<close>

theorem kept_responses_say_where_they_end:
  assumes "w_response w = Inr resp" "transport_response (rq_Method req) (sent_headers req) resp"
  shows "(rd_Allowed (bumped_decision dec req) \<and> snd (snd (serveOne sv w trs wid dec req)) \<longrightarrow>
      (self_delimiting (response_framing (rq_Method req) resp) \<longleftrightarrow>
         \<not> (rs_Uncompressed resp \<and> \<not> rs_Chunked resp \<and> body_allowed (rq_Method req) (rs_StatusCode resp))) \<and>
      (\<not> asks_gzip (rq_Method req) (sent_headers req) \<longrightarrow> self_delimiting (response_framing (rq_Method req) resp))) \<and>
    (\<not> rs_Uncompressed resp \<and> snd (relayPlainRequest sv w remote wid req u) \<and>
      (\<exists>e\<in>set (fst (relayPlainRequest sv w remote wid req u)). outgoing e) \<longrightarrow>
      self_delimiting (response_framing (rq_Method req) resp))"
proof (intro conjI impI)
  have read: "read_response (rq_Method req) resp"
    and gzip: "rs_Uncompressed resp \<longrightarrow> asks_gzip (rq_Method req) (sent_headers req) \<and> rs_ContentLength resp = -1"
    using assms(2) by (simp_all add: transport_response_def)
  assume on: "rd_Allowed (bumped_decision dec req) \<and> snd (snd (serveOne sv w trs wid dec req))"
  with serveOne_goes_on [of sv w trs wid dec req] assms(1) have open': "\<not> rs_Close resp" by auto
  from kept_framing [OF read open'] gzip
  show "self_delimiting (response_framing (rq_Method req) resp) \<longleftrightarrow>
      \<not> (rs_Uncompressed resp \<and> \<not> rs_Chunked resp \<and> body_allowed (rq_Method req) (rs_StatusCode resp))" by auto
  then show "self_delimiting (response_framing (rq_Method req) resp)"
    if "\<not> asks_gzip (rq_Method req) (sent_headers req)" using gzip that by blast
next
  assume on: "\<not> rs_Uncompressed resp \<and> snd (relayPlainRequest sv w remote wid req u) \<and>
      (\<exists>e\<in>set (fst (relayPlainRequest sv w remote wid req u)). outgoing e)"
  with relayPlain_goes_on [of sv w remote wid req u] assms(1) have "\<not> rs_Close resp" by auto
  with kept_framing [of "rq_Method req" resp] on assms(2)
  show "self_delimiting (response_framing (rq_Method req) resp)" by (simp add: transport_response_def)
qed

text \<open>A request that names no encoding, answered by an origin that compresses.\<close>

definition ex_gunzipped :: response where
  "ex_gunzipped = ex_response\<lparr>rs_ContentLength := -1, rs_Uncompressed := True\<rparr>"

abbreviation ex_compressing_world :: "(string \<times> string) list world" where
  "ex_compressing_world \<equiv> ex_world\<lparr>w_response := Inr ex_gunzipped\<rparr>"

lemma ex_gunzipped_goes_on:
  "rd_Allowed (bumped_decision (ex_decision ''b.io'' 443 ex_inspect) (get_path ''/r/x''))"
  "snd (snd (serveOne ex_server ex_compressing_world Map.empty ex_identity (ex_decision ''b.io'' 443 ex_inspect) (get_path ''/r/x'')))"
  by (simp_all add: bumped_decision_def serveOne_def forwardBumped_def transportFor_def roundTrip_def dialOriginTLS_def
      resolveTarget_def Upstream_def ex_world_def ex_server_def Let_def upgrade_headers_def ex_gunzipped_def ex_response_def)

theorem kept_responses_say_where_they_end_witness:
  "snd (snd (serveOne ex_server ex_compressing_world Map.empty ex_identity (ex_decision ''b.io'' 443 ex_inspect) (get_path ''/r/x''))) \<and>
   \<not> self_delimiting (response_framing ''GET'' ex_gunzipped)"
proof -
  have "sent_headers (get_path ''/r/x'') = Map.empty"
    by (rule ext) (simp add: sent_headers_def upgrade_headers_def stripHopByHop_iff)
  then have "transport_response ''GET'' (sent_headers (get_path ''/r/x'')) ex_gunzipped"
    by (simp add: transport_response_def read_response_def asks_gzip_def header_get_def ex_gunzipped_def ex_response_def)
  with kept_responses_say_where_they_end [of ex_compressing_world ex_gunzipped "get_path ''/r/x''"] ex_gunzipped_goes_on
  show ?thesis by (auto simp: ex_gunzipped_def ex_response_def body_allowed_def)
qed

section \<open>Splicing\<close>

definition ex_splice :: splice_sys where
  "ex_splice = \<lparr>sp_now = 0, sp_up_running = True, sp_down_running = True, sp_up = 0, sp_down = 0,
     sp_closed = False, sp_closes = 0, sp_timer = True, sp_activity = 0, sp_reset_at = 0, sp_result = None\<rparr>"

definition ex_spliced :: splice_sys where
  "ex_spliced = ex_splice\<lparr>sp_up_running := False, sp_down_running := False, sp_up := 7, sp_down := 9,
     sp_closed := True, sp_closes := 1, sp_result := Some (7, 9)\<rparr>"

lemma ex_splice_run:
  "reachable (splice_start 5) (splice_step 5) ex_spliced"
proof -
  let ?R = "reachable (splice_start 5) (splice_step 5)"
  have s0: "?R ex_splice" by (rule reach_start) (simp add: splice_start_def ex_splice_def)
  define s1 where "s1 = closeBoth (ex_splice\<lparr>sp_up_running := False, sp_up := sp_up ex_splice + 7\<rparr>)"
  define s2 where "s2 = closeBoth (s1\<lparr>sp_down_running := False, sp_down := sp_down s1 + 9\<rparr>)"
  have "?R s1" unfolding s1_def by (rule reach_step [OF s0 up_done]) (simp add: ex_splice_def)
  then have "?R s2" unfolding s2_def
    by (rule reach_step [where s = s1]) (rule down_done, simp add: s1_def ex_splice_def closeBoth_def)
  then have "?R (closeBoth (s2\<lparr>sp_result := Some (sp_up s2, sp_down s2)\<rparr>))"
    by (rule reach_step [where s = s2]) (rule returned, simp_all add: s1_def s2_def ex_splice_def closeBoth_def)
  then show ?thesis by (simp add: s1_def s2_def ex_splice_def ex_spliced_def closeBoth_def)
qed

text \<open>
  C27. What ends a spliced connection. The splice closes its two connections at most once, and when it
  returns they are closed, both copies have ended and the counts it returns are theirs. It cannot
  get stuck: from every reachable state in which a side has ended or the idle timer is due, there
  are steps of its own goroutines that make it return. An upgraded inspected connection, which
  \<open>spliceUpgrade\<close> relays by other means, is different: as long as the stream of the origin has not ended,
  nothing the client sends is passed on, and as long as the origin has not said anything, the head of
  the answer is held back and the handler does not return, whatever the client does and whatever
  time passes.
\<close>

theorem splice_closes_once_and_returns:
  assumes "reachable (splice_start idle) (splice_step idle) s" "reachable upgrade_start upgrade_step u"
  shows "sp_closes s \<le> 1 \<and>
    (\<forall>up down. sp_result s = Some (up, down) \<longrightarrow>
       sp_closes s = 1 \<and> \<not> sp_up_running s \<and> \<not> sp_down_running s \<and> up = sp_up s \<and> down = sp_down s) \<and>
    (sp_closed s \<or> (sp_timer s \<and> sp_reset_at s + idle \<le> sp_now s) \<longrightarrow>
       (\<exists>t r. (splice_step idle)\<^sup>*\<^sup>* s t \<and> sp_result t = Some r)) \<and>
    (ug_origin u \<longrightarrow> ug_to_origin u = 0) \<and>
    (ug_from_origin u = 0 \<longrightarrow> ug_phase u = Probing)"
proof -
  have inv: "splice_inv s" by (rule splice.reachable_inv [OF assms(1)])
  have "\<exists>t r. (splice_step idle)\<^sup>*\<^sup>* s t \<and> sp_result t = Some r"
    if due: "sp_closed s \<or> (sp_timer s \<and> sp_reset_at s + idle \<le> sp_now s)"
  proof -
    obtain u where u: "(splice_step idle)\<^sup>*\<^sup>* s u" "sp_closed u"
      using due idle_reaped [OF inv] by blast
    have "splice_inv u" by (rule splice.steps_inv [OF u(1) inv])
    show ?thesis
    proof (cases "sp_result u")
      case None
      from closed_returns [OF \<open>splice_inv u\<close> u(2) None] u(1) show ?thesis by (meson rtranclp_trans)
    next
      case (Some r)
      with u(1) show ?thesis by blast
    qed
  qed
  moreover note upgraded_client_is_not_heard [OF assms(2)]
  ultimately show ?thesis using inv by (auto simp: splice_inv_def split: if_splits)
qed

text \<open>An hour after the upgrade, with a client that has given up.\<close>

definition ex_upgraded :: upgrade_sys where
  "ex_upgraded = \<lparr>ug_now = 3600, ug_client = False, ug_origin = True, ug_from_origin = 0, ug_to_origin = 0,
     ug_phase = Probing, ug_body_closed = False, ug_up_running = True, ug_down_running = True\<rparr>"

lemma ex_upgraded_reachable: "reachable upgrade_start upgrade_step ex_upgraded"
proof -
  define s0 where "s0 = ex_upgraded\<lparr>ug_now := 0, ug_client := True\<rparr>"
  have "reachable upgrade_start upgrade_step s0"
    by (rule reach_start) (simp add: upgrade_start_def s0_def ex_upgraded_def)
  moreover have "upgrade_step s0 (s0\<lparr>ug_now := 3600\<rparr>)" by (rule upgrade_step.tick) (simp add: s0_def)
  moreover have "upgrade_step (s0\<lparr>ug_now := 3600\<rparr>) (s0\<lparr>ug_now := 3600, ug_client := False\<rparr>)"
    using client_gone [of "s0\<lparr>ug_now := 3600\<rparr>"] by simp
  moreover have "s0\<lparr>ug_now := 3600, ug_client := False\<rparr> = ex_upgraded" by (simp add: s0_def ex_upgraded_def)
  ultimately show ?thesis by (metis reach_step)
qed

theorem splice_closes_once_and_returns_witness:
  "sp_closes ex_spliced = 1 \<and> \<not> sp_up_running ex_spliced \<and>
   (\<exists>t r. (splice_step 5)\<^sup>*\<^sup>* (ex_splice\<lparr>sp_now := 5\<rparr>) t \<and> sp_result t = Some r) \<and>
   ug_to_origin ex_upgraded = 0 \<and> ug_phase ex_upgraded = Probing"
proof -
  have "reachable (splice_start 5) (splice_step 5) ex_splice"
    by (rule reach_start) (simp add: splice_start_def ex_splice_def)
  moreover have "splice_step 5 ex_splice (ex_splice\<lparr>sp_now := 5\<rparr>)"
    by (rule splice_step.tick) (simp add: ex_splice_def)
  ultimately have due: "reachable (splice_start 5) (splice_step 5) (ex_splice\<lparr>sp_now := 5\<rparr>)"
    by (rule reach_step)
  have "sp_result ex_spliced = Some (7, 9)" by (simp add: ex_spliced_def)
  with splice_closes_once_and_returns [OF ex_splice_run ex_upgraded_reachable]
  have "sp_closes ex_spliced = 1 \<and> \<not> sp_up_running ex_spliced" by blast
  moreover have "\<exists>t r. (splice_step 5)\<^sup>*\<^sup>* (ex_splice\<lparr>sp_now := 5\<rparr>) t \<and> sp_result t = Some r"
    using splice_closes_once_and_returns [OF due ex_upgraded_reachable] by (simp add: ex_splice_def)
  moreover have "ug_to_origin ex_upgraded = 0 \<and> ug_phase ex_upgraded = Probing"
    using splice_closes_once_and_returns [OF due ex_upgraded_reachable] by (simp add: ex_upgraded_def)
  ultimately show ?thesis by blast
qed

end
