(* ===== verification/Policy_Properties.thy ===== *)
theory Policy_Properties
  imports Examples
begin

text \<open>
  The properties of the policy engine and of what it is asked about: the connect and the request
  stage, path normalisation, the matchers, the destination guard and the identity of the client.
\<close>

section \<open>The connect stage\<close>

text \<open>
  C6. A connection is allowed exactly when some policy selects the workload and one of its
  destinations matches host and port, and it is inspected exactly when one of those grants asks
  for inspection: a single inspecting grant wins over every tunnelling one.
\<close>

theorem connect_decision_spec:
  assumes "AuthorizeConnect as_sel (Inr pols) (Some wid) host port = Inr dec"
  shows "(cd_Allowed dec \<longleftrightarrow> granted as_sel wid host port pols) \<and>
    (cd_TLSMode dec = TLSModeInspect \<longleftrightarrow>
       (\<exists>pol\<in>set pols. selects as_sel (pol_Selector pol) wid = Inr True \<and>
          (\<exists>dst\<in>set (pol_Destinations pol). MatchHost (dst_Host dst) host \<and> MatchPort (dst_Ports dst) port \<and>
             dst_TLSMode dst = TLSModeInspect))) \<and>
    set (cd_Matched dec) = set (grants as_sel wid host port pols)"
proof -
  let ?gs = "grants as_sel wid host port pols"
  have inspects: "(\<exists>m\<in>set ?gs. dst_TLSMode (md_Destination m) = TLSModeInspect) \<longleftrightarrow>
       (\<exists>pol\<in>set pols. selects as_sel (pol_Selector pol) wid = Inr True \<and>
          (\<exists>dst\<in>set (pol_Destinations pol). MatchHost (dst_Host dst) host \<and> MatchPort (dst_Ports dst) port \<and>
             dst_TLSMode dst = TLSModeInspect))"
  proof -
    have "set ?gs = (\<Union>pol\<in>{pol \<in> set pols. selects as_sel (pol_Selector pol) wid = Inr True}.
        set (match_destinations host port pol))"
      by (auto simp: set_grants)
    also have "\<dots> = (\<Union>pol\<in>{pol \<in> set pols. selects as_sel (pol_Selector pol) wid = Inr True}.
        (\<lambda>dst. \<lparr>md_Policy = pol_Name pol, md_Upstream = pol_Upstream pol, md_Destination = dst,
                 md_specificity = hostSpecificity (dst_Host dst)\<rparr>) `
          {dst \<in> set (pol_Destinations pol). MatchHost (dst_Host dst) host \<and> MatchPort (dst_Ports dst) port})"
      by (simp add: match_destinations_def)
    finally show ?thesis by auto
  qed
  from assms show ?thesis
    unfolding AuthorizeConnect_Inr_iff inspects [symmetric] granted_iff
    by (auto simp: Let_def list_ex_iff)
qed

theorem connect_decision_spec_witness:
  "cd_Allowed (ex_decision ''b.io'' 443 ex_inspect) \<longleftrightarrow> granted match_labels ex_identity ''b.io'' 443 [ex_policy]"
  using connect_decision_spec [OF connect_examples(3)] by blast

text \<open>
  The decision does not depend on the order in which the API lists the policies: replicas
  that see the same policies decide alike, down to the order of the matched destinations, the
  upstream and the reason, because names are unique and the sort is stable.
\<close>

theorem connect_independent_of_list_order:
  assumes "mset ps = mset qs" "distinct (map pol_Name ps)"
    and "AuthorizeConnect as_sel (Inr ps) (Some wid) host port = Inr dec"
  shows "AuthorizeConnect as_sel (Inr qs) (Some wid) host port = Inr dec"
proof -
  have set: "set ps = set qs" using assms(1) by (rule mset_eq_setD)
  have len: "length (selected_policies as_sel wid ps) = length (selected_policies as_sel wid qs)"
    using assms(1) unfolding selected_policies_def by (metis mset_filter size_mset)
  have nil: "grants as_sel wid host port ps = [] \<longleftrightarrow> grants as_sel wid host port qs = []"
    using granted_iff [of as_sel wid host port ps] granted_iff [of as_sel wid host port qs] set
    by (simp add: granted_def)
  have ok: "selectors_ok as_sel wid ps = selectors_ok as_sel wid qs"
    using set by (simp add: selectors_ok_def list_all_iff)
  show ?thesis
    using assms(3) unfolding AuthorizeConnect_Inr_iff Let_def ok len nil grants_sorted_perm [OF assms(1,2)] .
qed

definition ex_other_policy :: "(string \<times> string) list egress_policy" where
  "ex_other_policy = ex_policy\<lparr>pol_Name := ''pb'', pol_Destinations := []\<rparr>"

lemma ex_two_policies:
  "AuthorizeConnect match_labels (Inr [ex_policy, ex_other_policy]) (Some ex_identity) ''a.io'' 443 =
     Inr (ex_decision ''a.io'' 443 ex_tunnel)"
  by (simp add: AuthorizeConnect_def match_destinations_def ex_policy_def ex_other_policy_def policyNames_def
      ex_decision_def ex_match_def ex_tunnel_def ex_inspect_def Let_def
      selects_example [unfolded ex_policy_def, simplified])

theorem connect_independent_of_list_order_witness:
  "AuthorizeConnect match_labels (Inr [ex_other_policy, ex_policy]) (Some ex_identity) ''a.io'' 443 =
     Inr (ex_decision ''a.io'' 443 ex_tunnel)"
  by (rule connect_independent_of_list_order [OF _ _ ex_two_policies])
    (simp_all add: ex_policy_def ex_other_policy_def)

text \<open>
  C23. Tenants are isolated, up to selectors that do not convert. The decision for a workload does
  not change with the policies that do not select it, nor with the order in which the API lists the
  rest, down to the order of the matched destinations, the upstream and the reason. It fails exactly
  when the selector of some policy cannot be evaluated for it, and a single policy with a namespace
  selector that does not convert fails the decisions of all workloads.
\<close>

theorem connect_depends_on_selecting_policies:
  assumes "mset ps = mset (qs @ others)" "distinct (map pol_Name ps)"
    and "\<forall>pol\<in>set others. selects as_sel (pol_Selector pol) wid = Inr False"
  shows "(AuthorizeConnect as_sel (Inr ps) (Some wid) host port = Inr dec \<longleftrightarrow>
      AuthorizeConnect as_sel (Inr qs) (Some wid) host port = Inr dec) \<and>
    ((\<exists>e. AuthorizeConnect as_sel (Inr ps) (Some wid) host port = Inl e) \<longleftrightarrow>
      (\<exists>pol\<in>set ps. \<exists>e. selects as_sel (pol_Selector pol) wid = Inl e)) \<and>
    ((\<exists>pol\<in>set ps. \<exists>ns e. sel_Namespace (pol_Selector pol) = Some ns \<and> as_sel ns = Inl e) \<longrightarrow>
      (\<exists>name e. AuthorizeConnect as_sel (Inr ps) (Some wid') host port = Inl (SelectorFailed name e)))"
proof (intro conjI impI)
  have "distinct (map pol_Name (qs @ others))"
    using assms(2) mset_eq_imp_distinct_iff [of "map pol_Name ps" "map pol_Name (qs @ others)"] assms(1) by simp
  with assms(1,2) connect_independent_of_list_order [of ps "qs @ others"] connect_independent_of_list_order [of "qs @ others" ps]
  have "AuthorizeConnect as_sel (Inr ps) (Some wid) host port = Inr dec \<longleftrightarrow>
      AuthorizeConnect as_sel (Inr (qs @ others)) (Some wid) host port = Inr dec" by metis
  with AuthorizeConnect_unselected [OF assms(3)]
  show "AuthorizeConnect as_sel (Inr ps) (Some wid) host port = Inr dec \<longleftrightarrow>
      AuthorizeConnect as_sel (Inr qs) (Some wid) host port = Inr dec" by blast
  show "(\<exists>e. AuthorizeConnect as_sel (Inr ps) (Some wid) host port = Inl e) \<longleftrightarrow>
      (\<exists>pol\<in>set ps. \<exists>e. selects as_sel (pol_Selector pol) wid = Inl e)"
  proof -
    have "\<not> is_ok r \<longleftrightarrow> (\<exists>e. r = Inl e)" for r :: "(string, bool) result" by (cases r) (simp_all add: is_ok_def)
    then show ?thesis by (auto simp: AuthorizeConnect_fails_iff selectors_ok_def list_all_iff)
  qed
next
  assume "\<exists>pol\<in>set ps. \<exists>ns e. sel_Namespace (pol_Selector pol) = Some ns \<and> as_sel ns = Inl e"
  then have "\<not> selectors_ok as_sel wid' ps"
    using broken_selector [of _ _ as_sel _ wid'] by (fastforce simp: selectors_ok_def list_all_iff is_ok_def)
  then obtain e where e: "AuthorizeConnect as_sel (Inr ps) (Some wid') host port = Inl e"
    using AuthorizeConnect_fails_iff by blast
  from AuthorizeConnect_Inl [OF e] e
  show "\<exists>name e. AuthorizeConnect as_sel (Inr ps) (Some wid') host port = Inl (SelectorFailed name e)" by blast
qed

text \<open>A policy for another team, and a selector that only converts for the first.\<close>

definition ex_foreign_policy :: "(string \<times> string) list egress_policy" where
  "ex_foreign_policy = ex_policy\<lparr>pol_Name := ''pz'', pol_Selector := \<lparr>sel_Namespace = Some [(''team'', ''z'')], sel_Pod = None\<rparr>\<rparr>"

definition ex_partial :: "(string \<times> string) list as_selector" where
  "ex_partial ls = (if ls = [(''team'', ''z'')] then Inl ''bad operator'' else match_labels ls)"

theorem connect_depends_on_selecting_policies_witness:
  "AuthorizeConnect match_labels (Inr [ex_foreign_policy, ex_policy]) (Some ex_identity) ''a.io'' 443 =
     Inr (ex_decision ''a.io'' 443 ex_tunnel) \<and>
   (\<exists>name e. AuthorizeConnect ex_partial (Inr [ex_foreign_policy, ex_policy]) (Some ex_identity) ''a.io'' 443 =
     Inl (SelectorFailed name e))"
proof -
  have perm: "mset [ex_foreign_policy, ex_policy] = mset ([ex_policy] @ [ex_foreign_policy])"
    "distinct (map pol_Name [ex_foreign_policy, ex_policy])"
    by (simp_all add: ex_foreign_policy_def ex_policy_def)
  have other: "\<forall>pol\<in>set [ex_foreign_policy]. selects match_labels (pol_Selector pol) ex_identity = Inr False"
    by (simp add: ex_foreign_policy_def selects_def match_labels_def ex_identity_def)
  have none: "\<forall>pol\<in>set ([] :: (string \<times> string) list egress_policy list). selects ex_partial (pol_Selector pol) ex_identity = Inr False"
    by simp
  have broken: "\<exists>pol\<in>set [ex_foreign_policy, ex_policy]. \<exists>ns e. sel_Namespace (pol_Selector pol) = Some ns \<and> ex_partial ns = Inl e"
    by (simp add: ex_foreign_policy_def ex_partial_def)
  from connect_depends_on_selecting_policies [OF perm other] connect_examples(1)
  have "AuthorizeConnect match_labels (Inr [ex_foreign_policy, ex_policy]) (Some ex_identity) ''a.io'' 443 =
     Inr (ex_decision ''a.io'' 443 ex_tunnel)" by blast
  moreover have "mset [ex_foreign_policy, ex_policy] = mset ([ex_foreign_policy, ex_policy] @ [])" by simp
  from connect_depends_on_selecting_policies [OF this perm(2) none] broken
  have "\<exists>name e. AuthorizeConnect ex_partial (Inr [ex_foreign_policy, ex_policy]) (Some ex_identity) ''a.io'' 443 =
     Inl (SelectorFailed name e)" by blast
  ultimately show ?thesis by blast
qed

section \<open>The request stage\<close>


text \<open>
  Upgrades on inspected connections are opt-in: when every grant of the connection inspects,
  an allowed upgrade was allowed by a rule that sets \<open>allowUpgrade\<close>, and the decision names the
  policy, the upstream and the path of that rule.
\<close>

theorem upgrade_needs_opt_in:
  assumes "rd_Allowed (AuthorizeRequest (Some c) meth target True)"
    and "\<forall>m\<in>set (cd_Matched c). dst_TLSMode (md_Destination m) = TLSModeInspect"
  shows "\<exists>m\<in>set (cd_Matched c). \<exists>rule\<in>set (dst_Paths (md_Destination m)). rule_AllowUpgrade rule \<and>
    rd_Rule (AuthorizeRequest (Some c) meth target True) = rule_Path rule \<and>
    rd_Policy (AuthorizeRequest (Some c) meth target True) = md_Policy m \<and>
    rd_Upstream (AuthorizeRequest (Some c) meth target True) = md_Upstream m"
proof -
  from assms(1) obtain path m where m: "m \<in> set (cd_Matched c)"
      "destination_admits path meth True (md_Destination m)"
      "AuthorizeRequest (Some c) meth target True = loop_grant path meth True m"
    by (rule AuthorizeRequest_attribution)
  from m(1,2) assms(2) have "\<exists>rule\<in>set (dst_Paths (md_Destination m)). rule_admits path meth True rule"
    by (auto simp: destination_admits_def split: if_splits)
  then obtain rule where r: "find (rule_admits path meth True) (dst_Paths (md_Destination m)) = Some rule"
    by (metis find_None_iff option.exhaust)
  then have "rule \<in> set (dst_Paths (md_Destination m))" "rule_AllowUpgrade rule"
    by (auto simp: find_Some_iff rule_admits_def)
  with m(1,3) r show ?thesis by (intro bexI [of _ m] bexI [of _ rule]) (simp_all add: loop_grant_def)
qed

definition ex_upgrade :: destination where
  "ex_upgrade = ex_inspect\<lparr>dst_Paths := [ex_rule\<lparr>rule_AllowUpgrade := True\<rparr>]\<rparr>"

lemma ex_upgrade_allowed:
  "rd_Allowed (AuthorizeRequest (Some (ex_decision ''b.io'' 443 ex_upgrade)) ''GET'' ''/r/x'' True)"
  by (simp add: AuthorizeRequest_def ex_decision_def ex_match_def ex_upgrade_def ex_inspect_def ex_rule_def
      MatchMethod_def)

theorem upgrade_needs_opt_in_witness:
  "\<exists>m\<in>set (cd_Matched (ex_decision ''b.io'' 443 ex_upgrade)).
     \<exists>rule\<in>set (dst_Paths (md_Destination m)). rule_AllowUpgrade rule"
proof -
  have "\<forall>m\<in>set (cd_Matched (ex_decision ''b.io'' 443 ex_upgrade)). dst_TLSMode (md_Destination m) = TLSModeInspect"
    by (simp add: ex_decision_def ex_match_def ex_upgrade_def ex_inspect_def)
  from upgrade_needs_opt_in [OF ex_upgrade_allowed this] show ?thesis by blast
qed

section \<open>Normalisation\<close>

text \<open>
  C20. A rule without wildcards grants a subtree and nothing beside it: on a normalised target a
  prefix rule matches exactly the paths whose segments continue the rule's, an exact rule exactly
  the rule's own path with or without a final slash. \<open>/v1/files\<close> never reaches
  \<open>/v1/filesystem\<close>.
\<close>

theorem literal_rule_grants_subtree:
  assumes "list_all plain_segment segs" "\<forall>seg\<in>set segs. CHR ''*'' \<notin> set seg"
    and "NormalizePath target = Inr path"
  shows "(MatchPath (render segs s) False path \<longleftrightarrow> (\<exists>rest slash. path = render (segs @ rest) slash \<and>
      list_all clean_segment (segs @ rest))) \<and>
    (MatchPath (render segs s) True path \<longleftrightarrow> (\<exists>slash. path = render segs slash \<and> list_all clean_segment segs))"
proof -
  from NormalizePath_canonical [OF assms(3)] obtain ps slash where
    ps: "list_all clean_segment ps" "path = render ps slash" unfolding canonical_path_def by blast
  note plain = list_clean_plain [OF ps(1)]
  have "MatchPath (render segs s) False path \<longleftrightarrow> prefix segs ps"
    using MatchPath_literal_prefix [OF assms(1,2) plain] ps(2) by simp
  also have "\<dots> \<longleftrightarrow> (\<exists>rest slash. path = render (segs @ rest) slash \<and> list_all clean_segment (segs @ rest))"
  proof
    assume "prefix segs ps"
    then obtain rest where "ps = segs @ rest" by (auto simp: prefix_def)
    with ps show "\<exists>rest slash. path = render (segs @ rest) slash \<and> list_all clean_segment (segs @ rest)" by blast
  next
    assume "\<exists>rest slash. path = render (segs @ rest) slash \<and> list_all clean_segment (segs @ rest)"
    then obtain rest s' where "render ps slash = render (segs @ rest) s'" "list_all clean_segment (segs @ rest)"
      using ps(2) by auto
    from render_inject [OF plain list_clean_plain [OF this(2)] this(1)] show "prefix segs ps" by simp
  qed
  finally have sub: "MatchPath (render segs s) False path \<longleftrightarrow> \<dots>" .
  have "MatchPath (render segs s) True path \<longleftrightarrow> ps = segs"
    using MatchPath_literal_exact [OF assms(1,2) plain] ps(2) by simp
  also have "\<dots> \<longleftrightarrow> (\<exists>slash. path = render segs slash \<and> list_all clean_segment segs)"
  proof
    assume "ps = segs" with ps show "\<exists>slash. path = render segs slash \<and> list_all clean_segment segs" by blast
  next
    assume "\<exists>slash. path = render segs slash \<and> list_all clean_segment segs"
    then obtain s' where "render ps slash = render segs s'" using ps(2) by auto
    from render_inject [OF plain assms(1) this] show "ps = segs" .
  qed
  finally show ?thesis using sub by blast
qed

theorem literal_rule_grants_subtree_witness:
  "MatchPath (render [''r''] False) False ''/r/x'' \<longleftrightarrow>
     (\<exists>rest slash. ''/r/x'' = render ([''r''] @ rest) slash \<and> list_all clean_segment ([''r''] @ rest))"
proof -
  have segs: "list_all plain_segment [''r'']" "\<forall>seg\<in>set [''r'']. CHR ''*'' \<notin> set seg"
    by (simp_all add: plain_segment_def)
  from literal_rule_grants_subtree [OF segs normalize_example] show ?thesis by blast
qed

text \<open>
  C9. Whatever \<open>NormalizePath\<close> returns is canonical: a slash, then non-empty segments that are
  neither \<open>.\<close> nor \<open>..\<close> and hold no slash, no path parameter, no percent sign, no backslash and no
  NUL, joined by single slashes, with at most one slash at the end. A result without the bytes an
  escape may still have decoded to (\<open>?\<close>, \<open>#\<close> and control bytes) is a fixed point, so deciding on
  it again decides alike.
\<close>

theorem normalized_path_is_canonical:
  assumes "NormalizePath target = Inr path"
  shows "(\<exists>segs slash. list_all clean_segment segs \<and> path = render segs slash) \<and>
    ((\<forall>c\<in>set path. c \<noteq> CHR ''?'' \<and> c \<noteq> CHR ''#'' \<and> \<not> is_control c) \<longrightarrow> NormalizePath path = Inr path)"
  using NormalizePath_canonical [OF assms] NormalizePath_fixed [OF NormalizePath_canonical [OF assms]]
  by (simp add: canonical_path_def)

theorem normalized_path_is_canonical_witness:
  "(\<exists>segs slash. list_all clean_segment segs \<and> ''/r/x'' = render segs slash) \<and> NormalizePath ''/r/x'' = Inr ''/r/x''"
proof -
  have "NormalizePath ''/a/../r/./x'' = Inr ''/r/x''"
    by (simp add: NormalizePath_def control_at.simps is_control_def decodeOnce_def cut_before_def Let_def suffix_Cons)
  from normalized_path_is_canonical [OF this] show ?thesis by (simp add: is_control_def)
qed


lemma ex_dots: "decodeOnce ''/a/../r/./x'' = Inr ''/a/../r/./x''"
  by (simp add: decodeOnce_def)

lemma ex_dots_normalized: "NormalizePath ''/a/../r/./x'' = Inr ''/r/x''"
  by (simp add: NormalizePath_def control_at.simps is_control_def decodeOnce_def cut_before_def Let_def suffix_Cons)


text \<open>An escaped \<open>?\<close> or \<open>#\<close> is decoded into the result, where it is an ordinary character.\<close>

theorem escaped_query_survives:
  "NormalizePath ''/a%3fb'' = Inr ''/a?b'' \<and> NormalizePath ''/a%23b'' = Inr ''/a#b''"
proof -
  have "(char_of (63 :: nat) :: char) = CHR ''?''" "(char_of (35 :: nat) :: char) = CHR ''#''" by code_simp+
  then show ?thesis
    by (simp add: NormalizePath_def control_at.simps is_control_def decodeOnce_def cut_before_def unhex_def
        suffix_Cons Let_def)
qed

section \<open>Matchers\<close>

text \<open>
  C21. A rule with a wildcard matches a path exactly when its segments match the path's one by
  one, \<open>**\<close> standing for any number of segments and \<open>*\<close> within a segment for any run of bytes;
  neither the search of \<open>matchGlob\<close> nor the greedy segment matcher misses a way.
\<close>

theorem wildcard_rule_spec:
  assumes "CHR ''*'' \<in> set pattern" "prefix ''/'' pattern" "list_all plain_segment path"
  shows "MatchPath pattern exact (render path slash) \<longleftrightarrow> segments_match (splitSegments pattern) path"
  by (rule MatchPath_wildcard [OF assms])

theorem wildcard_rule_spec_witness:
  "MatchPath ''/a/**'' False (render [''a'', ''b'', ''c''] False)"
proof -
  have "segments_match [''a'', ''**''] [''a'', ''b'', ''c'']"
    by (rule sm_one) (simp_all add: wildcard_plain segments_match_deep_only)
  moreover have "splitSegments ''/a/**'' = [''a'', ''**'']"
    by (simp add: splitSegments_def trim_with_def Let_def)
  ultimately show ?thesis
    using wildcard_rule_spec [of "''/a/**''" "[''a'', ''b'', ''c'']" False False]
    by (simp add: plain_segment_def)
qed

text \<open>
  C22. \<open>*.\<close> matches exactly one label, \<open>**.\<close> one or more, and neither the apex: on the
  canonical spelling of pattern and host.
\<close>

theorem host_wildcards_spec:
  assumes "s \<noteq> []"
  shows "(canonicalHost p = ''*.'' @ s \<longrightarrow> (MatchHost p h \<longleftrightarrow>
      (\<exists>label. label \<noteq> [] \<and> CHR ''.'' \<notin> set label \<and> canonicalHost h = label @ CHR ''.'' # s))) \<and>
    (canonicalHost p = ''**.'' @ s \<longrightarrow> (MatchHost p h \<longleftrightarrow>
      (\<exists>labels. labels \<noteq> [] \<and> canonicalHost h = labels @ CHR ''.'' # s)))"
  using MatchHost_one_label [OF _ assms] MatchHost_any_depth [OF _ assms] by blast

lemma canonical_pattern_example:
  "canonicalHost ''*.a.io'' = ''*.'' @ ''a.io''" "canonicalHost ''x.a.io'' = ''x'' @ CHR ''.'' # ''a.io''"
  by (simp_all add: canonicalHost_def TrimSpace_def trim_with_def is_space_def ToLower_def lower_char_def
      TrimSuffix_def suffix_to_prefix)

theorem host_wildcards_spec_witness: "MatchHost ''*.a.io'' ''x.a.io''"
proof -
  have "''a.io'' \<noteq> []" by simp
  from host_wildcards_spec [OF this, of "''*.a.io''" "''x.a.io''"] canonical_pattern_example
  have "MatchHost ''*.a.io'' ''x.a.io'' \<longleftrightarrow> (\<exists>label. label \<noteq> [] \<and> CHR ''.'' \<notin> set label \<and>
      ''x'' @ CHR ''.'' # ''a.io'' = label @ CHR ''.'' # ''a.io'')" by simp
  then show ?thesis by auto
qed

text \<open>
  A pattern that is only a wildcard and a dot is not a one-label wildcard: canonicalisation
  removes the dot and the pattern matches every host, while the sort still ranks it above
  \<open>*\<close>.
\<close>

theorem bare_wildcard_dot_matches_every_host:
  "(MatchHost ''*.'' h \<longleftrightarrow> canonicalHost h \<noteq> []) \<and> (MatchHost ''**.'' h \<longleftrightarrow> canonicalHost h \<noteq> []) \<and>
   hostSpecificity ''*.'' = 2 \<and> hostSpecificity ''**.'' = 1 \<and> hostSpecificity ''*'' = 0"
proof -
  have "canonicalHost ''*.'' = ''*''" "canonicalHost ''**.'' = ''**''"
    by (simp_all add: canonicalHost_def TrimSpace_def trim_with_def is_space_def ToLower_def lower_char_def
        TrimSuffix_def suffix_to_prefix)
  then show ?thesis by (simp add: MatchHost_def hostSpecificity_def)
qed

end
