(* ===== verification/Client_Properties.thy ===== *)
theory Client_Properties
  imports Examples
begin

text \<open>
  The properties of the destination guard and of the identity of the client: which addresses the
  relay never dials, whom a connection is attributed to, and how long a miss is remembered.
\<close>

section \<open>The guard\<close>

text \<open>The configured ranges are the defaults and the extra ones, in both families.\<close>

lemma map_result_ex:
  "map_result f xs = Inr ys \<Longrightarrow> (\<exists>y\<in>set ys. Q y) \<longleftrightarrow> (\<exists>x\<in>set xs. \<exists>y. f x = Inr y \<and> Q y)"
  by (induction xs arbitrary: ys) (auto split: sum.splits)

lemma denied_by_ranges:
  assumes "New extra False = Inr g"
  shows "Denied g a \<longleftrightarrow> (\<exists>p\<in>set default_prefixes. Contains p (Unmap a)) \<or>
    (\<exists>cidr\<in>set extra. \<exists>p. parse_cidr cidr = Inr p \<and> Contains p (Unmap a))"
proof -
  from assms obtain ps where "map_result parse_cidr extra = Inr ps" "g_denied g = default_prefixes @ ps"
    by (auto simp: New_def map_result_append parse_defaults split: sum.splits)
  then show ?thesis using map_result_ex [of parse_cidr extra ps "\<lambda>p. Contains p (Unmap a)"]
    by (auto simp: Denied_iff)
qed

lemma New_default_guard: "New [] False = Inr \<lparr>g_denied = default_prefixes\<rparr>"
  by (simp add: New_def parse_defaults)

text \<open>
  C11. What the guard denies, exactly, with the default ranges kept: an IPv4 address is denied
  when it is in this network, 10/8, loopback, 100.64/10, link-local (the metadata service among
  it), 172.16/12, 192.0.0/24, 192.168/16, 198.18/15, multicast or reserved space, or in an extra
  range; its IPv4-mapped form is denied alike, with or without a zone; any other IPv6 address is
  denied when it carries no zone and is loopback, unique-local, link-local or multicast, or in an
  extra range. An IPv6 address with a zone escapes every range.
\<close>

theorem denied_addresses:
  assumes "New extra False = Inr g"
  shows "(Denied g (V4 w) \<longleftrightarrow>
      unat w div 2 ^ 24 \<in> {0, 10, 127} \<or> unat w div 2 ^ 22 = 401 \<or> unat w div 2 ^ 16 \<in> {43518, 49320} \<or>
      unat w div 2 ^ 20 = 2753 \<or> unat w div 2 ^ 8 = 12582912 \<or> unat w div 2 ^ 17 = 25353 \<or>
      unat w div 2 ^ 28 \<in> {14, 15} \<or>
      (\<exists>cidr\<in>set extra. \<exists>p. parse_cidr cidr = Inr p \<and> Contains p (V4 w))) \<and>
    (Denied g (V6 v z) \<longleftrightarrow>
      (if drop_bit 32 v = 0xFFFF then Denied g (V4 (ucast v))
       else z = [] \<and>
         (unat v = 1 \<or> unat v div 2 ^ 121 = 126 \<or> unat v div 2 ^ 118 = 1018 \<or> unat v div 2 ^ 120 = 255 \<or>
          (\<exists>cidr\<in>set extra. \<exists>p. parse_cidr cidr = Inr p \<and> Contains p (V6 v [])))))"
proof (intro conjI)
  show "Denied g (V4 w) \<longleftrightarrow>
      unat w div 2 ^ 24 \<in> {0, 10, 127} \<or> unat w div 2 ^ 22 = 401 \<or> unat w div 2 ^ 16 \<in> {43518, 49320} \<or>
      unat w div 2 ^ 20 = 2753 \<or> unat w div 2 ^ 8 = 12582912 \<or> unat w div 2 ^ 17 = 25353 \<or>
      unat w div 2 ^ 28 \<in> {14, 15} \<or>
      (\<exists>cidr\<in>set extra. \<exists>p. parse_cidr cidr = Inr p \<and> Contains p (V4 w))"
    by (simp only: denied_by_ranges [OF assms] Unmap.simps default_V4 Let_def disj_assoc)
  show "Denied g (V6 v z) \<longleftrightarrow>
      (if drop_bit 32 v = 0xFFFF then Denied g (V4 (ucast v))
       else z = [] \<and>
         (unat v = 1 \<or> unat v div 2 ^ 121 = 126 \<or> unat v div 2 ^ 118 = 1018 \<or> unat v div 2 ^ 120 = 255 \<or>
          (\<exists>cidr\<in>set extra. \<exists>p. parse_cidr cidr = Inr p \<and> Contains p (V6 v []))))"
  proof (cases "drop_bit 32 v = 0xFFFF")
    case True
    then show ?thesis by (simp only: Denied_mapped if_True refl)
  next
    case False
    show ?thesis
    proof (cases "z = []")
      case True
      with False show ?thesis
        by (simp only: denied_by_ranges [OF assms] Unmap.simps default_V6 Let_def disj_assoc if_False True simp_thms)
    next
      case zoned: False
      with False zoned_never_denied [OF False zoned] show ?thesis by simp
    qed
  qed
qed

theorem denied_addresses_witness:
  "Denied \<lparr>g_denied = default_prefixes\<rparr> (V4 0xA9FEA9FE) \<and>
   Denied \<lparr>g_denied = default_prefixes\<rparr> (V6 0xFE800000000000000000000000000001 []) \<and>
   \<not> Denied \<lparr>g_denied = default_prefixes\<rparr> (V6 0xFE800000000000000000000000000001 ''eth0'') \<and>
   \<not> Denied \<lparr>g_denied = default_prefixes\<rparr> (V4 0x08080808)"
proof -
  note spec = denied_addresses [OF New_default_guard]
  have "Denied \<lparr>g_denied = default_prefixes\<rparr> (V4 0xA9FEA9FE)" by (subst spec [THEN conjunct1]) simp
  moreover have "\<not> Denied \<lparr>g_denied = default_prefixes\<rparr> (V4 0x08080808)" by (subst spec [THEN conjunct1]) simp
  moreover have "Denied \<lparr>g_denied = default_prefixes\<rparr> (V6 0xFE800000000000000000000000000001 [])"
    by (subst spec [THEN conjunct2]) simp
  moreover have "\<not> Denied \<lparr>g_denied = default_prefixes\<rparr> (V6 0xFE800000000000000000000000000001 ''eth0'')"
    by (subst spec [THEN conjunct2]) simp
  ultimately show ?thesis by blast
qed

text \<open>
  Resolution is all or nothing: \<open>Resolve\<close> succeeds exactly when the host, trimmed, is a
  permitted address literal or resolves to a non-empty list without a single denied address, and
  then it returns all of them, unmapped.
\<close>

theorem resolve_spec:
  "Resolve g dns host = Inr addrs \<longleftrightarrow>
     (let h = TrimSuffix (TrimSpace host) ''.'' in
      h \<noteq> [] \<and>
      (case ParseAddr h of
         Some a \<Rightarrow> \<not> Denied g a \<and> addrs = [Unmap a]
       | None \<Rightarrow> \<exists>ips. dns h = Inr ips \<and> ips \<noteq> [] \<and> \<not> (\<exists>ip\<in>set ips. Denied g ip) \<and> addrs = map Unmap ips))"
  by (auto simp: Resolve_def Let_def resolve_loop_Inr_iff split: option.splits sum.splits if_splits)

section \<open>Identity\<close>

lemma lookup_pick:
  "lookup e ip = Inr p \<Longrightarrow>
     \<exists>pods. (env_ByIndex e ip = Inr pods \<or> env_LivePods e ip = Inr pods) \<and> pickPod pods ip = Inr p"
  by (auto simp: lookup_def split: sum.splits if_splits)

text \<open>
  C15. Identity comes from the source address and nothing else: a connection is attributed to a
  pod that the index or the API server returned for the address of the connection, that is not on
  the host network, and that is the only live one where several share the address; the labels are
  that pod's and its namespace's.
\<close>

theorem identity_is_the_pod_of_the_address:
  assumes "Identify e ttl t1 t2 remote neg = (Inr wid, neg')"
  shows "\<exists>a p pods. AddrToIP remote = Inr a \<and> id_SourceIP wid = a \<and>
    (env_ByIndex e (addr_String a) = Inr pods \<or> env_LivePods e (addr_String a) = Inr pods) \<and> p \<in> set pods \<and>
    \<not> pod_HostNetwork p \<and> \<not> (2 \<le> length pods \<and> filter live_pod pods \<noteq> [p]) \<and>
    id_Namespace wid = pod_Namespace p \<and> id_Pod wid = pod_Name p \<and>
    id_ServiceAccount wid = pod_ServiceAccount p \<and> id_PodLabels wid = pod_Labels p \<and>
    namespace_labels e p = Inr (id_NamespaceLabels wid)"
proof -
  from assms obtain a p where i: "AddrToIP remote = Inr a" "lookup e (addr_String a) = Inr p"
      "\<not> pod_HostNetwork p" "namespace_labels e p = Inr (id_NamespaceLabels wid)"
      "id_Namespace wid = pod_Namespace p" "id_Pod wid = pod_Name p"
      "id_ServiceAccount wid = pod_ServiceAccount p" "id_PodLabels wid = pod_Labels p" "id_SourceIP wid = a"
    by (rule Identify_InrD)
  from lookup_pick [OF i(2)] obtain pods where
    pods: "env_ByIndex e (addr_String a) = Inr pods \<or> env_LivePods e (addr_String a) = Inr pods"
      "pickPod pods (addr_String a) = Inr p" by blast
  from pickPod_manyD [OF _ pods(2)] have "\<not> (2 \<le> length pods \<and> filter live_pod pods \<noteq> [p])" by blast
  with i pods(1) pickPod_member [OF pods(2)] show ?thesis by blast
qed

definition ex_pod :: pod where
  "ex_pod = \<lparr>pod_Namespace = ''ta'', pod_Name = ''p0'', pod_ServiceAccount = ''sa'', pod_Labels = Map.empty,
     pod_HostNetwork = False, pod_Deleting = False, pod_Phase = ''Running'', pod_PodIP = ''10.0.0.1'',
     pod_PodIPs = []\<rparr>"

definition ex_env :: env where
  "ex_env = \<lparr>env_ByIndex = (\<lambda>ip. Inr [ex_pod\<lparr>pod_Phase := PodFailed\<rparr>, ex_pod]), env_LivePods = (\<lambda>_. Inl ''unused''),
     env_NsCached = (\<lambda>_. Inr [''team'' \<mapsto> ''a'']), env_NsLive = (\<lambda>_. Inl ''unused'')\<rparr>"

lemma ex_live: "live_pod ex_pod" "\<not> live_pod (ex_pod\<lparr>pod_Phase := PodFailed\<rparr>)"
  by (simp_all add: live_pod_def ex_pod_def PodFailed_def PodSucceeded_def)

lemma ex_addr: "AddrToIP (Some ''10.0.0.1:4242'') = Inr (V4 0x0A000001)"
  by (simp add: AddrToIP_def SplitHostPort_def cut_last_def parse_eval Let_def)

lemma ex_identified:
  "Identify ex_env 5 0 0 (Some ''10.0.0.1:4242'') [] = (Inr ex_identity, [])"
  by (simp add: Identify_def ex_addr negativeHit_def lookup_def ex_env_def pickPod_many live_pod_def ex_pod_def
      PodFailed_def PodSucceeded_def namespace_labels_def ex_identity_def Let_def)

theorem identity_is_the_pod_of_the_address_witness:
  "\<exists>p pods. env_ByIndex ex_env (addr_String (V4 0x0A000001)) = Inr pods \<and> p \<in> set pods \<and>
     id_Pod ex_identity = pod_Name p \<and> filter live_pod pods = [p]"
  using identity_is_the_pod_of_the_address [OF ex_identified]
  by (auto simp: ex_addr ex_env_def ex_live)

text \<open>
  C32. A remembered miss never outlives its time: in every reachable state of the resolver no
  entry reaches further than the TTL from now, so a new pod that reuses an address is looked up
  again at the latest when the TTL has passed.
\<close>

theorem remembered_miss_expires:
  assumes "reachable neg_start (neg_step ttl) s" "ns_clock s + ttl < now"
  shows "fst (negativeHit now ip (ns_negative s)) = False"
proof -
  have bounded: "neg_bounded ttl s" by (rule neg.reachable_inv [OF assms(1)])
  have False if "negativeHit now ip (ns_negative s) = (True, neg')" for neg'
  proof -
    from negativeHit_fresh [OF that] obtain until where
      "map_of (ns_negative s) ip = Some until" "now \<le> until" by blast
    with bounded assms(2) show False by (auto simp: neg_bounded_def dest!: map_of_SomeD)
  qed
  then show ?thesis by (metis prod.collapse)
qed

definition ex_empty_env :: env where
  "ex_empty_env = ex_env\<lparr>env_ByIndex := (\<lambda>_. Inr []), env_LivePods := (\<lambda>_. Inr [])\<rparr>"

lemma ex_missed:
  "Identify ex_empty_env 5 0 0 (Some ''10.0.0.1:4242'') [] =
     (Inl (UnknownClient (addr_String (V4 0x0A000001))), [(addr_String (V4 0x0A000001), 5)])"
  by (simp add: Identify_def ex_addr negativeHit_def lookup_def ex_empty_env_def ex_env_def rememberMiss_def Let_def)

lemma ex_missed_reachable:
  "reachable neg_start (neg_step 5) \<lparr>ns_clock = 0, ns_negative = [(addr_String (V4 0x0A000001), 5)]\<rparr>"
proof -
  let ?s = "\<lparr>ns_clock = 0, ns_negative = []\<rparr>"
  have "reachable neg_start (neg_step 5) ?s" by (rule reach_start) (simp add: neg_start_def)
  moreover have "neg_step 5 ?s (?s\<lparr>ns_clock := 0, ns_negative := [(addr_String (V4 0x0A000001), 5)]\<rparr>)"
    using identified [of ?s 0 0 ex_empty_env 5 "Some ''10.0.0.1:4242''"] ex_missed by simp
  ultimately show ?thesis by (rule reach_step [THEN rev_mp]) simp_all
qed

theorem remembered_miss_expires_witness:
  "fst (negativeHit 6 (addr_String (V4 0x0A000001)) [(addr_String (V4 0x0A000001), 5)]) = False"
  using remembered_miss_expires [OF ex_missed_reachable, of 6 "addr_String (V4 0x0A000001)"] by simp

end
