(* ===== verification/Service_Properties.thy ===== *)
theory Service_Properties
  imports Examples Cabundle
begin

text \<open>
  The properties of the relay's services: credentials and dialling, the snapshot of the policies,
  the certificate issuer and its authority, the published CA bundle, and the configuration.
\<close>

section \<open>The upstream dialer\<close>

text \<open>
  The relay authenticates only with Secrets of its own namespace: a \<open>Proxy-Authorization\<close>
  sent on a CONNECT is the Basic encoding of a user name and a password that the Secret named by
  the profile holds in that namespace, newlines trimmed.
\<close>

theorem sent_credentials_are_pinned:
  assumes "SentConnect a hp (Some value) \<in>
    set (snd (Dial (d\<lparr>d_creds := Some (Credentials reader own)\<rparr>) net (Some profile) t))"
  shows "\<exists>ref data uk pk u p. up_Credentials profile = Some ref \<and>
    reader (own, ref_Name ref) = Inr data \<and> data uk = Some u \<and> data pk = Some p \<and>
    value = basic_auth (trim_newlines u) (trim_newlines p)"
  using pinned.sent_credentials_stored [OF assms] by (fastforce simp: pinned_secret_def)

definition ex_target :: target where
  "ex_target = \<lparr>t_Host = ''a.io'', t_Port = 443, t_Addrs = []\<rparr>"

lemma ex_sent:
  "SentConnect ''px:1'' ''a.io:443'' (Some (basic_auth ''u'' ''p'')) \<in>
     set (snd (Dial (ex_dialer\<lparr>d_creds := Some (Credentials ex_secrets ''relay'')\<rparr>) ex_net (Some ex_profile) ex_target))"
  by (simp add: Dial_def ex_dialer_def ex_net_def ex_profile_def matchesNoProxy_def dialProxy_def ex_target_def
      proxy_address_def url_Port_def url_split_def cut_last_def is_digit_def connect_def profile_auth_def
      Credentials_def ex_secrets_def orDefault_def DefaultUsernameKey_def DefaultPasswordKey_def
      trim_newlines_def TrimRight_def hostPort_def JoinHostPort_def Let_def) code_simp

theorem sent_credentials_are_pinned_witness:
  "\<exists>ref data uk pk u p. up_Credentials ex_profile = Some ref \<and> ex_secrets (''relay'', ref_Name ref) = Inr data \<and>
     data uk = Some u \<and> data pk = Some p \<and> basic_auth ''u'' ''p'' = basic_auth (trim_newlines u) (trim_newlines p)"
  by (rule sent_credentials_are_pinned [OF ex_sent])

text \<open>
  C28. A dial leaks no connection: once the proxy accepted the TCP connection, a dial that fails
  in the handshake, the credentials, the write or the answer closes it, exactly once, and a dial
  that succeeds leaves it open.
\<close>

theorem dial_closes_on_failure:
  assumes "\<not> matchesNoProxy (up_NoProxy profile) (t_Host t)"
    and "d_url_parse d (up_URL profile) = Inr u" "net_dial net (proxy_address u) = Inr ()"
  shows "closes (snd (Dial d net (Some profile) t)) =
    (if is_ok (fst (Dial d net (Some profile) t)) then [] else [proxy_address u])"
proof (cases rule: Dial_cases [OF assms(1), of d net])
  case (1 e)
  with assms(2) show ?thesis by simp
next
  case (2 u' e ev)
  with assms(2,3) show ?thesis
    by (auto simp: dialProxy_def Let_def split: if_splits sum.splits)
next
  case (3 u' c ev e ev2)
  with assms(2) dialProxy_conn [of net u c] dialProxy_closes [of net u c] connect_closes [of d net c u profile t]
  show ?thesis by simp
next
  case (4 u' c ev c' ev2)
  with assms(2) dialProxy_closes [of net u c] connect_closes [of d net c u profile t]
  show ?thesis by simp
qed

theorem dial_closes_on_failure_witness:
  "closes (snd (Dial ex_dialer (ex_net\<lparr>net_write := (\<lambda>_. Inl ''reset'')\<rparr>) (Some ex_profile) ex_target)) = [''px:1'']"
proof -
  let ?u = "\<lparr>url_Scheme = ''http'', url_Host = ''px:1''\<rparr>"
  let ?net = "ex_net\<lparr>net_write := (\<lambda>_. Inl ''reset'')\<rparr>"
  have a: "proxy_address ?u = ''px:1''"
    by (simp add: proxy_address_def url_Port_def url_split_def cut_last_def is_digit_def Let_def)
  have h: "\<not> matchesNoProxy (up_NoProxy ex_profile) (t_Host ex_target)"
    "d_url_parse ex_dialer (up_URL ex_profile) = Inr ?u" "net_dial ?net (proxy_address ?u) = Inr ()"
    by (simp_all add: ex_profile_def matchesNoProxy_def ex_dialer_def ex_net_def)
  have "\<not> is_ok (fst (Dial ex_dialer ?net (Some ex_profile) ex_target))"
    using a by (simp add: Dial_def h(1) h(2) dialProxy_def ex_net_def connect_def profile_auth_def ex_dialer_def
        ex_profile_def Credentials_def ex_secrets_def orDefault_def DefaultUsernameKey_def DefaultPasswordKey_def
        matchesNoProxy_def Let_def)
  with dial_closes_on_failure [OF h] a show ?thesis by simp
qed

section \<open>The snapshot\<close>

text \<open>
  C40. The two event handlers refresh without a lock, and a slow one can publish what it read
  before the other's update: for every change of the policies there is a run after which nothing
  is pending and the relay still decides on the policies from before the change.
\<close>

theorem stale_snapshot_can_persist:
  "\<exists>s. reachable (store_start old ups) store_step s \<and> quiescent s \<and> sys_policies s = new \<and>
     snap_policies (sys_snapshot s) = old"
proof -
  define s0 where "s0 = \<lparr>sys_policies = old, sys_upstreams = ups, sys_snapshot = build_snapshot old ups,
    sys_pending = (\<lambda>_. 0), sys_progress = (\<lambda>_. Waiting)\<rparr>"
  define s1 where "s1 = s0\<lparr>sys_upstreams := ups,
    sys_pending := (sys_pending s0)(UpstreamHandler := Suc (sys_pending s0 UpstreamHandler))\<rparr>"
  define s2 where "s2 = s1\<lparr>sys_pending := (sys_pending s1)(UpstreamHandler := 0),
    sys_progress := (sys_progress s1)(UpstreamHandler := Started)\<rparr>"
  have "reachable (store_start old ups) store_step s0"
    by (rule reach_start) (simp add: store_start_def s0_def)
  moreover have "store_step s0 s1" unfolding s1_def by (rule change_upstreams)
  moreover have "store_step s1 s2" unfolding s2_def
    by (rule take_event) (simp_all add: s1_def s0_def)
  ultimately have r2: "reachable (store_start old ups) store_step s2" by (meson reach_step)
  have "store_step\<^sup>*\<^sup>* s2 (s2\<lparr>sys_policies := new, sys_pending := (\<lambda>_. 0),
      sys_snapshot := build_snapshot (sys_policies s2) (sys_upstreams s2), sys_progress := (\<lambda>_. Waiting)\<rparr>)"
    by (rule stale_publication) (simp_all add: s2_def s1_def s0_def)
  from reachable_steps [OF this r2] show ?thesis
    by (intro exI conjI, assumption) (simp_all add: quiescent_def build_snapshot_def s2_def s1_def s0_def)
qed

section \<open>The certificate issuer\<close>


definition ex_ca_cert :: x509 where
  "ex_ca_cert = zero_x509\<lparr>x_Raw := ''ca'', x_IsCA := True\<rparr>"

definition ex_ca :: ca where
  "ex_ca = \<lparr>ca_Ref = 0, ca_Certificate = ex_ca_cert, ca_Key = Some 7, ca_CertPEM = ''ca''\<rparr>"

definition ex_bundle :: trust_bundle where
  "ex_bundle = \<lparr>b_Current = Some ex_ca, b_Next = None\<rparr>"

definition ex_leaf_crypto :: crypto where
  "ex_leaf_crypto = \<lparr>cr_key = Inr 9, cr_serial = Inr 1, cr_create = (\<lambda>_ _ _ _. Inr ''leaf''),
     cr_parse = (\<lambda>_. Inr zero_x509), cr_marshal = (\<lambda>_. Inl []), cr_pkcs8 = (\<lambda>_. Inl []),
     cr_ec = (\<lambda>_. Inl []), cr_pkcs1 = (\<lambda>_. Inl []), pem_encode = (\<lambda>_ der. der), pem_decode = (\<lambda>_. None)\<rparr>"

definition ex_leaf :: tls_cert where
  "ex_leaf = \<lparr>tc_Certificate = [''leaf'', ''ca''], tc_PrivateKey = 9, tc_Leaf = zero_x509\<rparr>"

lemma ex_mint: "mint ex_leaf_crypto 0 v ex_ca ''b.io'' = Inr (ex_leaf, v)"
  by (simp add: mint_def ex_leaf_crypto_def randomSerial_def ex_ca_def ex_ca_cert_def ex_leaf_def Let_def)

lemma ex_handed:
  "\<exists>s. reachable (issuer_start (\<lambda>_. ex_ca_cert)) (issuer_step (\<lambda>_. ex_ca_cert)) s \<and> is_validity (ms_issuer s) = 10 \<and>
     ms_handed s = [\<lparr>hd_host = ''b.io'', hd_ca = ex_ca, hd_cert = ex_leaf, hd_time = 0, hd_cached = False\<rparr>]"
proof -
  let ?R = "reachable (issuer_start (\<lambda>_. ex_ca_cert)) (issuer_step (\<lambda>_. ex_ca_cert))"
  define i0 where "i0 = \<lparr>is_bundle = ex_bundle, is_validity = 10, is_maxSize = 2, is_entries = Map.empty,
    is_order = [], is_fresh = 0\<rparr>"
  define s0 where "s0 = \<lparr>ms_issuer = i0, ms_clock = 0, ms_calls = [], ms_handed = []\<rparr>"
  define s1 where "s1 = s0\<lparr>ms_issuer := i0, ms_calls := Minting ''b.io'' ex_ca # ms_calls s0\<rparr>"
  define s2 where "s2 = s1\<lparr>ms_calls := [] @ Storing ''b.io'' ex_ca ex_leaf 10 # []\<rparr>"
  have cfg: "placed (\<lambda>_. ex_ca_cert) ex_bundle" "b_Current (is_bundle i0) = Some ex_ca"
    by (simp_all add: placed_def ex_bundle_def ex_ca_def i0_def)
  have pr: "probe 0 ex_ca ''b.io'' i0 = (None, i0)" by (simp add: probe_def i0_def)
  have "NewIssuer (Some ex_bundle) 10 2 = Inr i0" by (simp add: NewIssuer_def ex_bundle_def i0_def)
  with cfg have "?R s0" by (intro reach_start) (auto simp: issuer_start_def s0_def)
  moreover have "issuer_step (\<lambda>_. ex_ca_cert) s0 s1" unfolding s1_def
    by (rule issuer_step.miss) (use cfg pr in \<open>simp_all add: s0_def\<close>)
  moreover have "issuer_step (\<lambda>_. ex_ca_cert) s1 s2" unfolding s2_def
    by (rule issuer_step.minted [of _ _ _ _ _ ex_leaf_crypto]) (simp_all add: s1_def s0_def i0_def ex_mint)
  ultimately have r2: "?R s2" by (meson reach_step)
  define i3 where "i3 = snd (snd (store 0 ex_ca ''b.io'' ex_leaf 10 i0))"
  have st: "store 0 ex_ca ''b.io'' ex_leaf 10 i0 = (ex_leaf, Some MintLeaf, i3)"
    using pr by (simp add: i3_def store_def)
  have lk: "linked i0" by (simp add: linked_def i0_def)
  from store_keeps [OF lk _ st] have v: "is_validity i3 = 10" by (simp add: same_config_def i0_def)
  define s3 where "s3 = s2\<lparr>ms_issuer := i3, ms_calls := [] @ [],
      ms_handed := \<lparr>hd_host = ''b.io'', hd_ca = ex_ca, hd_cert = ex_leaf, hd_time = ms_clock s2,
        hd_cached = (Some MintLeaf = None)\<rparr> # ms_handed s2\<rparr>"
  have "issuer_step (\<lambda>_. ex_ca_cert) s2 s3" unfolding s3_def
    by (rule issuer_step.stored) (use st in \<open>simp_all add: s2_def s1_def s0_def\<close>)
  with r2 have "?R s3" by (rule reach_step)
  moreover have "is_validity (ms_issuer s3) = 10" using v by (simp add: s3_def)
  moreover have "ms_handed s3 = [\<lparr>hd_host = ''b.io'', hd_ca = ex_ca, hd_cert = ex_leaf, hd_time = 0, hd_cached = False\<rparr>]"
    by (simp add: s3_def s2_def s1_def s0_def)
  ultimately show ?thesis by blast
qed


text \<open>
  C24. The map and the doubly linked list of the cache implement a bounded LRU list: probing and
  storing are the abstract operations on the list of hosts and entries in order of use, for every
  issuer whose two structures agree, and both keep them in agreement and within the bound.
\<close>

theorem cache_refines_lru:
  assumes "issuer_ok i"
  shows "lru_probe now c host (lru i) = map_prod id lru (probe now c host i) \<and>
    issuer_ok (snd (probe now c host i)) \<and>
    (case store now c host cert notAfter i of (r, m, j) \<Rightarrow>
       lru_store now c (is_maxSize i) (entry_for (is_validity i) c host cert notAfter) (lru i) = (r, lru j) \<and>
       issuer_ok j)"
proof -
  have lk: "linked i" "length (is_order i) \<le> is_maxSize i" "configured i"
    using assms by (simp_all add: issuer_ok_def)
  obtain r j where p: "probe now c host i = (r, j)" by fastforce
  obtain r' m k where s: "store now c host cert notAfter i = (r', m, k)" by (metis prod_cases3)
  from probe_keeps [OF lk(1,2) p] store_keeps [OF lk(1,2) s] same_config_configured [of i j]
    same_config_configured [of i k] lk(3) have "issuer_ok j" "issuer_ok k"
    by (simp_all add: issuer_ok_def)
  with probe_refines [OF lk(1), of now c host] store_refines [OF lk(1) s] p s show ?thesis by simp
qed

definition ex_issuer :: issuer where
  "ex_issuer = \<lparr>is_bundle = ex_bundle, is_validity = 10, is_maxSize = 2, is_entries = Map.empty,
     is_order = [], is_fresh = 0\<rparr>"

lemma ex_issuer_ok: "issuer_ok ex_issuer"
  by (simp add: issuer_ok_def configured_def linked_def ex_issuer_def ex_bundle_def)

theorem cache_refines_lru_witness: "issuer_ok (snd (probe 3 ex_ca ''b.io'' ex_issuer))"
  using cache_refines_lru [OF ex_issuer_ok] by blast

section \<open>The certificate authority\<close>

text \<open>
  What the first install writes is what every later start reads: the bundle that
  \<open>initCASecret\<close> returns is the one \<open>bundleFromSecret\<close> loads from the Secret it created, with a
  private key, and its certificate is a CA that may sign certificates and may not have
  intermediates. The hypothesis is that the encoders of the standard library are inverted by its
  decoders.
\<close>

theorem first_install_round_trip:
  assumes "codec_laws cr" "initCASecret cr ref now created = (Inr b, Some d)"
  shows "bundleFromSecret cr ref d = Inr b \<and> created d = Inr () \<and> b_Next b = None \<and>
    (\<exists>c. b_Current b = Some c \<and> ca_Key c \<noteq> None \<and> x_IsCA (ca_Certificate c) \<and>
       x_MaxPathLenZero (ca_Certificate c) \<and> KeyUsageCertSign \<in> x_KeyUsage (ca_Certificate c) \<and>
       PEM b = ca_CertPEM c)"
proof -
  from assms(2) obtain c keyPEM where g: "GenerateCA cr ref now ''proxy-relay-control'' DefaultCAValidity = Inr c"
    "MarshalKey cr c = Inr keyPEM" "b = \<lparr>b_Current = Some c, b_Next = None\<rparr>"
    "d = [caCertKey \<mapsto> ca_CertPEM c, caKeyKey \<mapsto> keyPEM]" "created d = Inr ()"
    by (auto simp: initCASecret_def Let_def split: sum.splits)
  have d: "data_at d caCertKey = ca_CertPEM c" "data_at d caKeyKey = keyPEM" "d nextCACertKey = None"
    by (simp_all add: g(4) data_at_def caCertKey_def caKeyKey_def nextCACertKey_def)
  from LoadCA_GenerateCA [OF assms(1) g(1,2)] d have "bundleFromSecret cr ref d = Inr b"
    by (simp add: bundleFromSecret_def g(3))
  moreover from GenerateCA_parts [OF assms(1) g(1)] have
    "ca_Key c \<noteq> None \<and> x_IsCA (ca_Certificate c) \<and> x_MaxPathLenZero (ca_Certificate c) \<and>
     KeyUsageCertSign \<in> x_KeyUsage (ca_Certificate c)"
    by (auto simp: encoded_def ca_template_def)
  ultimately show ?thesis using g(3,5) by (simp add: PEM_def)
qed

definition ex_template :: x509 where
  "ex_template = ca_template ''proxy-relay-control'' DefaultCAValidity 1 0"

definition ex_install_crypto :: crypto where
  "ex_install_crypto = \<lparr>cr_key = Inr 3, cr_serial = Inr 1,
     cr_create = (\<lambda>tmpl _ _ _. if tmpl = ex_template then Inr ''der'' else Inl ''unsupported''),
     cr_parse = (\<lambda>_. Inr (encoded ex_template ''der'')),
     cr_marshal = (\<lambda>k. case k of None \<Rightarrow> Inl ''no key'' | Some n \<Rightarrow> Inr (replicate n CHR ''k'')),
     cr_pkcs8 = (\<lambda>der. Inr (Signer (length der))), cr_ec = (\<lambda>_. Inl []), cr_pkcs1 = (\<lambda>_. Inl []),
     pem_encode = (\<lambda>ty der. replicate (length ty) CHR ''-'' @ CHR ''+'' # ty @ der),
     pem_decode = (\<lambda>s. let n = length (takeWhile (\<lambda>ch. ch = CHR ''-'') s); rest = drop (Suc n) s in
        Some (take n rest, drop n rest))\<rparr>"

lemma ex_install_codec: "codec_laws ex_install_crypto"
  by (simp add: codec_laws_def ex_install_crypto_def takeWhile_append Let_def)

lemma ex_installed:
  "\<exists>b d. initCASecret ex_install_crypto 0 0 (\<lambda>_. Inr ()) = (Inr b, Some d)"
  by (simp add: initCASecret_def GenerateCA_def ex_install_crypto_def randomSerial_def MarshalKey_def
      ex_template_def DefaultCAValidity_def second_def Let_def)

theorem first_install_round_trip_witness:
  "\<exists>b d. initCASecret ex_install_crypto 0 0 (\<lambda>_. Inr ()) = (Inr b, Some d) \<and>
     bundleFromSecret ex_install_crypto 0 d = Inr b"
proof -
  from ex_installed obtain b d where i: "initCASecret ex_install_crypto 0 0 (\<lambda>_. Inr ()) = (Inr b, Some d)" by blast
  from first_install_round_trip [OF ex_install_codec i] i show ?thesis by blast
qed

section \<open>The published bundle\<close>


definition ex_namespace :: kube_namespace where
  "ex_namespace = \<lparr>ns_Name = ''ta'', ns_Labels = [''team'' \<mapsto> ''a''], ns_Deleting = False\<rparr>"

definition ex_foreign :: configmap where
  "ex_foreign = \<lparr>cm_Name = ''other'', cm_Namespace = ''ta'', cm_Labels = Map.empty, cm_Data = Map.empty\<rparr>"

definition ex_cluster :: cluster where
  "ex_cluster = ([ex_namespace], [(''ta'', ''other'') \<mapsto> ex_foreign])"

definition ex_snapshot :: "(string \<times> string) list snapshot" where
  "ex_snapshot = build_snapshot [ex_policy] [ex_profile]"

lemma ex_sync_ok:
  "fst (Sync (memory_api (\<lambda>_ _. False)) match_labels ''bundle'' ex_bundle ex_snapshot ex_cluster) = None"
  by (simp add: Sync_def PEM_def ex_bundle_def ex_ca_def memory_api_def ex_cluster_def inspectedSelectors_def
      InspectedPolicies_def ex_snapshot_def build_snapshot_def has_inspect_def ex_policy_def ex_inspect_def
      match_labels_def sync_one_def ex_namespace_def publish_def held_def new_configmap_def cm_key_def Let_def)

lemma ex_wants: "wants_bundle match_labels ex_snapshot (ns_Labels ex_namespace)"
  by (simp add: wants_bundle_def ex_snapshot_def build_snapshot_def ex_policy_def has_inspect_def ex_inspect_def
      match_labels_def ex_namespace_def)


section \<open>Configuration\<close>

text \<open>
  \<open>Validate\<close> does not look at the CA sync interval: the defaults with an interval of zero are
  accepted, and the rotation watcher started on them panics when it creates its ticker.
\<close>

theorem zero_sync_interval_panics:
  "Validate ((Default getenv)\<lparr>CASyncInterval := 0\<rparr>) = None \<and>
   watchCARotation cr ((Default getenv)\<lparr>CASyncInterval := 0\<rparr>) rounds i = None"
proof -
  have "Validate ((Default getenv)\<lparr>CASyncInterval := 0\<rparr>) = None"
    by (simp add: Validate_None_iff Default_def envOr_def seconds_def)
  then show ?thesis by (simp add: watchCARotation_def NewTicker_def)
qed

end
