(* ===== verification/Lifecycle.thy ===== *)
theory Lifecycle
  imports Config
begin

text \<open>
  \<open>internal/proxy/server.go\<close>: \<open>New\<close> and the life of the accept loop. \<open>Serve\<close>, the goroutine of
  each connection and the shutdown goroutine run concurrently; a state is what they share (the
  listener, the set of tracked connections, the wait group, which connections are closed) and
  where each of them is. A connection is the number of its acceptance.
\<close>

section \<open>Building a server\<close>

record options =
  so_Identity :: bool
  so_Engine :: bool
  so_Dialer :: bool
  so_HandshakeTimeout :: int
  so_IdleTimeout :: int
  so_ShutdownGrace :: int
  so_Ready :: "bool option"

datatype server_error = MissingDependency

text \<open>
  \<open>proxy.New\<close>: the first three fields say whether the dependency is there; \<open>so_Ready\<close> is what the
  readiness function answers, \<open>None\<close> when none is given.
\<close>

definition server_New :: "options \<Rightarrow> (server_error, options) result" where
  "server_New opts =
     (if \<not> so_Identity opts \<or> \<not> so_Engine opts \<or> \<not> so_Dialer opts then Inl MissingDependency
      else
        let o1 = (if so_HandshakeTimeout opts \<le> 0 then opts\<lparr>so_HandshakeTimeout := seconds 30\<rparr> else opts);
            o2 = (if so_IdleTimeout o1 \<le> 0 then o1\<lparr>so_IdleTimeout := seconds 300\<rparr> else o1);
            o3 = (if so_Ready o2 = None then o2\<lparr>so_Ready := Some True\<rparr> else o2)
        in Inr o3)"

lemma server_New_timeouts:
  "server_New opts = Inr out \<Longrightarrow> 0 < so_HandshakeTimeout out \<and> 0 < so_IdleTimeout out \<and> so_Ready out \<noteq> None \<and>
     so_ShutdownGrace out = so_ShutdownGrace opts"
  by (auto simp: server_New_def Let_def seconds_def split: if_splits)

section \<open>Serving\<close>

datatype loop =
    Accepting
  | Holding nat
  | Tracked nat
  | Stopped
  | Returned

datatype drain_phase = NotDraining | Draining int | Drained

record serve_sys =
  lc_now :: int
  lc_cancelled :: bool
  lc_listening :: bool
  lc_loop :: loop
  lc_accepted :: nat
  lc_conns :: "nat set"
  lc_running :: "nat set"
  lc_closed :: "nat set"
  lc_drain :: drain_phase

text \<open>
  The steps. The loop holds a connection between \<open>Accept\<close> and \<open>track\<close> and between \<open>track\<close> and the
  start of its goroutine (\<open>wg.Add\<close>); \<open>handled\<close> is the end of \<open>handle\<close> with its deferred close and
  \<open>untrack\<close>, \<open>finished\<close> the deferred \<open>wg.Done\<close>. \<open>drained_idle\<close> is the branch of \<open>drain\<close> in which
  the wait group was empty within the grace period, \<open>drained_late\<close> the one that closes what is
  tracked, at once when there is no grace period.
\<close>

inductive serve_step :: "int \<Rightarrow> serve_sys \<Rightarrow> serve_sys \<Rightarrow> bool" for grace where
  clock: "lc_now s \<le> t \<Longrightarrow> serve_step grace s (s\<lparr>lc_now := t\<rparr>)"
| cancel: "serve_step grace s (s\<lparr>lc_cancelled := True\<rparr>)"
| accepted: "lc_loop s = Accepting \<Longrightarrow> lc_listening s \<Longrightarrow>
    serve_step grace s (s\<lparr>lc_loop := Holding (lc_accepted s), lc_accepted := Suc (lc_accepted s)\<rparr>)"
| tracked: "lc_loop s = Holding c \<Longrightarrow>
    serve_step grace s (s\<lparr>lc_loop := Tracked c, lc_conns := insert c (lc_conns s)\<rparr>)"
| spawned: "lc_loop s = Tracked c \<Longrightarrow>
    serve_step grace s (s\<lparr>lc_loop := Accepting, lc_running := insert c (lc_running s)\<rparr>)"
| handled: "c \<in> lc_running s \<Longrightarrow>
    serve_step grace s (s\<lparr>lc_closed := insert c (lc_closed s), lc_conns := lc_conns s - {c}\<rparr>)"
| finished: "c \<in> lc_running s \<Longrightarrow> c \<in> lc_closed s \<Longrightarrow> c \<notin> lc_conns s \<Longrightarrow>
    serve_step grace s (s\<lparr>lc_running := lc_running s - {c}\<rparr>)"
| listener_closed: "lc_cancelled s \<Longrightarrow> lc_drain s = NotDraining \<Longrightarrow>
    serve_step grace s (s\<lparr>lc_listening := False, lc_drain := Draining (lc_now s)\<rparr>)"
| accept_failed: "lc_loop s = Accepting \<Longrightarrow> serve_step grace s (s\<lparr>lc_loop := Stopped\<rparr>)"
| drained_idle: "lc_drain s = Draining t \<Longrightarrow> 0 < grace \<Longrightarrow> lc_running s = {} \<Longrightarrow>
    serve_step grace s (s\<lparr>lc_drain := Drained\<rparr>)"
| drained_late: "lc_drain s = Draining t \<Longrightarrow> grace \<le> 0 \<or> t + grace \<le> lc_now s \<Longrightarrow>
    serve_step grace s (s\<lparr>lc_drain := Drained, lc_closed := lc_closed s \<union> lc_conns s\<rparr>)"
| returned: "lc_loop s = Stopped \<Longrightarrow> lc_running s = {} \<Longrightarrow> serve_step grace s (s\<lparr>lc_loop := Returned\<rparr>)"

inductive_cases serve_stepE: "serve_step grace s t"

definition serve_start :: "serve_sys \<Rightarrow> bool" where
  "serve_start s \<longleftrightarrow> \<not> lc_cancelled s \<and> lc_listening s \<and> lc_loop s = Accepting \<and> lc_accepted s = 0 \<and>
     lc_conns s = {} \<and> lc_running s = {} \<and> lc_closed s = {} \<and> lc_drain s = NotDraining"

text \<open>The connections the loop itself is still responsible for.\<close>

fun in_hand :: "loop \<Rightarrow> nat set" where
  "in_hand (Holding c) = {c}"
| "in_hand (Tracked c) = {c}"
| "in_hand _ = {}"

definition serve_inv :: "serve_sys \<Rightarrow> bool" where
  "serve_inv s \<longleftrightarrow>
     {c. c < lc_accepted s} \<subseteq> lc_closed s \<union> lc_running s \<union> in_hand (lc_loop s) \<and>
     lc_conns s \<union> lc_running s \<union> lc_closed s \<union> in_hand (lc_loop s) \<subseteq> {c. c < lc_accepted s} \<and>
     in_hand (lc_loop s) \<inter> lc_running s = {} \<and>
     lc_conns s \<subseteq> lc_running s \<union> in_hand (lc_loop s) \<and>
     (lc_loop s = Returned \<longrightarrow> lc_running s = {}) \<and>
     (lc_listening s \<longleftrightarrow> lc_drain s = NotDraining) \<and> (\<not> lc_listening s \<longrightarrow> lc_cancelled s)"

lemma serve_inv_start: "serve_start s \<Longrightarrow> serve_inv s"
  by (simp add: serve_start_def serve_inv_def)

lemma serve_inv_step: "serve_inv s \<Longrightarrow> serve_step grace s t \<Longrightarrow> serve_inv t"
  by (erule serve_stepE) (auto simp: serve_inv_def less_Suc_eq)

interpretation serving: machine_invariant serve_start "serve_step grace" serve_inv for grace
  by unfold_locales (auto intro: serve_inv_start serve_inv_step)

text \<open>A drain that waited out its grace period closes every connection of a running handler.\<close>

lemma drained_late_closes:
  assumes "serve_inv s" "in_hand (lc_loop s) = {}" "lc_drain s = Draining t"
    and "grace \<le> 0 \<or> t + grace \<le> lc_now s"
  shows "\<exists>u. serve_step grace s u \<and> lc_drain u = Drained \<and> lc_conns s \<subseteq> lc_closed u"
  using drained_late [OF assms(3,4)] by (intro exI) auto

end
