(* ===== verification/Startup.thy ===== *)
theory Startup
  imports Command Lifecycle
begin

text \<open>
  \<open>serve\<close> of \<open>cmd/relay/serve.go\<close>: how the relay is put together, in the order of the code, up to
  the moment it listens, with the error of each stage, and the admin endpoint it opens. What the
  Kubernetes client library, the file system and the network answer is a record of results.
\<close>

record ('pool, 'ls) boot =
  bt_kubeconfig :: "(string, unit) result"
  bt_schemes :: "(string, unit) result list"
  bt_clientset :: "(string, unit) result"
  bt_cache :: "(string, unit) result"
  bt_direct :: "(string, unit) result"
  bt_informers :: "(string, unit) result list"
  bt_indexers :: "(string, unit) result"
  bt_crypto :: crypto
  bt_ref :: nat
  bt_now :: int
  bt_secret :: "(get_error, secret_data) result"
  bt_created :: "secret_data \<Rightarrow> (string, unit) result"
  bt_readFile :: "string \<Rightarrow> (string, string) result"
  bt_systemPool :: "'pool option"
  bt_emptyPool :: 'pool
  bt_append :: "string \<Rightarrow> 'pool \<Rightarrow> 'pool \<times> bool"
  bt_cache_synced :: bool
  bt_pods_synced :: bool
  bt_namespaces_synced :: bool
  bt_policies :: "(string, 'ls egress_policy list) result"
  bt_upstreams :: "(string, upstream_proxy list) result"
  bt_listen :: "(string, unit) result"

datatype startup_error =
    InvalidConfig config_error
  | LoadKubeconfig string
  | AddScheme string
  | BuildClient string
  | BuildCache string
  | RegisterInformer string
  | PodIndex string
  | LoadCABundle rotation_error
  | BuildIssuer issuer_error
  | BuildGuard string
  | OriginRoots origin_error
  | BuildServer server_error
  | BuildController
  | CacheNotSynced
  | PodsNotSynced
  | FirstRefresh store_error
  | ListenFailed string

record ('pool, 'ls) service =
  sr_options :: options
  sr_guard :: guard
  sr_issuer :: issuer
  sr_snapshot :: "'ls snapshot"
  sr_provider :: provider
  sr_timeout :: int
  sr_origin :: "('pool \<times> int) option"
  sr_controller :: controller

text \<open>\<open>policy.NewStore\<close>: an informer and a handler for each kind; the store starts empty.\<close>

definition NewStore :: "(string, unit) result list \<Rightarrow> (string, 'ls snapshot) result" where
  "NewStore informers =
     (case map_result id informers of Inl e \<Rightarrow> Inl e | Inr _ \<Rightarrow> Inr empty_snapshot)"

text \<open>\<open>upstream.NewDialer\<close>: the timeout of a dialer.\<close>

definition dialer_timeout :: "int \<Rightarrow> int" where
  "dialer_timeout t = (if t \<le> 0 then seconds 10 else t)"

text \<open>From the caches on: they are started, waited for and read once before anything is served.\<close>

definition serve_caches ::
    "('pool, 'ls) boot \<Rightarrow> 'ls snapshot \<Rightarrow> (startup_error, 'ls snapshot) result" where
  "serve_caches bt blank =
     (if \<not> bt_cache_synced bt then Inl CacheNotSynced
      else if \<not> WaitForCacheSync (bt_pods_synced bt) (bt_namespaces_synced bt) then Inl PodsNotSynced
      else (case refreshErr (bt_policies bt) (bt_upstreams bt) blank of
              (Some e, _) \<Rightarrow> Inl (FirstRefresh e)
            | (None, snap) \<Rightarrow>
                (case bt_listen bt of Inl e \<Rightarrow> Inl (ListenFailed e) | Inr _ \<Rightarrow> Inr snap)))"

text \<open>From the CA on; \<open>store\<close> is the empty snapshot of the new store.\<close>

definition serve_parts ::
    "('pool, 'ls) boot \<Rightarrow> config \<Rightarrow> 'ls snapshot \<Rightarrow> provider \<Rightarrow> trust_bundle \<Rightarrow>
     (startup_error, ('pool, 'ls) service) result" where
  "serve_parts bt cfg blank pv b =
     (case NewIssuer (Some b) (LeafValidity cfg) DefaultCacheSize of
        Inl e \<Rightarrow> Inl (BuildIssuer e)
      | Inr iss \<Rightarrow>
     (case New (ExtraDeniedCIDRs cfg) (DisableDefaultDeniedCIDRs cfg) of
        Inl e \<Rightarrow> Inl (BuildGuard e)
      | Inr g \<Rightarrow>
     (case originTLSConfig (bt_readFile bt) (bt_systemPool bt) (bt_emptyPool bt) (bt_append bt)
             (OriginCAFile cfg) of
        Inl e \<Rightarrow> Inl (OriginRoots e)
      | Inr origin \<Rightarrow>
     (case server_New \<lparr>so_Identity = True, so_Engine = True, so_Dialer = True,
             so_HandshakeTimeout = HandshakeTimeout cfg, so_IdleTimeout = IdleTimeout cfg,
             so_ShutdownGrace = ShutdownGrace cfg, so_Ready = Some False\<rparr> of
        Inl e \<Rightarrow> Inl (BuildServer e)
      | Inr opts \<Rightarrow>
     (case controller_New True (CAConfigMapName cfg) (CASyncInterval cfg) of
        None \<Rightarrow> Inl BuildController
      | Some ct \<Rightarrow>
     (case serve_caches bt blank of
        Inl e \<Rightarrow> Inl e
      | Inr snap \<Rightarrow>
          Inr \<lparr>sr_options = opts\<lparr>so_Ready := Some True\<rparr>, sr_guard = g, sr_issuer = iss, sr_snapshot = snap,
               sr_provider = pv, sr_timeout = dialer_timeout (UpstreamTimeout cfg),
               sr_origin = origin, sr_controller = ct\<rparr>))))))"

text \<open>\<open>serve\<close>: the outcome, and the Secret it created on the way if it created one.\<close>

definition serve ::
    "('pool, 'ls) boot \<Rightarrow> config \<Rightarrow>
     (startup_error, ('pool, 'ls) service) result \<times> secret_data option" where
  "serve bt cfg =
     (case Validate cfg of Some e \<Rightarrow> (Inl (InvalidConfig e), None) | None \<Rightarrow>
      case bt_kubeconfig bt of Inl e \<Rightarrow> (Inl (LoadKubeconfig e), None) | Inr _ \<Rightarrow>
      case map_result id (bt_schemes bt) of Inl e \<Rightarrow> (Inl (AddScheme e), None) | Inr _ \<Rightarrow>
      case bt_clientset bt of Inl e \<Rightarrow> (Inl (BuildClient e), None) | Inr _ \<Rightarrow>
      case bt_cache bt of Inl e \<Rightarrow> (Inl (BuildCache e), None) | Inr _ \<Rightarrow>
      case bt_direct bt of Inl e \<Rightarrow> (Inl (BuildClient e), None) | Inr _ \<Rightarrow>
      case NewStore (bt_informers bt) of Inl e \<Rightarrow> (Inl (RegisterInformer e), None) | Inr blank \<Rightarrow>
      case NewPodIPProvider (bt_indexers bt) (IdentityNegTTL cfg) of Inl e \<Rightarrow> (Inl (PodIndex e), None) | Inr pv \<Rightarrow>
      case loadCABundle (bt_crypto bt) (bt_ref bt) (bt_now bt) cfg (bt_secret bt) (bt_created bt) of
        (Inl e, made) \<Rightarrow> (Inl (LoadCABundle e), made)
      | (Inr b, made) \<Rightarrow> (serve_parts bt cfg blank pv b, made))"

lemma serve_stages:
  assumes "serve bt cfg = (Inr sr, made)"
  obtains blank pv b where "Validate cfg = None" "NewStore (bt_informers bt) = Inr blank"
    "NewPodIPProvider (bt_indexers bt) (IdentityNegTTL cfg) = Inr pv"
    "loadCABundle (bt_crypto bt) (bt_ref bt) (bt_now bt) cfg (bt_secret bt) (bt_created bt) = (Inr b, made)"
    "serve_parts bt cfg blank pv b = Inr sr"
  using assms that by (auto simp: serve_def split: option.splits sum.splits prod.splits)

lemma loadCABundle_signs:
  "loadCABundle cr ref now cfg got created = (Inr b, made) \<Longrightarrow>
     \<exists>c. b_Current b = Some c \<and> ca_Key c \<noteq> None"
  by (auto simp: loadCABundle_def initCASecret_def bundleFromSecret_def GenerateCA_def Let_def
      split: sum.splits get_error.splits if_splits option.splits dest: LoadCA_parts)

lemma serve_parts_stages:
  assumes "serve_parts bt cfg blank pv b = Inr sr"
  shows "NewIssuer (Some b) (LeafValidity cfg) DefaultCacheSize = Inr (sr_issuer sr) \<and>
    New (ExtraDeniedCIDRs cfg) (DisableDefaultDeniedCIDRs cfg) = Inr (sr_guard sr) \<and>
    0 < so_HandshakeTimeout (sr_options sr) \<and> 0 < so_IdleTimeout (sr_options sr) \<and>
    so_Ready (sr_options sr) = Some True \<and> 0 < ct_interval (sr_controller sr) \<and>
    serve_caches bt blank = Inr (sr_snapshot sr) \<and> sr_provider sr = pv"
proof -
  from assms obtain iss g origin opts ct snap where
    "NewIssuer (Some b) (LeafValidity cfg) DefaultCacheSize = Inr iss"
    "New (ExtraDeniedCIDRs cfg) (DisableDefaultDeniedCIDRs cfg) = Inr g"
    and o: "server_New \<lparr>so_Identity = True, so_Engine = True, so_Dialer = True,
             so_HandshakeTimeout = HandshakeTimeout cfg, so_IdleTimeout = IdleTimeout cfg,
             so_ShutdownGrace = ShutdownGrace cfg, so_Ready = Some False\<rparr> = Inr opts"
    and c: "controller_New True (CAConfigMapName cfg) (CASyncInterval cfg) = Some ct"
    and "serve_caches bt blank = Inr snap"
    and "sr = \<lparr>sr_options = opts\<lparr>so_Ready := Some True\<rparr>, sr_guard = g, sr_issuer = iss, sr_snapshot = snap,
               sr_provider = pv, sr_timeout = dialer_timeout (UpstreamTimeout cfg),
               sr_origin = origin, sr_controller = ct\<rparr>"
    unfolding serve_parts_def by (auto split: sum.splits option.splits)
  with server_New_timeouts [OF o] controller_New_interval [OF c] show ?thesis by simp
qed

lemma serve_caches_snapshot:
  "serve_caches bt blank = Inr snap \<Longrightarrow>
     \<exists>pols ups. bt_policies bt = Inr pols \<and> bt_upstreams bt = Inr ups \<and> snap = build_snapshot pols ups \<and>
       bt_cache_synced bt \<and> bt_pods_synced bt \<and> bt_namespaces_synced bt"
  by (auto simp: serve_caches_def HasSynced_def refreshErr_def split: if_splits prod.splits option.splits sum.splits)

section \<open>The admin endpoint\<close>

text \<open>
  \<open>serveAdmin\<close>: the routes; \<open>metrics\<close> is the handler of the Prometheus library, a path without a
  route is answered by the multiplexer. \<open>fmt.Fprintln\<close> ends the body with a newline.
\<close>

definition admin ::
    "(int \<times> string) \<Rightarrow> bool \<Rightarrow> string \<Rightarrow> string \<Rightarrow> int \<times> string" where
  "admin metrics ready remoteAddr path =
     (if path = ''/metrics'' then metrics
      else if path = ''/healthz'' then (200, ''ok'' @ [CHR 0x0A])
      else if path = ''/readyz'' then (fst (readyz ready), snd (readyz ready) @ [CHR 0x0A])
      else if path = ''/observed-ip'' then (200, observed_ip remoteAddr @ [CHR 0x0A])
      else (404, ''404 page not found'' @ [CHR 0x0A]))"

end
