(* ===== verification/Init_CA.thy ===== *)
theory Init_CA
  imports Command Upstream
begin

text \<open>
  \<open>cmd/relay/initca.go\<close>: the command that generates a CA and prints the Secret holding it. The
  base64 of the standard library is modelled in \<^theory_text>\<open>Upstream\<close>; its inverse here is what reads
  such a Secret back.
\<close>

section \<open>Reading base64\<close>

definition b64_value :: "char \<Rightarrow> nat" where
  "b64_value c =
     (let n = of_char c :: nat in
      if 65 \<le> n \<and> n \<le> 90 then n - 65 else if 97 \<le> n \<and> n \<le> 122 then n - 71
      else if 48 \<le> n \<and> n \<le> 57 then n + 4 else if c = CHR ''+'' then 62 else 63)"

fun b64_decode :: "string \<Rightarrow> string" where
  "b64_decode (a # b # c # d # s) =
     (let n = ((b64_value a * 64 + b64_value b) * 64 + b64_value c) * 64 + b64_value d;
          n2 = (b64_value a * 64 + b64_value b) * 64 + b64_value c;
          n1 = b64_value a * 64 + b64_value b in
      if c = CHR ''='' then [char_of (n1 div 16)]
      else if d = CHR ''='' then [char_of (n2 div 1024), char_of (n2 div 4)]
      else [char_of (n div 65536), char_of (n div 256), char_of n] @ b64_decode s)"
| "b64_decode s = []"

lemma of_char_bound: "(of_char c :: nat) \<le> 255"
  using nat_of_char_less_256 [of c] by linarith

lemma of_b64_char: "n < 64 \<Longrightarrow> (of_char (b64_char n) :: nat) =
    (if n < 26 then 65 + n else if n < 52 then 71 + n else if n < 62 then n - 4 else if n = 62 then 43 else 47)"
  by (simp add: b64_char_def take_bit_eq_mod)

lemma b64_value_char: "n < 64 \<Longrightarrow> b64_value (b64_char n) = n"
proof -
  assume n: "n < 64"
  have "b64_char n = CHR ''+'' \<longleftrightarrow> (of_char (b64_char n) :: nat) = of_char CHR ''+''"
    by (simp only: of_char_eq_iff)
  with n show ?thesis by (auto simp: b64_value_def Let_def of_b64_char)
qed

lemma b64_char_not_pad: "n < 64 \<Longrightarrow> b64_char n \<noteq> CHR ''=''"
  using of_b64_char [of n] by (auto split: if_splits)

lemma base64_digits:
  fixes n :: nat
  shows "((n div 262144 * 64 + n div 4096 mod 64) * 64 + n div 64 mod 64) * 64 + n mod 64 = n"
    "(n div 4096 * 64 + n div 64 mod 64) * 64 + n mod 64 = n" "n div 64 * 64 + n mod 64 = n"
proof -
  have step: "m div 64 * 64 + m mod 64 = m" for m :: nat by simp
  have d: "n div 262144 = n div 64 div 64 div 64" "n div 4096 = n div 64 div 64"
    by (simp_all add: div_mult2_eq [symmetric])
  show "n div 64 * 64 + n mod 64 = n" by (rule step)
  then show "(n div 4096 * 64 + n div 64 mod 64) * 64 + n mod 64 = n" unfolding d by (simp only: step)
  show "((n div 262144 * 64 + n div 4096 mod 64) * 64 + n div 64 mod 64) * 64 + n mod 64 = n"
    unfolding d by (simp only: step)
qed

lemma low_byte: "(char_of (k * 256 + of_char c :: nat) :: char) = c"
proof -
  have "(char_of (k * 256 + of_char c :: nat) :: char) = char_of ((k * 256 + of_char c) mod 256 :: nat)"
    by (rule char_of_mod_256 [symmetric])
  then show ?thesis by simp
qed

lemma b64_roundtrip: "b64_decode (b64_encode s) = s"
proof (induction s rule: b64_encode.induct)
  case (2 a)
  define n :: nat where "n = of_char a * 16"
  have enc: "b64_encode [a] = [b64_char (n div 64), b64_char (n mod 64), CHR ''='', CHR ''='']"
    by (simp only: b64_encode.simps Let_def n_def)
  have "n < 4096" using of_char_bound [of a] by (simp add: n_def)
  then have "b64_decode (b64_encode [a]) = [char_of (n div 16)]"
    using base64_digits(3) [of n] unfolding enc by (simp add: Let_def b64_value_char)
  then show ?case by (simp add: n_def)
next
  case (3 a b)
  define n :: nat where "n = (of_char a * 256 + of_char b) * 4"
  have enc: "b64_encode [a, b] =
      [b64_char (n div 4096), b64_char (n div 64 mod 64), b64_char (n mod 64), CHR ''='']"
    by (simp only: b64_encode.simps Let_def n_def)
  have "n < 262144" using of_char_bound [of a] of_char_bound [of b] by (simp add: n_def)
  then have dec: "b64_decode (b64_encode [a, b]) = [char_of (n div 1024), char_of (n div 4)]"
    using base64_digits(2) [of n] unfolding enc by (simp add: Let_def b64_value_char b64_char_not_pad)
  have "n div 1024 = of_char a" using of_char_bound [of b] by (simp add: n_def)
  moreover have b: "n div 4 = of_char a * 256 + of_char b"
    unfolding n_def by (rule nonzero_mult_div_cancel_right) simp
  moreover have "(char_of (n div 4) :: char) = b" unfolding b by (rule low_byte)
  ultimately show ?case unfolding dec by simp
next
  case (4 a b c s)
  define n :: nat where "n = of_char a * 65536 + of_char b * 256 + of_char c"
  have enc: "b64_encode (a # b # c # s) = b64_char (n div 262144) # b64_char (n div 4096 mod 64) #
      b64_char (n div 64 mod 64) # b64_char (n mod 64) # b64_encode s"
    by (simp only: b64_encode.simps Let_def n_def append_Cons append_Nil)
  have "n < 16777216" using of_char_bound [of a] of_char_bound [of b] of_char_bound [of c] by (simp add: n_def)
  then have dec: "b64_decode (b64_encode (a # b # c # s)) =
      [char_of (n div 65536), char_of (n div 256), char_of n] @ s"
    using base64_digits(1) [of n] 4 unfolding enc by (simp add: Let_def b64_value_char b64_char_not_pad)
  have n: "n = (of_char a * 256 + of_char b) * 256 + of_char c" by (simp add: n_def)
  have "n div 65536 = of_char a" using of_char_bound [of b] of_char_bound [of c] by (simp add: n_def)
  moreover have b: "n div 256 = of_char a * 256 + of_char b" unfolding n using of_char_bound [of c] by simp
  moreover have "(char_of (n div 256) :: char) = b" unfolding b by (rule low_byte)
  moreover have "(char_of n :: char) = c" unfolding n by (rule low_byte)
  ultimately show ?case unfolding dec by simp
qed simp

section \<open>The command\<close>

record init_flags =
  if_name :: string
  if_namespace :: string
  if_commonName :: string
  if_validity :: int
  if_rotate :: bool

definition init_defaults :: init_flags where
  "init_defaults = \<lparr>if_name = ''relay-ca'', if_namespace = ''relay-system'',
     if_commonName = ''proxy-relay-control'', if_validity = DefaultCAValidity, if_rotate = False\<rparr>"

definition newline :: char where "newline = CHR 0x0A"

definition lines_of :: "string list \<Rightarrow> string" where
  "lines_of ls = concat (map (\<lambda>l. l @ [newline]) ls)"

definition rotation_lines :: "init_flags \<Rightarrow> string \<Rightarrow> string \<Rightarrow> string list" where
  "rotation_lines fl cert64 key64 =
     [''# Rotation step 1: publish the upcoming CA for trust.'',
      ''# Merge into the existing Secret, wait for every tenant pod to pick up the new'',
      ''# bundle, then move these values into ca.crt/ca.key.'',
      ''#'',
      ''# kubectl -n '' @ if_namespace fl @ '' patch secret '' @ if_name fl @
        '' --type merge -p \"$(cat <<'' @ [CHR 0x27] @ ''EOF'' @ [CHR 0x27],
      ''# {\"data\":{\"next-ca.crt\":\"'' @ cert64 @ ''\"}}'',
      ''# EOF'',
      ''# )\"'',
      [],
      ''next-ca.crt: '' @ cert64,
      ''next-ca.key (hold until step 2): '' @ key64]"

definition install_lines :: "init_flags \<Rightarrow> string \<Rightarrow> string \<Rightarrow> string list" where
  "install_lines fl cert64 key64 =
     [''apiVersion: v1'', ''kind: Secret'', ''metadata:'', ''  name: '' @ if_name fl,
      ''  namespace: '' @ if_namespace fl, ''type: Opaque'', ''data:'', ''  ca.crt: '' @ cert64,
      ''  ca.key: '' @ key64]"

text \<open>\<open>initCA\<close>: what is printed, or the error.\<close>

definition initCA :: "crypto \<Rightarrow> nat \<Rightarrow> int \<Rightarrow> init_flags \<Rightarrow> (ca_error, string) result" where
  "initCA cr ref now fl =
     (case GenerateCA cr ref now (if_commonName fl) (if_validity fl) of
        Inl e \<Rightarrow> Inl e
      | Inr c \<Rightarrow>
          (case MarshalKey cr c of
             Inl e \<Rightarrow> Inl e
           | Inr keyPEM \<Rightarrow>
               (let cert64 = b64_encode (ca_CertPEM c); key64 = b64_encode keyPEM in
                Inr (lines_of (if if_rotate fl then rotation_lines fl cert64 key64
                               else install_lines fl cert64 key64)))))"

lemma in_lines:
  assumes "l \<in> set ls" "newline \<notin> set l" shows "l \<in> set (Split newline (lines_of ls))"
  using assms(1)
proof (induction ls)
  case (Cons k ls)
  have "Split newline (lines_of (k # ls)) = Split newline k @ Split newline (lines_of ls)"
    using Split_append_sep [of newline k "lines_of ls"] by (simp add: lines_of_def)
  moreover have "Split newline l = [l]" by (rule Split_single [OF assms(2)])
  ultimately show ?case using Cons by auto
qed simp

lemma b64_char_line: "n < 64 \<Longrightarrow> newline \<noteq> b64_char n"
proof
  assume n: "n < 64" and "newline = b64_char n"
  then have "b64_char n = CHR 0x0A" by (simp add: newline_def)
  then have "(of_char (b64_char n) :: nat) = 10" by simp
  with of_b64_char [OF n] show False by (auto split: if_splits)
qed

lemma newline_not_pad: "newline \<noteq> CHR ''=''"
  by (simp add: newline_def)

lemma b64_one_line: "newline \<notin> set (b64_encode s)"
proof (induction s rule: b64_encode.induct)
  case (2 a)
  have "of_char a * 16 div 64 < (64 :: nat)" using of_char_bound [of a] by simp
  then show ?case by (simp add: Let_def b64_char_line newline_not_pad)
next
  case (3 a b)
  have "(of_char a * 256 + of_char b) * 4 div 4096 < (64 :: nat)"
    using of_char_bound [of a] of_char_bound [of b] by simp
  then show ?case by (simp add: Let_def b64_char_line newline_not_pad)
next
  case (4 a b c s)
  have "(of_char a * 65536 + of_char b * 256 + of_char c) div 262144 < (64 :: nat)"
    using of_char_bound [of a] of_char_bound [of b] of_char_bound [of c] by simp
  with 4 show ?case by (simp add: Let_def b64_char_line)
qed simp

text \<open>The certificate and the key that were printed are those of the generated CA.\<close>

lemma initCA_Inr:
  assumes "codec_laws cr" "initCA cr ref now fl = Inr out"
  obtains c keyPEM where "GenerateCA cr ref now (if_commonName fl) (if_validity fl) = Inr c"
    "MarshalKey cr c = Inr keyPEM" "LoadCA cr ref (ca_CertPEM c) keyPEM = Inr c"
    "out = lines_of (if if_rotate fl then rotation_lines fl (b64_encode (ca_CertPEM c)) (b64_encode keyPEM)
       else install_lines fl (b64_encode (ca_CertPEM c)) (b64_encode keyPEM))"
  using assms that LoadCA_GenerateCA [OF assms(1)]
  by (auto simp: initCA_def Let_def split: sum.splits)

lemma LoadCACert_of_LoadCA:
  "LoadCA cr ref p k = Inr c \<Longrightarrow> LoadCACert cr ref' p = Inr (c\<lparr>ca_Ref := ref', ca_Key := None\<rparr>)"
  by (auto simp: LoadCA_def LoadCACert_def split: sum.splits option.splits)

end
