(* ===== verification/Process.thy ===== *)
theory Process
  imports Lifecycle
begin

text \<open>
  The end of \<open>serve\<close> in \<open>cmd/relay/serve.go\<close>: the accept loop, the admin server in its goroutine and
  the read of its error that does not wait, as one system. The signals that cancel the context are the
  \<open>cancel\<close> step of the accept loop. A result \<open>None\<close> is the nil error.
\<close>

section \<open>Results\<close>

text \<open>
  An error of \<open>Accept\<close>: after the context is done it ends the loop without an error, a time-out goes
  round again (\<open>None\<close>), any other ends it with the error.
\<close>

datatype accept_error = AcceptTimeout | AcceptFailed string

fun accept_result :: "bool \<Rightarrow> accept_error \<Rightarrow> string option option" where
  "accept_result True _ = Some None"
| "accept_result False AcceptTimeout = None"
| "accept_result False (AcceptFailed e) = Some (Some e)"

text \<open>\<open>serveAdmin\<close>: it fails at any time, or is shut down once the context is done.\<close>

datatype admin_phase = AdminServing | AdminSent "string option"

inductive admin_step :: "bool \<Rightarrow> admin_phase \<Rightarrow> admin_phase \<Rightarrow> bool" for cancelled where
  listen_failed: "admin_step cancelled AdminServing (AdminSent (Some e))"
| shut_down: "cancelled \<Longrightarrow> admin_step cancelled AdminServing (AdminSent None)"

inductive_cases admin_stepE: "admin_step cancelled a b"

text \<open>What \<open>serve\<close> returns when \<open>Serve\<close> did.\<close>

definition serve_end :: "string option \<Rightarrow> admin_phase \<Rightarrow> string option" where
  "serve_end err adm =
     (case err of Some e \<Rightarrow> Some e | None \<Rightarrow> (case adm of AdminSent r \<Rightarrow> r | AdminServing \<Rightarrow> None))"

section \<open>The process\<close>

record process =
  pr_serve :: serve_sys
  pr_err :: "string option"
  pr_admin :: admin_phase
  pr_exit :: "string option option"

definition accept_over :: "serve_sys \<Rightarrow> serve_sys \<Rightarrow> bool" where
  "accept_over s t \<longleftrightarrow> lc_loop s = Accepting \<and> lc_loop t = Stopped"

inductive proc_step :: "int \<Rightarrow> process \<Rightarrow> process \<Rightarrow> bool" for grace where
  relaying: "pr_exit p = None \<Longrightarrow> serve_step grace (pr_serve p) s \<Longrightarrow> \<not> accept_over (pr_serve p) s \<Longrightarrow>
    proc_step grace p (p\<lparr>pr_serve := s\<rparr>)"
| accept_ended: "pr_exit p = None \<Longrightarrow> serve_step grace (pr_serve p) s \<Longrightarrow> accept_over (pr_serve p) s \<Longrightarrow>
    accept_result (lc_cancelled (pr_serve p)) e = Some r \<Longrightarrow>
    proc_step grace p (p\<lparr>pr_serve := s, pr_err := r\<rparr>)"
| administering: "pr_exit p = None \<Longrightarrow> admin_step (lc_cancelled (pr_serve p)) (pr_admin p) a \<Longrightarrow>
    proc_step grace p (p\<lparr>pr_admin := a\<rparr>)"
| ended: "pr_exit p = None \<Longrightarrow> lc_loop (pr_serve p) = Returned \<Longrightarrow>
    proc_step grace p (p\<lparr>pr_exit := Some (serve_end (pr_err p) (pr_admin p))\<rparr>)"

inductive_cases proc_stepE: "proc_step grace p q"

definition proc_start :: "process \<Rightarrow> bool" where
  "proc_start p \<longleftrightarrow> serve_start (pr_serve p) \<and> pr_err p = None \<and> pr_admin p = AdminServing \<and> pr_exit p = None"

text \<open>
  The invariant: an ended loop without an error was cancelled, and a process that is over has a loop
  that has returned and the result of its parts.
\<close>

definition over :: "loop \<Rightarrow> bool" where
  "over l \<longleftrightarrow> l = Stopped \<or> l = Returned"

definition proc_inv :: "process \<Rightarrow> bool" where
  "proc_inv p \<longleftrightarrow> serve_inv (pr_serve p) \<and>
     (pr_err p = None \<and> over (lc_loop (pr_serve p)) \<longrightarrow> lc_cancelled (pr_serve p)) \<and>
     (\<forall>r. pr_exit p = Some r \<longrightarrow> lc_loop (pr_serve p) = Returned \<and> r = serve_end (pr_err p) (pr_admin p))"

lemma serve_step_over:
  "serve_step grace s t \<Longrightarrow> \<not> accept_over s t \<Longrightarrow> over (lc_loop t) \<Longrightarrow> over (lc_loop s)"
  by (erule serve_stepE) (auto simp: over_def accept_over_def)

lemma serve_step_cancelled: "serve_step grace s t \<Longrightarrow> lc_cancelled s \<Longrightarrow> lc_cancelled t"
  by (erule serve_stepE) auto

lemma accept_result_None: "accept_result c e = Some None \<Longrightarrow> c"
  by (cases "(c, e)" rule: accept_result.cases) auto

lemma proc_inv_step: "proc_inv p \<Longrightarrow> proc_step grace p q \<Longrightarrow> proc_inv q"
proof (erule proc_stepE)
  fix s assume inv: "proc_inv p" and s: "q = p\<lparr>pr_serve := s\<rparr>" "pr_exit p = None" "serve_step grace (pr_serve p) s"
    "\<not> accept_over (pr_serve p) s"
  show "proc_inv q"
    using inv serve_inv_step [OF _ s(3)] serve_step_over [OF s(3,4)] serve_step_cancelled [OF s(3)] s(1,2)
    by (auto simp: proc_inv_def)
next
  fix s e r assume inv: "proc_inv p" and s: "q = p\<lparr>pr_serve := s, pr_err := r\<rparr>" "pr_exit p = None"
    "serve_step grace (pr_serve p) s" "accept_result (lc_cancelled (pr_serve p)) e = Some r"
  show "proc_inv q"
    using inv serve_inv_step [OF _ s(3)] serve_step_cancelled [OF s(3)] s accept_result_None
    by (auto simp: proc_inv_def)
qed (auto simp: proc_inv_def over_def)

interpretation processing: machine_invariant proc_start "proc_step grace" proc_inv for grace
proof unfold_locales
  show "proc_inv p" if "proc_start p" for p
    using that serve_inv_start [of "pr_serve p"] by (auto simp: proc_inv_def proc_start_def serve_start_def over_def)
qed (rule proc_inv_step)

section \<open>After the listener failed\<close>

text \<open>A loop that has stopped takes no connection, and waits for those that are running.\<close>

definition stranded :: "process \<Rightarrow> process \<Rightarrow> bool" where
  "stranded p q \<longleftrightarrow> lc_loop (pr_serve q) = Stopped \<and> lc_accepted (pr_serve q) = lc_accepted (pr_serve p) \<and>
     pr_exit q = None"

lemma stopped_step:
  assumes "proc_step grace q q'" "stranded p q \<or> lc_loop (pr_serve q) = Returned \<and> lc_running (pr_serve q) = {}"
  shows "stranded p q' \<or> lc_loop (pr_serve q') = Returned \<and> lc_running (pr_serve q') = {}"
  using assms by (elim proc_stepE serve_stepE) (auto simp: accept_over_def stranded_def)

lemma stopped_steps:
  assumes "(proc_step grace)\<^sup>*\<^sup>* p q" "lc_loop (pr_serve p) = Stopped" "pr_exit p = None"
  shows "stranded p q \<or> lc_loop (pr_serve q) = Returned \<and> lc_running (pr_serve q) = {}"
  using assms
proof (induction rule: rtranclp_induct)
  case base
  then show ?case by (simp add: stranded_def)
next
  case (step y z)
  then show ?case using stopped_step by blast
qed

section \<open>A relay can always be stopped\<close>

definition can_end :: "int \<Rightarrow> process \<Rightarrow> bool" where
  "can_end grace p \<longleftrightarrow> (\<exists>q r. (proc_step grace)\<^sup>*\<^sup>* p q \<and> pr_exit q = Some r)"

lemma can_end_step: "proc_step grace p q \<Longrightarrow> can_end grace q \<Longrightarrow> can_end grace p"
  unfolding can_end_def by (meson converse_rtranclp_into_rtranclp)

lemma relay_step:
  "serve_step grace (pr_serve p) s \<Longrightarrow> pr_exit p = None \<Longrightarrow> \<not> accept_over (pr_serve p) s \<Longrightarrow>
     can_end grace (p\<lparr>pr_serve := s\<rparr>) \<Longrightarrow> can_end grace p"
  by (rule can_end_step) (auto intro: relaying)

lemma returned_can_end:
  assumes "lc_loop (pr_serve p) = Returned" "pr_exit p = None" shows "can_end grace p"
  by (rule can_end_step [OF ended [OF assms(2,1)]]) (auto simp: can_end_def)

text \<open>The running handlers end one after the other, then the loop returns.\<close>

lemma stopped_can_end:
  assumes "serve_inv (pr_serve p)" "lc_loop (pr_serve p) = Stopped" "pr_exit p = None"
  shows "can_end grace p"
  using assms
proof (induction "card (lc_running (pr_serve p))" arbitrary: p rule: less_induct)
  case less
  let ?s = "pr_serve p"
  show ?case
  proof (cases "lc_running ?s = {}")
    case True
    have "can_end grace (p\<lparr>pr_serve := ?s\<lparr>lc_loop := Returned\<rparr>\<rparr>)" by (rule returned_can_end) (simp_all add: less.prems)
    with relay_step [OF returned] less.prems True show ?thesis by (simp add: accept_over_def)
  next
    case False
    then obtain c where c: "c \<in> lc_running ?s" by blast
    define s1 where "s1 = ?s\<lparr>lc_closed := insert c (lc_closed ?s), lc_conns := lc_conns ?s - {c}\<rparr>"
    define s2 where "s2 = s1\<lparr>lc_running := lc_running s1 - {c}\<rparr>"
    have step1: "serve_step grace ?s s1" unfolding s1_def by (rule handled [OF c])
    have step2: "serve_step grace s1 s2" unfolding s2_def by (rule finished [of c]) (use c in \<open>simp_all add: s1_def\<close>)
    have inv: "serve_inv s2" by (rule serve_inv_step [OF serve_inv_step [OF less.prems(1) step1] step2])
    have "finite (lc_running ?s)"
      by (rule finite_subset [of _ "{c. c < lc_accepted ?s}"]) (use less.prems(1) in \<open>auto simp: serve_inv_def\<close>)
    then have "card (lc_running ?s - {c}) < card (lc_running ?s)" using c by (rule card_Diff1_less)
    then have "card (lc_running s2) < card (lc_running ?s)" by (simp add: s2_def s1_def)
    then have "can_end grace (p\<lparr>pr_serve := s2\<rparr>)"
      by (intro less.hyps) (use inv less.prems in \<open>simp_all add: s2_def s1_def\<close>)
    then have "can_end grace (p\<lparr>pr_serve := s1\<rparr>)"
      using relay_step [of grace "p\<lparr>pr_serve := s1\<rparr>" s2] step2 less.prems by (simp add: accept_over_def s1_def)
    with relay_step [OF step1] less.prems show ?thesis by (simp add: accept_over_def)
  qed
qed

lemma accepting_can_end:
  assumes "serve_inv (pr_serve p)" "lc_loop (pr_serve p) = Accepting" "pr_exit p = None" "lc_cancelled (pr_serve p)"
  shows "can_end grace p"
proof -
  let ?s = "(pr_serve p)\<lparr>lc_loop := Stopped\<rparr>"
  have step: "serve_step grace (pr_serve p) ?s" by (rule accept_failed [OF assms(2)])
  have "proc_step grace p (p\<lparr>pr_serve := ?s, pr_err := None\<rparr>)"
    by (rule accept_ended [OF assms(3) step, of AcceptTimeout]) (simp_all add: accept_over_def assms)
  moreover have "can_end grace (p\<lparr>pr_serve := ?s, pr_err := None\<rparr>)"
    by (rule stopped_can_end) (use serve_inv_step [OF assms(1) step] assms(3) in simp_all)
  ultimately show ?thesis by (rule can_end_step)
qed

lemma tracked_can_end:
  assumes "serve_inv (pr_serve p)" "lc_loop (pr_serve p) = Tracked c" "pr_exit p = None" "lc_cancelled (pr_serve p)"
  shows "can_end grace p"
proof -
  let ?t = "(pr_serve p)\<lparr>lc_loop := Accepting, lc_running := insert c (lc_running (pr_serve p))\<rparr>"
  have step: "serve_step grace (pr_serve p) ?t" by (rule spawned [OF assms(2)])
  have "can_end grace (p\<lparr>pr_serve := ?t\<rparr>)"
    by (rule accepting_can_end) (use serve_inv_step [OF assms(1) step] assms in simp_all)
  with relay_step [OF step assms(3)] show ?thesis by (simp add: accept_over_def)
qed

lemma holding_can_end:
  assumes "serve_inv (pr_serve p)" "lc_loop (pr_serve p) = Holding c" "pr_exit p = None" "lc_cancelled (pr_serve p)"
  shows "can_end grace p"
proof -
  let ?t = "(pr_serve p)\<lparr>lc_loop := Tracked c, lc_conns := insert c (lc_conns (pr_serve p))\<rparr>"
  have step: "serve_step grace (pr_serve p) ?t" by (rule tracked [OF assms(2)])
  have "can_end grace (p\<lparr>pr_serve := ?t\<rparr>)"
    by (rule tracked_can_end) (use serve_inv_step [OF assms(1) step] assms in simp_all)
  with relay_step [OF step assms(3)] show ?thesis by (simp add: accept_over_def)
qed

text \<open>From every state before its end, by a signal.\<close>

lemma process_can_end:
  assumes "serve_inv (pr_serve p)" "pr_exit p = None"
  shows "can_end grace (p\<lparr>pr_serve := (pr_serve p)\<lparr>lc_cancelled := True\<rparr>\<rparr>)"
proof -
  let ?q = "p\<lparr>pr_serve := (pr_serve p)\<lparr>lc_cancelled := True\<rparr>\<rparr>"
  have "serve_inv (pr_serve ?q)" "pr_exit ?q = None" "lc_cancelled (pr_serve ?q)"
    using serve_inv_step [OF assms(1) cancel] assms(2) by simp_all
  then show ?thesis
    using accepting_can_end tracked_can_end holding_can_end stopped_can_end returned_can_end
    by (cases "lc_loop (pr_serve ?q)") blast+
qed

end
