(* ===== verification/Durations.thy ===== *)
theory Durations
  imports Netip
begin

text \<open>
  \<open>time.ParseDuration\<close> and \<open>strconv.ParseBool\<close> of the standard library, which read the values of the
  command line. A duration is parsed in \<open>uint64\<close> arithmetic: the guards against overflow are those
  of the library, and the one addition that can wrap is written with its modulus. The nanoseconds of
  a fraction are computed in floating point, which is the parameter \<open>frac\<close> (of the digits, the unit
  and the scale).
\<close>

section \<open>Booleans\<close>

definition ParseBool :: "string \<Rightarrow> bool option" where
  "ParseBool s =
     (if s \<in> {''1'', ''t'', ''T'', ''true'', ''TRUE'', ''True''} then Some True
      else if s \<in> {''0'', ''f'', ''F'', ''false'', ''FALSE'', ''False''} then Some False
      else None)"

section \<open>Durations\<close>

definition digit_of :: "char \<Rightarrow> nat" where
  "digit_of c = of_char c - 48"

fun leadingInt :: "nat \<Rightarrow> string \<Rightarrow> (nat \<times> string) option" where
  "leadingInt x [] = Some (x, [])"
| "leadingInt x (c # s) =
     (if \<not> is_digit c then Some (x, c # s)
      else if 2 ^ 63 div 10 < x then None
      else (let y = x * 10 + digit_of c in if 2 ^ 63 < y then None else leadingInt y s))"

text \<open>Digits that no longer fit are read and dropped.\<close>

fun leadingFraction :: "nat \<Rightarrow> nat \<Rightarrow> bool \<Rightarrow> string \<Rightarrow> nat \<times> nat \<times> string" where
  "leadingFraction x scale overflow [] = (x, scale, [])"
| "leadingFraction x scale overflow (c # s) =
     (if \<not> is_digit c then (x, scale, c # s)
      else if overflow \<or> (2 ^ 63 - 1) div 10 < x then leadingFraction x scale True s
      else (let y = x * 10 + digit_of c in
            if 2 ^ 63 < y then leadingFraction x scale True s
            else leadingFraction y (scale * 10) False s))"

definition unit_of :: "string \<Rightarrow> nat option" where
  "unit_of u =
     (if u = ''ns'' then Some 1
      else if u = ''us'' \<or> u = [CHR 0xC2, CHR 0xB5, CHR ''s''] \<or> u = [CHR 0xCE, CHR 0xBC, CHR ''s''] then Some 1000
      else if u = ''ms'' then Some 1000000
      else if u = ''s'' then Some 1000000000
      else if u = ''m'' then Some 60000000000
      else if u = ''h'' then Some 3600000000000
      else None)"

definition unit_char :: "char \<Rightarrow> bool" where
  "unit_char c \<longleftrightarrow> c \<noteq> CHR ''.'' \<and> \<not> is_digit c"

text \<open>The unit after a number: its nanoseconds and what follows.\<close>

definition scale_unit :: "(nat \<Rightarrow> nat \<Rightarrow> nat \<Rightarrow> nat) \<Rightarrow> nat \<Rightarrow> nat \<Rightarrow> nat \<Rightarrow> string \<Rightarrow> (nat \<times> string) option" where
  "scale_unit frac v f scale s =
     (let u = takeWhile unit_char s; rest = dropWhile unit_char s in
      if u = [] then None
      else
        (case unit_of u of
           None \<Rightarrow> None
         | Some n \<Rightarrow>
             if 2 ^ 63 div n < v then None
             else if 0 < f then
               (let w = (v * n + frac f n scale) mod 2 ^ 64 in if 2 ^ 63 < w then None else Some (w, rest))
             else Some (v * n, rest)))"

text \<open>One number with its unit; a period is only there with a digit on one of its sides.\<close>

definition duration_part :: "(nat \<Rightarrow> nat \<Rightarrow> nat \<Rightarrow> nat) \<Rightarrow> string \<Rightarrow> (nat \<times> string) option" where
  "duration_part frac s =
     (if s = [] \<or> (hd s \<noteq> CHR ''.'' \<and> \<not> is_digit (hd s)) then None
      else
        (case leadingInt 0 s of
           None \<Rightarrow> None
         | Some (v, s1) \<Rightarrow>
             if s1 \<noteq> [] \<and> hd s1 = CHR ''.'' then
               (let (f, scale, s2) = leadingFraction 0 1 False (tl s1) in
                if length s1 = length s \<and> length s2 = length (tl s1) then None else scale_unit frac v f scale s2)
             else if length s1 = length s then None
             else scale_unit frac v 0 1 s1))"

lemma leadingInt_rest: "leadingInt x s = Some (v, r) \<Longrightarrow> length r \<le> length s"
  by (induction x s rule: leadingInt.induct) (auto simp: Let_def split: if_splits)

lemma leadingFraction_rest: "leadingFraction x sc ov s = (f, sc', r) \<Longrightarrow> length r \<le> length s"
  by (induction x sc ov s rule: leadingFraction.induct) (auto simp: Let_def split: if_splits)

lemma scale_unit_shorter: "scale_unit frac v f sc s = Some (w, r) \<Longrightarrow> length r < length s"
proof -
  assume p: "scale_unit frac v f sc s = Some (w, r)"
  then have "takeWhile unit_char s \<noteq> []" "r = dropWhile unit_char s"
    by (auto simp: scale_unit_def Let_def split: if_splits option.splits)
  moreover have "length s = length (takeWhile unit_char s) + length (dropWhile unit_char s)"
    by (metis length_append takeWhile_dropWhile_id)
  ultimately show ?thesis by simp
qed

lemma duration_part_shorter: "duration_part frac s = Some (v, r) \<Longrightarrow> length r < length s"
proof -
  assume p: "duration_part frac s = Some (v, r)"
  then obtain k s1 where i: "leadingInt 0 s = Some (k, s1)" by (auto simp: duration_part_def split: if_splits option.splits)
  have s1: "length s1 \<le> length s" by (rule leadingInt_rest [OF i])
  obtain f sc s2 where f: "leadingFraction 0 1 False (tl s1) = (f, sc, s2)" by (metis prod_cases3)
  have "length s2 \<le> length s1" using leadingFraction_rest [OF f] by simp
  moreover have "scale_unit frac k f sc s2 = Some (v, r) \<or> scale_unit frac k 0 1 s1 = Some (v, r)"
    using p i f by (auto simp: duration_part_def split: if_splits)
  ultimately show ?thesis using s1 scale_unit_shorter by fastforce
qed

function duration_parts :: "(nat \<Rightarrow> nat \<Rightarrow> nat \<Rightarrow> nat) \<Rightarrow> nat \<Rightarrow> string \<Rightarrow> nat option" where
  "duration_parts frac d s =
     (if s = [] then Some d
      else
        (case duration_part frac s of
           None \<Rightarrow> None
         | Some (v, r) \<Rightarrow>
             (let e = (d + v) mod 2 ^ 64 in if 2 ^ 63 < e then None else duration_parts frac e r)))"
  by pat_completeness auto
termination
  by (relation "measure (\<lambda>(_, _, s). length s)") (auto simp: duration_part_shorter)

declare duration_parts.simps [simp del]

definition ParseDuration :: "(nat \<Rightarrow> nat \<Rightarrow> nat \<Rightarrow> nat) \<Rightarrow> string \<Rightarrow> int option" where
  "ParseDuration frac s0 =
     (let neg = (s0 \<noteq> [] \<and> hd s0 = CHR ''-'');
          s = (if s0 \<noteq> [] \<and> (hd s0 = CHR ''-'' \<or> hd s0 = CHR ''+'') then tl s0 else s0) in
      if s = ''0'' then Some 0
      else if s = [] then None
      else
        (case duration_parts frac 0 s of
           None \<Rightarrow> None
         | Some d \<Rightarrow>
             if neg then Some (- int d) else if 2 ^ 63 - 1 < d then None else Some (int d)))"

section \<open>Bounds and the round trip\<close>

lemma duration_parts_bound: "duration_parts frac d s = Some e \<Longrightarrow> d \<le> 2 ^ 63 \<Longrightarrow> e \<le> 2 ^ 63"
proof (induction frac d s rule: duration_parts.induct)
  case (1 frac d s)
  show ?case
  proof (cases "s = []")
    case True
    with 1 show ?thesis by (simp add: duration_parts.simps)
  next
    case False
    with 1(2) obtain v r where p: "duration_part frac s = Some (v, r)"
      by (subst (asm) duration_parts.simps) (auto split: option.splits)
    let ?e = "(d + v) mod 2 ^ 64"
    have "\<not> 2 ^ 63 < ?e" "duration_parts frac ?e r = Some e"
      using 1(2) False p by (subst (asm) duration_parts.simps, simp add: Let_def split: if_splits)+
    with 1(1) [OF False p refl refl] show ?thesis by simp
  qed
qed

text \<open>A parsed duration is an \<open>int64\<close>.\<close>

lemma ParseDuration_range:
  assumes "ParseDuration frac s = Some d"
  shows "- (2 ^ 63) \<le> d" "d < 2 ^ 63"
proof -
  have "d = 0 \<or> (\<exists>s' e. duration_parts frac 0 s' = Some e \<and> (d = - int e \<or> (d = int e \<and> \<not> 2 ^ 63 - 1 < e)))"
    using assms by (auto simp: ParseDuration_def Let_def split: if_splits option.splits)
  then consider "d = 0" | s' e where "duration_parts frac 0 s' = Some e" "d = - int e \<or> (d = int e \<and> \<not> 2 ^ 63 - 1 < e)"
    by blast
  then have "- (2 ^ 63) \<le> d \<and> d < 2 ^ 63"
  proof cases
    case 2
    have "e \<le> 2 ^ 63" by (rule duration_parts_bound [OF 2(1)]) simp
    with 2(2) show ?thesis by auto
  qed simp
  then show "- (2 ^ 63) \<le> d" "d < 2 ^ 63" by simp_all
qed

lemma dec_value_digits: "dec_value s = foldl (\<lambda>v c. 10 * v + digit_of c) 0 s"
  by (simp add: dec_value_def digit_of_def)

lemma dec_step_le: "x \<le> foldl (\<lambda>v c. 10 * v + digit_of c) x ds"
proof (induction ds arbitrary: x)
  case (Cons c ds)
  have "x \<le> 10 * x + digit_of c" by simp
  also have "\<dots> \<le> foldl (\<lambda>v c. 10 * v + digit_of c) (10 * x + digit_of c) ds"
    using Cons by simp
  finally show ?case by simp
qed simp

lemma leadingInt_digits:
  assumes "list_all is_digit ds" "foldl (\<lambda>v c. 10 * v + digit_of c) x ds \<le> 2 ^ 63"
    and "rest = [] \<or> \<not> is_digit (hd rest)"
  shows "leadingInt x (ds @ rest) = Some (foldl (\<lambda>v c. 10 * v + digit_of c) x ds, rest)"
  using assms(1,2)
proof (induction ds arbitrary: x)
  case Nil
  with assms(3) show ?case by (cases rest) auto
next
  case (Cons c ds)
  let ?y = "10 * x + digit_of c"
  have "?y \<le> foldl (\<lambda>v c. 10 * v + digit_of c) ?y ds" by (rule dec_step_le)
  with Cons.prems(2) have y: "?y \<le> 2 ^ 63" by simp
  then have "x \<le> 2 ^ 63 div 10" by simp
  with y Cons show ?case by (simp add: Let_def mult.commute)
qed

lemma ns_part: "n \<le> 2 ^ 63 \<Longrightarrow> duration_parts frac 0 (in_base 10 n @ ''ns'') = Some n"
proof -
  assume n: "n \<le> 2 ^ 63"
  let ?ds = "in_base 10 n"
  note digits = in_base_10_digits [of n]
  have "foldl (\<lambda>v c. 10 * v + digit_of c) 0 ?ds = n"
    using dec_value_in_base [of n] by (simp add: dec_value_digits)
  with leadingInt_digits [OF digits, of 0 "''ns''"] n have "leadingInt 0 (?ds @ ''ns'') = Some (n, ''ns'')"
    by (simp add: is_digit_def)
  moreover have "is_digit (hd ?ds)" using digits by (cases ?ds) auto
  ultimately have "duration_part frac (?ds @ ''ns'') = Some (n, [])"
    using n by (simp add: duration_part_def scale_unit_def unit_char_def unit_of_def is_digit_def Let_def)
  with n show ?thesis by (simp add: duration_parts.simps Let_def)
qed

text \<open>Every \<open>int64\<close>, written in nanoseconds, is read back.\<close>

lemma ParseDuration_ns:
  assumes "- (2 ^ 63) \<le> i" "i < 2 ^ 63"
  shows "ParseDuration frac (Itoa i @ ''ns'') = Some i"
proof (cases "i < 0")
  case True
  with assms have "nat (- i) \<le> 2 ^ 63" by simp
  from ns_part [OF this, of frac] True show ?thesis
    by (cases "in_base 10 (nat (- i))") (simp_all add: ParseDuration_def Itoa_def Let_def)
next
  case False
  with assms have "nat i \<le> 2 ^ 63" by simp
  from ns_part [OF this, of frac] have p: "duration_parts frac 0 (in_base 10 (nat i) @ ''ns'') = Some (nat i)" .
  have "is_digit (hd (in_base 10 (nat i)))" using in_base_10_digits [of "nat i"] by (cases "in_base 10 (nat i)") auto
  then have "hd (in_base 10 (nat i)) \<noteq> CHR ''-''" "hd (in_base 10 (nat i)) \<noteq> CHR ''+''"
    by (auto simp: is_digit_def)
  moreover have "in_base 10 (nat i) @ ''ns'' \<noteq> ''0''" by (metis append_eq_Cons_conv append_is_Nil_conv in_base_not_Nil list.distinct(1))
  ultimately show ?thesis using p False assms
    by (simp add: ParseDuration_def Itoa_def Let_def)
qed

end
