(* ===== verification/Flags.thy ===== *)
theory Flags
  imports Durations Init_CA
begin

text \<open>
  The command line: \<open>flag.FlagSet.Parse\<close> of the standard library as \<open>parseFlags\<close> of
  \<open>cmd/relay/main.go\<close> uses it, the flags of the three commands, and the step from the arguments of
  the process to the command that runs with its options.
\<close>

section \<open>A flag set\<close>

text \<open>A boolean flag needs no value; any other reads its value and may reject it (\<open>None\<close>).\<close>

datatype 'c setter =
    BoolVar "bool \<Rightarrow> 'c \<Rightarrow> 'c"
  | ValueVar "string \<Rightarrow> 'c \<Rightarrow> 'c option"

type_synonym 'c formal = "string \<Rightarrow> 'c setter option"

datatype flag_error =
    HelpRequested
  | BadSyntax string
  | NotDefined string
  | NeedsArgument string
  | InvalidValue string string

datatype 'c flag_step =
    NoFlag "string list"
  | FlagSeen "string list" 'c
  | FlagFailed flag_error

text \<open>The flag \<open>name\<close> with the value after its equals sign, if it has one; \<open>args\<close> are the arguments after it.\<close>

definition set_flag :: "'c formal \<Rightarrow> string \<Rightarrow> string option \<Rightarrow> string list \<Rightarrow> 'c \<Rightarrow> 'c flag_step" where
  "set_flag formal name given args c =
     (case formal name of
        None \<Rightarrow> FlagFailed (if name = ''help'' \<or> name = ''h'' then HelpRequested else NotDefined name)
      | Some (BoolVar set_bool) \<Rightarrow>
          (let v = (case given of None \<Rightarrow> ''true'' | Some v \<Rightarrow> v) in
           case ParseBool v of None \<Rightarrow> FlagFailed (InvalidValue name v) | Some b \<Rightarrow> FlagSeen args (set_bool b c))
      | Some (ValueVar set_value) \<Rightarrow>
          (case (case (given, args) of
                   (Some v, _) \<Rightarrow> Some (v, args)
                 | (None, v # rest) \<Rightarrow> Some (v, rest)
                 | (None, []) \<Rightarrow> None) of
             None \<Rightarrow> FlagFailed (NeedsArgument name)
           | Some (v, rest) \<Rightarrow>
               (case set_value v c of
                  None \<Rightarrow> FlagFailed (InvalidValue name v)
                | Some c' \<Rightarrow> FlagSeen rest c')))"

definition parseOne :: "'c formal \<Rightarrow> string list \<Rightarrow> 'c \<Rightarrow> 'c flag_step" where
  "parseOne formal args c =
     (case args of
        [] \<Rightarrow> NoFlag []
      | s # rest \<Rightarrow>
          if length s < 2 \<or> s ! 0 \<noteq> CHR ''-'' then NoFlag args
          else if s = ''--'' then NoFlag rest
          else
            (let flag = (if s ! 1 = CHR ''-'' then drop 2 s else drop 1 s) in
             if flag = [] \<or> flag ! 0 = CHR ''-'' \<or> flag ! 0 = CHR ''='' then FlagFailed (BadSyntax s)
             else
               (let name = cut_before {CHR ''=''} flag;
                    given = (if CHR ''='' \<in> set flag then Some (drop (Suc (length name)) flag) else None) in
                set_flag formal name given rest c)))"

lemma set_flag_shorter: "set_flag formal name given args c = FlagSeen rest c' \<Longrightarrow> length rest \<le> length args"
  by (auto simp: set_flag_def Let_def split: option.splits setter.splits list.splits)

lemma parseOne_shorter: "parseOne formal args c = FlagSeen rest c' \<Longrightarrow> length rest < length args"
  by (cases args) (auto simp: parseOne_def Let_def split: if_splits dest!: set_flag_shorter)

function Parse :: "'c formal \<Rightarrow> string list \<Rightarrow> 'c \<Rightarrow> (flag_error, 'c \<times> string list) result" where
  "Parse formal args c =
     (case parseOne formal args c of
        NoFlag rest \<Rightarrow> Inr (c, rest)
      | FlagFailed e \<Rightarrow> Inl e
      | FlagSeen rest c' \<Rightarrow> Parse formal rest c')"
  by pat_completeness auto
termination
  by (relation "measure (\<lambda>(_, args, _). length args)") (auto simp: parseOne_shorter)

declare Parse.simps [simp del]

text \<open>
  \<open>parseFlags\<close> makes a flag set that leaves the process on an error, with status 0 when help was
  asked for and 2 otherwise; arguments that remain are not looked at.
\<close>

datatype 'c parsed = Parsed 'c | ExitWith nat

definition parseFlags :: "'c formal \<Rightarrow> string list \<Rightarrow> 'c \<Rightarrow> 'c parsed" where
  "parseFlags formal args c =
     (case Parse formal args c of
        Inr (c', _) \<Rightarrow> Parsed c'
      | Inl HelpRequested \<Rightarrow> ExitWith 0
      | Inl _ \<Rightarrow> ExitWith 2)"

section \<open>The flags of the commands\<close>

definition string_flags :: "string list" where
  "string_flags = [''listen'', ''admin-listen'', ''namespace'', ''ca-secret'', ''ca-configmap'', ''origin-ca-file'',
     ''deny-cidr'', ''log-level'', ''log-format'', ''kubeconfig'']"

definition bool_flags :: "string list" where
  "bool_flags = [''auto-init-ca'', ''no-default-deny-cidrs'']"

definition duration_flags :: "string list" where
  "duration_flags = [''handshake-timeout'', ''idle-timeout'', ''shutdown-grace'', ''upstream-timeout'',
     ''leaf-validity'', ''ca-sync-interval'']"

text \<open>\<open>Config.BindFlags\<close> on a flag set: each name with the kind of its variable.\<close>

definition BindFlags :: "(nat \<Rightarrow> nat \<Rightarrow> nat \<Rightarrow> nat) \<Rightarrow> config formal" where
  "BindFlags frac name =
     (if name \<in> set bool_flags then
        Some (BoolVar (\<lambda>b c. case apply_flag (name, BoolFlag b) c of Some c' \<Rightarrow> c' | None \<Rightarrow> c))
      else if name \<in> set duration_flags then
        Some (ValueVar (\<lambda>v c. case ParseDuration frac v of
                                None \<Rightarrow> None | Some d \<Rightarrow> apply_flag (name, DurationFlag d) c))
      else if name \<in> set string_flags then Some (ValueVar (\<lambda>v c. apply_flag (name, StringFlag v) c))
      else None)"

record preflight_flags =
  pf_url :: string
  pf_podIP :: string
  pf_timeout :: int

definition preflight_defaults :: "(string \<Rightarrow> string) \<Rightarrow> preflight_flags" where
  "preflight_defaults getenv =
     \<lparr>pf_url = ''http://relay.relay-system:9090'', pf_podIP = getenv ''POD_IP'', pf_timeout = seconds 10\<rparr>"

definition preflight_formal :: "(nat \<Rightarrow> nat \<Rightarrow> nat \<Rightarrow> nat) \<Rightarrow> preflight_flags formal" where
  "preflight_formal frac name =
     (if name = ''url'' then Some (ValueVar (\<lambda>v c. Some (c\<lparr>pf_url := v\<rparr>)))
      else if name = ''pod-ip'' then Some (ValueVar (\<lambda>v c. Some (c\<lparr>pf_podIP := v\<rparr>)))
      else if name = ''timeout'' then
        Some (ValueVar (\<lambda>v c. case ParseDuration frac v of None \<Rightarrow> None | Some d \<Rightarrow> Some (c\<lparr>pf_timeout := d\<rparr>)))
      else None)"

definition init_formal :: "(nat \<Rightarrow> nat \<Rightarrow> nat \<Rightarrow> nat) \<Rightarrow> init_flags formal" where
  "init_formal frac name =
     (if name = ''name'' then Some (ValueVar (\<lambda>v c. Some (c\<lparr>if_name := v\<rparr>)))
      else if name = ''namespace'' then Some (ValueVar (\<lambda>v c. Some (c\<lparr>if_namespace := v\<rparr>)))
      else if name = ''common-name'' then Some (ValueVar (\<lambda>v c. Some (c\<lparr>if_commonName := v\<rparr>)))
      else if name = ''validity'' then
        Some (ValueVar (\<lambda>v c. case ParseDuration frac v of None \<Rightarrow> None | Some d \<Rightarrow> Some (c\<lparr>if_validity := d\<rparr>)))
      else if name = ''next'' then Some (BoolVar (\<lambda>b c. c\<lparr>if_rotate := b\<rparr>))
      else None)"

section \<open>From the arguments to a command\<close>

datatype launch =
    RunServe config
  | RunPreflight preflight_flags
  | RunInitCA init_flags
  | ExitStatus nat

definition main_launch :: "(nat \<Rightarrow> nat \<Rightarrow> nat \<Rightarrow> nat) \<Rightarrow> (string \<Rightarrow> string) \<Rightarrow> string list \<Rightarrow> launch" where
  "main_launch frac getenv argv =
     (case run argv of
        Serve args \<Rightarrow>
          (case parseFlags (BindFlags frac) args (Default getenv) of
             Parsed c \<Rightarrow> RunServe c | ExitWith n \<Rightarrow> ExitStatus n)
      | Preflight args \<Rightarrow>
          (case parseFlags (preflight_formal frac) args (preflight_defaults getenv) of
             Parsed c \<Rightarrow> RunPreflight c | ExitWith n \<Rightarrow> ExitStatus n)
      | InitCA args \<Rightarrow>
          (case parseFlags (init_formal frac) args init_defaults of
             Parsed c \<Rightarrow> RunInitCA c | ExitWith n \<Rightarrow> ExitStatus n)
      | Help \<Rightarrow> ExitStatus 0
      | Unknown _ \<Rightarrow> ExitStatus 1)"

text \<open>\<open>main\<close>: the status of the process when a command has returned.\<close>

definition main_status :: "'e option \<Rightarrow> nat" where
  "main_status err = (case err of None \<Rightarrow> 0 | Some _ \<Rightarrow> 1)"

section \<open>Writing a command line\<close>

fun render_value :: "flag_value \<Rightarrow> string" where
  "render_value (StringFlag v) = v"
| "render_value (BoolFlag b) = (if b then ''true'' else ''false'')"
| "render_value (DurationFlag d) = Itoa d @ ''ns''"

definition render_flag :: "string \<times> flag_value \<Rightarrow> string" where
  "render_flag fv = ''--'' @ fst fv @ ''='' @ render_value (snd fv)"

fun well_formed_flag :: "string \<times> flag_value \<Rightarrow> bool" where
  "well_formed_flag (name, StringFlag v) \<longleftrightarrow> name \<in> set string_flags"
| "well_formed_flag (name, BoolFlag b) \<longleftrightarrow> name \<in> set bool_flags"
| "well_formed_flag (name, DurationFlag d) \<longleftrightarrow> name \<in> set duration_flags \<and> - (2 ^ 63) \<le> d \<and> d < 2 ^ 63"

lemma flag_names:
  "name \<in> set string_flags \<union> set bool_flags \<union> set duration_flags \<Longrightarrow>
     name \<noteq> [] \<and> hd name \<noteq> CHR ''-'' \<and> CHR ''='' \<notin> set name"
  by (auto simp: string_flags_def bool_flags_def duration_flags_def)

lemma flag_kinds:
  "name \<in> set string_flags \<Longrightarrow> name \<notin> set bool_flags \<and> name \<notin> set duration_flags"
  "name \<in> set duration_flags \<Longrightarrow> name \<notin> set bool_flags"
  by (auto simp: string_flags_def bool_flags_def duration_flags_def)

lemma well_formed_name: "well_formed_flag fv \<Longrightarrow> fst fv \<in> set string_flags \<union> set bool_flags \<union> set duration_flags"
  by (cases fv rule: well_formed_flag.cases) auto

lemma well_formed_applies: "well_formed_flag fv \<Longrightarrow> \<exists>c'. apply_flag fv c = Some c'"
  by (cases fv rule: well_formed_flag.cases)
    (auto simp: apply_flag_def string_flags_def bool_flags_def duration_flags_def)

text \<open>An argument with an equals sign is cut at the first one, and the next argument is not touched.\<close>

lemma parseOne_given:
  assumes "name \<noteq> []" "hd name \<noteq> CHR ''-''" "CHR ''='' \<notin> set name"
  shows "parseOne formal ((''--'' @ name @ ''='' @ v) # rest) c = set_flag formal name (Some v) rest c"
proof -
  have "cut_before {CHR ''=''} (name @ CHR ''='' # v) = name"
    unfolding cut_before_def by (subst takeWhile_append2) (use assms(3) in auto)
  moreover have "name ! 0 \<noteq> CHR ''=''" "name ! 0 \<noteq> CHR ''-''" using assms by (cases name; auto)+
  ultimately show ?thesis using assms(1) by (simp add: parseOne_def nth_append Let_def)
qed

lemma parseOne_render:
  assumes "well_formed_flag fv"
  shows "parseOne (BindFlags frac) (render_flag fv # rest) c = FlagSeen rest (the (apply_flag fv c))"
proof -
  obtain name v where fv: "fv = (name, v)" by (cases fv) auto
  from flag_names [OF well_formed_name [OF assms]] fv
  have "parseOne (BindFlags frac) (render_flag fv # rest) c = set_flag (BindFlags frac) name (Some (render_value v)) rest c"
    using parseOne_given [of name "BindFlags frac" "render_value v" rest c] by (simp add: render_flag_def)
  also have "\<dots> = FlagSeen rest (the (apply_flag fv c))"
    using assms fv flag_kinds [of name] well_formed_applies [OF assms, of c]
    by (cases v) (auto simp: set_flag_def BindFlags_def ParseBool_def ParseDuration_ns)
  finally show ?thesis .
qed

lemma Parse_render_append:
  "list_all well_formed_flag fvs \<Longrightarrow>
     \<exists>c'. apply_flags fvs c = Some c' \<and> Parse (BindFlags frac) (map render_flag fvs @ rest) c = Parse (BindFlags frac) rest c'"
proof (induction fvs arbitrary: c)
  case Nil
  then show ?case by simp
next
  case (Cons fv fvs)
  from well_formed_applies [of fv c] Cons.prems obtain d where "apply_flag fv c = Some d" by auto
  moreover have "Parse (BindFlags frac) (render_flag fv # map render_flag fvs @ rest) c =
      Parse (BindFlags frac) (map render_flag fvs @ rest) (the (apply_flag fv c))"
    using parseOne_render [of fv frac "map render_flag fvs @ rest" c] Cons.prems by (subst Parse.simps) simp
  ultimately show ?case using Cons.IH [of d] Cons.prems by simp
qed

lemma Parse_render:
  "list_all well_formed_flag fvs \<Longrightarrow>
     \<exists>c'. apply_flags fvs c = Some c' \<and> Parse (BindFlags frac) (map render_flag fvs) c = Inr (c', [])"
  using Parse_render_append [of fvs c frac "[]"] by (simp add: Parse.simps [of _ "[]"] parseOne_def)

text \<open>The first argument that is not a flag ends the options: what follows is never looked at.\<close>

lemma Parse_argument:
  assumes "length arg < 2 \<or> arg ! 0 \<noteq> CHR ''-''"
  shows "Parse formal (arg # rest) c = Inr (c, arg # rest)"
  using assms by (subst Parse.simps) (simp add: parseOne_def)

end
