(* ===== verification/Operations_Properties.thy ===== *)
theory Operations_Properties
  imports Client_Properties Service_Properties Startup Init_CA Process Flags
begin

text \<open>
  The properties of running the relay: what has happened before it listens, how the accept loop
  ends, what the preflight check and the \<open>init-ca\<close> command tell the operator.
\<close>

section \<open>Starting\<close>

text \<open>
  C33. When the relay starts to listen, its configuration was accepted, it has a CA it can sign
  with and an issuer within its bound that uses it, the guard holds every default range unless
  they were switched off, every extra range was parsed, both caches had synced, the snapshot it
  decides on was built from what the API server listed after that, it reports ready, and no
  time-out of the server is zero; nothing is remembered as unknown, for a time that is positive.
\<close>

theorem served_configuration_is_sound:
  assumes "serve bt cfg = (Inr sr, made)"
  shows "Validate cfg = None \<and> issuer_ok (sr_issuer sr) \<and>
    (\<exists>c. b_Current (is_bundle (sr_issuer sr)) = Some c \<and> ca_Key c \<noteq> None) \<and>
    (\<not> DisableDefaultDeniedCIDRs cfg \<longrightarrow> set default_prefixes \<subseteq> set (g_denied (sr_guard sr))) \<and>
    (\<forall>cidr\<in>set (ExtraDeniedCIDRs cfg). \<exists>p\<in>set (g_denied (sr_guard sr)). parse_cidr cidr = Inr p) \<and>
    bt_cache_synced bt \<and> bt_pods_synced bt \<and> bt_namespaces_synced bt \<and>
    (\<exists>pols ups. bt_policies bt = Inr pols \<and> bt_upstreams bt = Inr ups \<and> sr_snapshot sr = build_snapshot pols ups) \<and>
    so_Ready (sr_options sr) = Some True \<and>
    0 < so_HandshakeTimeout (sr_options sr) \<and> 0 < so_IdleTimeout (sr_options sr) \<and>
    0 < pv_negTTL (sr_provider sr) \<and> pv_negative (sr_provider sr) = []"
proof -
  from assms obtain blank pv b where st: "Validate cfg = None"
    "NewPodIPProvider (bt_indexers bt) (IdentityNegTTL cfg) = Inr pv"
    "loadCABundle (bt_crypto bt) (bt_ref bt) (bt_now bt) cfg (bt_secret bt) (bt_created bt) = (Inr b, made)"
    "serve_parts bt cfg blank pv b = Inr sr"
    by (rule serve_stages)
  note parts = serve_parts_stages [OF st(4)]
  from parts have "issuer_ok (sr_issuer sr)" "is_bundle (sr_issuer sr) = b"
    by (auto dest: NewIssuer_ok)
  moreover from parts have "\<not> DisableDefaultDeniedCIDRs cfg \<longrightarrow> set default_prefixes \<subseteq> set (g_denied (sr_guard sr))"
    by (auto dest: New_defaults [THEN subsetD])
  moreover from parts New_extra
  have "\<forall>cidr\<in>set (ExtraDeniedCIDRs cfg). \<exists>p\<in>set (g_denied (sr_guard sr)). parse_cidr cidr = Inr p" by blast
  moreover have "0 < pv_negTTL (sr_provider sr) \<and> pv_negative (sr_provider sr) = []"
    using NewPodIPProvider_fresh [OF st(2)] parts by simp
  ultimately show ?thesis
    using st(1) parts loadCABundle_signs [OF st(3)] serve_caches_snapshot [of bt blank "sr_snapshot sr"] by blast
qed

definition ex_boot :: "(unit, (string \<times> string) list) boot" where
  "ex_boot = \<lparr>bt_kubeconfig = Inr (), bt_schemes = [Inr (), Inr ()], bt_clientset = Inr (), bt_cache = Inr (),
     bt_direct = Inr (), bt_informers = [Inr (), Inr ()], bt_indexers = Inr (), bt_crypto = ex_install_crypto,
     bt_ref = 0, bt_now = 0, bt_secret = Inl SecretNotFound, bt_created = (\<lambda>_. Inr ()),
     bt_readFile = (\<lambda>_. Inl ''no file''), bt_systemPool = None, bt_emptyPool = (),
     bt_append = (\<lambda>_ pool. (pool, False)), bt_cache_synced = True, bt_pods_synced = True, bt_namespaces_synced = True,
     bt_policies = Inr [ex_policy], bt_upstreams = Inr [ex_profile], bt_listen = Inr ()\<rparr>"

definition ex_config :: config where
  "ex_config = (Default (\<lambda>_. []))\<lparr>AutoInitCA := True, Namespace := ''relay''\<rparr>"

lemma ex_config_simps [simp]:
  "Validate ex_config = None" "AutoInitCA ex_config" "ExtraDeniedCIDRs ex_config = []"
  "\<not> DisableDefaultDeniedCIDRs ex_config" "OriginCAFile ex_config = []" "CASyncInterval ex_config = seconds 30"
  "Namespace ex_config = ''relay''" "IdentityNegTTL ex_config = seconds 2"
  by (simp_all add: ex_config_def Validate_None_iff Default_def envOr_def seconds_def)

lemma ex_served: "\<exists>sr made. serve ex_boot ex_config = (Inr sr, made) \<and>
    sr_snapshot sr = build_snapshot [ex_policy] [ex_profile] \<and>
    sr_guard sr = \<lparr>g_denied = default_prefixes\<rparr> \<and> sr_origin sr = None"
proof -
  from ex_installed obtain b d where i: "initCASecret ex_install_crypto 0 0 (\<lambda>_. Inr ()) = (Inr b, Some d)" by blast
  then have load: "loadCABundle ex_install_crypto 0 0 ex_config (Inl SecretNotFound) (\<lambda>_. Inr ()) = (Inr b, Some d)"
    by (simp add: loadCABundle_def)
  from loadCABundle_signs [OF this] obtain iss where
    iss: "NewIssuer (Some b) (LeafValidity ex_config) DefaultCacheSize = Inr iss"
    by (auto simp: NewIssuer_def Let_def)
  have "\<exists>sr. serve_parts ex_boot ex_config (empty_snapshot :: (string \<times> string) list snapshot) \<lparr>pv_negTTL = seconds 2, pv_negative = []\<rparr> b = Inr sr \<and>
      sr_snapshot sr = build_snapshot [ex_policy] [ex_profile] \<and>
      sr_guard sr = \<lparr>g_denied = default_prefixes\<rparr> \<and> sr_origin sr = None"
    by (simp add: serve_parts_def iss New_default_guard originTLSConfig_def server_New_def controller_New_def
        serve_caches_def HasSynced_def refreshErr_def ex_boot_def seconds_def Let_def split: option.splits)
  with load show ?thesis by (auto simp: serve_def NewStore_def NewPodIPProvider_def effective_ttl_def seconds_def ex_boot_def)
qed

theorem served_configuration_is_sound_witness:
  "\<exists>sr made. serve ex_boot ex_config = (Inr sr, made) \<and> set default_prefixes \<subseteq> set (g_denied (sr_guard sr))"
proof -
  from ex_served obtain sr made where s: "serve ex_boot ex_config = (Inr sr, made)" by blast
  from served_configuration_is_sound [OF s] s show ?thesis by auto
qed

text \<open>The \<open>--kubeconfig\<close> option has no effect on what is served.\<close>

theorem kubeconfig_is_not_used: "serve bt (cfg\<lparr>Kubeconfig := path\<rparr>) = serve bt cfg"
proof -
  let ?cfg = "cfg\<lparr>Kubeconfig := path\<rparr>"
  have "serve_parts bt ?cfg = serve_parts bt cfg" 
    by (simp add: serve_parts_def fun_eq_iff cong del: sum.case_cong_weak option.case_cong_weak)
  moreover have "loadCABundle cr ref now ?cfg = loadCABundle cr ref now cfg" for cr ref now
    by (simp add: loadCABundle_def fun_eq_iff split: sum.split get_error.split)
  moreover have "Validate ?cfg = Validate cfg" "IdentityNegTTL ?cfg = IdentityNegTTL cfg" by (simp_all add: Validate_def)
  ultimately show ?thesis unfolding serve_def by (simp only: )
qed

section \<open>Serving and stopping\<close>

text \<open>
  \<open>Serve\<close> returns only when it is done: whatever the interleaving of the accept loop, the handlers,
  the shutdown and the clock, when the loop has returned every connection it ever accepted is closed,
  none is tracked any more and no handler runs.
\<close>

theorem serve_returns_when_all_are_closed:
  assumes "reachable serve_start (serve_step grace) s" "lc_loop s = Returned" "c < lc_accepted s"
  shows "c \<in> lc_closed s \<and> lc_conns s = {} \<and> lc_running s = {}"
proof -
  have "serve_inv s" by (rule serving.reachable_inv [OF assms(1)])
  with assms(2,3) show ?thesis by (auto simp: serve_inv_def)
qed

text \<open>
  C37. A process ends properly and can always be brought to its end: from every reachable state a
  signal leaves a run to the exit, whatever the accept loop is in the middle of, where a handler can end
  at any time; and when it has
  exited, every connection it ever accepted is closed, none is tracked and no handler runs, and the
  status is 0 exactly when neither the accept loop nor the admin server had failed, which takes a
  signal.
\<close>

theorem process_can_end_and_ends_cleanly:
  assumes "reachable proc_start (proc_step grace) p"
  shows "(case pr_exit p of
      None \<Rightarrow> \<exists>q r. (proc_step grace)\<^sup>*\<^sup>* (p\<lparr>pr_serve := (pr_serve p)\<lparr>lc_cancelled := True\<rparr>\<rparr>) q \<and> pr_exit q = Some r
    | Some r \<Rightarrow> {c. c < lc_accepted (pr_serve p)} \<subseteq> lc_closed (pr_serve p) \<and> lc_conns (pr_serve p) = {} \<and>
        lc_running (pr_serve p) = {} \<and>
        (main_status r = 0 \<longleftrightarrow> pr_err p = None \<and> (\<nexists>e. pr_admin p = AdminSent (Some e))) \<and>
        (main_status r = 0 \<longrightarrow> lc_cancelled (pr_serve p)))"
proof -
  have inv: "proc_inv p" by (rule processing.reachable_inv [OF assms])
  show ?thesis
  proof (cases "pr_exit p")
    case None
    from process_can_end [OF _ None, of grace] inv None show ?thesis by (simp add: proc_inv_def can_end_def)
  next
    case (Some r)
    with inv have "serve_inv (pr_serve p)" "lc_loop (pr_serve p) = Returned" "r = serve_end (pr_err p) (pr_admin p)"
      "pr_err p = None \<longrightarrow> lc_cancelled (pr_serve p)"
      by (simp_all add: proc_inv_def over_def)
    with Some show ?thesis
      by (auto simp: serve_inv_def serve_end_def main_status_def split: option.splits admin_phase.splits)
  qed
qed

definition ex_serving :: serve_sys where
  "ex_serving = \<lparr>lc_now = 0, lc_cancelled = False, lc_listening = True, lc_loop = Accepting, lc_accepted = 0,
     lc_conns = {}, lc_running = {}, lc_closed = {}, lc_drain = NotDraining\<rparr>"

lemma ex_serving_reachable: "reachable serve_start (serve_step grace) ex_serving"
  by (rule reach_start) (simp add: serve_start_def ex_serving_def)

definition ex_process :: process where
  "ex_process = \<lparr>pr_serve = ex_serving, pr_err = None, pr_admin = AdminServing, pr_exit = None\<rparr>"

lemma ex_process_reachable: "reachable proc_start (proc_step grace) ex_process"
  by (rule reach_start) (simp add: proc_start_def serve_start_def ex_process_def ex_serving_def)

text \<open>A process that was stopped by a signal before any connection came.\<close>

definition ex_ended :: process where
  "ex_ended = ex_process\<lparr>pr_serve := ex_serving\<lparr>lc_cancelled := True, lc_loop := Returned\<rparr>, pr_exit := Some None\<rparr>"

lemma ex_ended_reachable: "reachable proc_start (proc_step grace) ex_ended"
proof -
  define s1 where "s1 = ex_serving\<lparr>lc_cancelled := True\<rparr>"
  define s2 where "s2 = s1\<lparr>lc_loop := Stopped\<rparr>"
  define s3 where "s3 = s2\<lparr>lc_loop := Returned\<rparr>"
  note d = s3_def s2_def s1_def ex_serving_def
  have "serve_step grace ex_serving s1" using cancel [of grace ex_serving] by (simp add: d)
  then have "proc_step grace ex_process (ex_process\<lparr>pr_serve := s1\<rparr>)"
    using relaying [of ex_process grace s1] by (simp add: ex_process_def accept_over_def d)
  moreover have "serve_step grace s1 s2" using accept_failed [of s1 grace] by (simp add: d)
  then have "proc_step grace (ex_process\<lparr>pr_serve := s1\<rparr>) (ex_process\<lparr>pr_serve := s2\<rparr>)"
    using accept_ended [of "ex_process\<lparr>pr_serve := s1\<rparr>" grace s2 AcceptTimeout None]
    by (simp add: ex_process_def accept_over_def d)
  moreover have "serve_step grace s2 s3" using returned [of s2 grace] by (simp add: d)
  then have "proc_step grace (ex_process\<lparr>pr_serve := s2\<rparr>) (ex_process\<lparr>pr_serve := s3\<rparr>)"
    using relaying [of "ex_process\<lparr>pr_serve := s2\<rparr>" grace s3] by (simp add: ex_process_def accept_over_def d)
  moreover have "proc_step grace (ex_process\<lparr>pr_serve := s3\<rparr>) ex_ended"
    using ended [of "ex_process\<lparr>pr_serve := s3\<rparr>" grace] by (simp add: ex_process_def ex_ended_def serve_end_def d)
  ultimately show ?thesis using ex_process_reachable [of grace] by (meson reach_step)
qed

theorem process_can_end_and_ends_cleanly_witness:
  "main_status (None :: string option) = 0 \<and> pr_exit ex_ended = Some None \<and> lc_cancelled (pr_serve ex_ended)"
  using process_can_end_and_ends_cleanly [OF ex_ended_reachable, of 0]
  by (simp add: ex_ended_def ex_process_def main_status_def)


text \<open>
  C39. The shutdown can miss a connection: with any grace period there is a run in which the
  drain is over while a connection that was accepted before the listener closed is open with its
  handler running; nothing of the shutdown closes it any more, since the accept loop took it
  from the listener before the drain began and registered it afterwards.
\<close>

theorem shutdown_can_miss_a_connection:
  "\<exists>s. reachable serve_start (serve_step grace) s \<and> lc_drain s = Drained \<and> lc_cancelled s \<and>
     0 \<in> lc_running s \<and> 0 \<in> lc_conns s \<and> 0 \<notin> lc_closed s"
proof -
  let ?R = "reachable serve_start (serve_step grace)"
  define s1 where "s1 = ex_serving\<lparr>lc_loop := Holding 0, lc_accepted := 1\<rparr>"
  define s2 where "s2 = s1\<lparr>lc_cancelled := True\<rparr>"
  define s3 where "s3 = s2\<lparr>lc_listening := False, lc_drain := Draining 0\<rparr>"
  define s4 where "s4 = s3\<lparr>lc_drain := Drained\<rparr>"
  define s5 where "s5 = s4\<lparr>lc_loop := Tracked 0, lc_conns := {0}\<rparr>"
  define s6 where "s6 = s5\<lparr>lc_loop := Accepting, lc_running := {0}\<rparr>"
  note d = s6_def s5_def s4_def s3_def s2_def s1_def ex_serving_def
  have "serve_step grace ex_serving s1" using accepted [of ex_serving grace] by (simp add: d)
  moreover have "serve_step grace s1 s2" using cancel [of grace s1] by (simp add: d)
  moreover have "serve_step grace s2 s3" using listener_closed [of s2 grace] by (simp add: d)
  moreover have "serve_step grace s3 s4"
  proof (cases "0 < grace")
    case True
    then show ?thesis using drained_idle [of s3 0 grace] by (simp add: d)
  next
    case False
    then show ?thesis using drained_late [of s3 0 grace] by (simp add: d)
  qed
  moreover have "serve_step grace s4 s5" using tracked [of s4 0 grace] by (simp add: d)
  moreover have "serve_step grace s5 s6" using spawned [of s5 0 grace] by (simp add: d)
  ultimately have "?R s6" using ex_serving_reachable [of grace] by (meson reach_step)
  moreover have "lc_drain s6 = Drained \<and> lc_cancelled s6 \<and> 0 \<in> lc_running s6 \<and> 0 \<in> lc_conns s6 \<and> 0 \<notin> lc_closed s6"
    by (simp add: d)
  ultimately show ?thesis by blast
qed

section \<open>Preflight\<close>

text \<open>
  The preflight check is exact: when the relay's admin endpoint answers the request of a pod
  that reached it from \<open>ip:port\<close>, the check passes exactly when \<open>ip\<close> is the pod's address, and
  otherwise reports both. The hypotheses on the addresses hold for what the network library
  prints: no brackets or white space, and fewer than 256 characters.
\<close>

theorem preflight_compares_the_addresses:
  assumes "http_get (preflight_endpoint adminURL) =
      Inr (snd (admin metrics ready (JoinHostPort ip port) ''/observed-ip''))"
    and "set ip \<inter> {CHR ''['', CHR '']''} = {}" "set port \<inter> {CHR '':'', CHR ''['', CHR '']''} = {}"
    and "ip \<noteq> []" "length ip < 256" "\<forall>c\<in>set ip. \<not> is_space c" "podIP \<noteq> []"
  shows "preflight http_get adminURL podIP = (if ip = podIP then None else Some (PreflightMismatch ip podIP))"
proof -
  have "observed_ip (JoinHostPort ip port) = ip"
    using SplitHostPort_JoinHostPort [OF assms(2,3)] by (simp add: observed_ip_def)
  then have "http_get (preflight_endpoint adminURL) = Inr (ip @ [CHR 0x0A])"
    using assms(1) by (simp add: admin_def)
  moreover have "TrimSpace (ip @ [CHR 0x0A]) = ip"
    using trim_with_core [of "[]" "[CHR 0x0A]" is_space ip] assms(4,6) by (simp add: TrimSpace_def is_space_def)
  ultimately show ?thesis using assms(5,7) by (simp add: preflight_def)
qed

theorem preflight_compares_the_addresses_witness:
  "preflight (\<lambda>_. Inr (snd (admin (200, []) True (JoinHostPort ''10.0.0.1'' ''4242'') ''/observed-ip'')))
     ''http://relay:9090/'' ''10.0.0.2'' = Some (PreflightMismatch ''10.0.0.1'' ''10.0.0.2'')"
  by (subst preflight_compares_the_addresses [of _ _ "(200, [])" True "''10.0.0.1''" "''4242''"])
    (simp_all add: is_space_def)

section \<open>Printing a CA\<close>

lemma bundle_of_generated:
  assumes "LoadCA cr ref certPEM keyPEM = Inr c"
  shows "bundleFromSecret cr ref [caCertKey \<mapsto> certPEM, caKeyKey \<mapsto> keyPEM] = Inr \<lparr>b_Current = Some c, b_Next = None\<rparr>"
  using assms by (simp add: bundleFromSecret_def data_at_def caCertKey_def caKeyKey_def nextCACertKey_def)

text \<open>
  C31. The Secret that \<open>init-ca\<close> prints is one the relay starts from: among the printed lines are
  \<open>ca.crt\<close> and \<open>ca.key\<close>, and the bytes their base64 stands for load as the generated CA with its
  private key; with \<open>--next\<close> the \<open>next-ca.crt\<close> line is there, and adding its bytes to the Secret
  of a running relay publishes that CA next, without a key. The hypothesis is that the encoders of
  the standard library are inverted by its decoders.
\<close>

theorem printed_ca_is_loadable:
  assumes "codec_laws cr" "initCA cr ref now fl = Inr out"
  shows "\<exists>c cert64 key64. GenerateCA cr ref now (if_commonName fl) (if_validity fl) = Inr c \<and>
    (if if_rotate fl
     then ''next-ca.crt: '' @ cert64 \<in> set (Split newline out) \<and>
       (\<forall>d b ref'. bundleFromSecret cr ref' d = Inr b \<longrightarrow> b64_decode cert64 \<noteq> [] \<longrightarrow>
          bundleFromSecret cr ref' (d(nextCACertKey \<mapsto> b64_decode cert64)) =
            Inr (b\<lparr>b_Next := Some (c\<lparr>ca_Ref := Suc ref', ca_Key := None\<rparr>)\<rparr>))
     else ''  ca.crt: '' @ cert64 \<in> set (Split newline out) \<and> ''  ca.key: '' @ key64 \<in> set (Split newline out) \<and>
       bundleFromSecret cr ref [caCertKey \<mapsto> b64_decode cert64, caKeyKey \<mapsto> b64_decode key64] =
         Inr \<lparr>b_Current = Some c, b_Next = None\<rparr>)"
proof -
  from assms obtain c keyPEM where g: "GenerateCA cr ref now (if_commonName fl) (if_validity fl) = Inr c"
    "MarshalKey cr c = Inr keyPEM" "LoadCA cr ref (ca_CertPEM c) keyPEM = Inr c"
    "out = lines_of (if if_rotate fl then rotation_lines fl (b64_encode (ca_CertPEM c)) (b64_encode keyPEM)
       else install_lines fl (b64_encode (ca_CertPEM c)) (b64_encode keyPEM))"
    by (rule initCA_Inr)
  let ?c64 = "b64_encode (ca_CertPEM c)" and ?k64 = "b64_encode keyPEM"
  show ?thesis
  proof (cases "if_rotate fl")
    case True
    have "''next-ca.crt: '' @ ?c64 \<in> set (Split newline out)"
      unfolding g(4) by (rule in_lines) (simp_all add: True rotation_lines_def b64_one_line newline_def [symmetric],
          simp_all add: newline_def)
    moreover have "bundleFromSecret cr ref' (d(nextCACertKey \<mapsto> ca_CertPEM c)) =
        Inr (b\<lparr>b_Next := Some (c\<lparr>ca_Ref := Suc ref', ca_Key := None\<rparr>)\<rparr>)"
      if "bundleFromSecret cr ref' d = Inr b" "ca_CertPEM c \<noteq> []" for d b ref'
      using that LoadCACert_of_LoadCA [OF g(3), of "Suc ref'"]
      by (auto simp: bundleFromSecret_def data_at_def caCertKey_def caKeyKey_def nextCACertKey_def
          split: sum.splits option.splits if_splits)
    ultimately show ?thesis using True g(1) by (intro exI [of _ c] exI [of _ ?c64]) (simp add: b64_roundtrip)
  next
    case False
    have "l \<in> set (Split newline out)" if "l \<in> {''  ca.crt: '' @ ?c64, ''  ca.key: '' @ ?k64}" for l
      unfolding g(4) by (rule in_lines) (use that False b64_one_line in \<open>auto simp: install_lines_def newline_def\<close>)
    then have "''  ca.crt: '' @ ?c64 \<in> set (Split newline out)" "''  ca.key: '' @ ?k64 \<in> set (Split newline out)"
      by blast+
    moreover have "bundleFromSecret cr ref [caCertKey \<mapsto> b64_decode ?c64, caKeyKey \<mapsto> b64_decode ?k64] =
        Inr \<lparr>b_Current = Some c, b_Next = None\<rparr>"
      unfolding b64_roundtrip by (rule bundle_of_generated [OF g(3)])
    ultimately show ?thesis using False g(1) by (simp only: if_False) blast
  qed
qed

lemma ex_printed: "\<exists>out. initCA ex_install_crypto 0 0 init_defaults = Inr out"
  by (simp add: initCA_def GenerateCA_def ex_install_crypto_def randomSerial_def MarshalKey_def init_defaults_def
      ex_template_def DefaultCAValidity_def second_def Let_def)

theorem printed_ca_is_loadable_witness:
  "\<exists>out cert64. initCA ex_install_crypto 0 0 init_defaults = Inr out \<and>
     ''  ca.crt: '' @ cert64 \<in> set (Split newline out)"
proof -
  from ex_printed obtain out where i: "initCA ex_install_crypto 0 0 init_defaults = Inr out" by blast
  from printed_ca_is_loadable [OF ex_install_codec i] i show ?thesis
    by (auto simp: init_defaults_def)
qed

end
