(* ===== verification/Metrics.thy ===== *)
theory Metrics
  imports Inspected Issuer
begin

text \<open>
  \<open>internal/metrics/metrics.go\<close>: the collectors with their label names, and what an increment of the
  proxy or the issuer does to them. \<open>WithLabelValues\<close> panics (\<open>None\<close>) when the number of values is not
  that of the labels. A registry maps a collector and its label values to a number; the library keeps
  it as a floating-point number, which is exact up to \<open>2 ^ 53\<close>.
\<close>

section \<open>Collectors\<close>

definition collectors :: "(string \<times> string list) list" where
  "collectors =
     [(''relay_requests_total'', [''namespace'', ''decision'', ''tls_mode'']),
      (''relay_upstream_errors_total'', [''upstream'', ''kind'']),
      (''relay_active_connections'', [''tls_mode'']),
      (''relay_identity_failures_total'', [''kind'']),
      (''relay_bytes_total'', [''namespace'', ''direction'']),
      (''relay_leaf_certs_total'', [''result''])]"

type_synonym series = "string \<times> string list"
type_synonym registry = "series \<Rightarrow> int"

definition WithLabelValues :: "string \<Rightarrow> string list \<Rightarrow> series option" where
  "WithLabelValues name values =
     (case map_of collectors name of
        None \<Rightarrow> None
      | Some labels \<Rightarrow> if length values = length labels then Some (name, values) else None)"

definition Add :: "string \<Rightarrow> string list \<Rightarrow> int \<Rightarrow> registry \<Rightarrow> registry option" where
  "Add name values k reg =
     (case WithLabelValues name values of None \<Rightarrow> None | Some s \<Rightarrow> Some (reg(s := reg s + k)))"

text \<open>The calls of the proxy and of the issuer, as their sources make them.\<close>

fun observe :: "metric \<Rightarrow> registry \<Rightarrow> registry option" where
  "observe (Requests ns d mode) = Add ''relay_requests_total'' [ns, decision_text d, mode] 1"
| "observe (UpstreamErrors upstream kind) = Add ''relay_upstream_errors_total'' [upstream, kind] 1"
| "observe (ActiveInc mode) = Add ''relay_active_connections'' [mode] 1"
| "observe (ActiveDec mode) = Add ''relay_active_connections'' [mode] (- 1)"
| "observe (IdentityFailures kind) = Add ''relay_identity_failures_total'' [kind] 1"
| "observe (BytesRelayed ns dir n) = Add ''relay_bytes_total'' [ns, dir] (int n)"

text \<open>The certificate cache of the issuer counts on its own.\<close>

fun leaf_result :: "leaf_metric \<Rightarrow> string" where
  "leaf_result HitLeaf = ''hit''"
| "leaf_result MintLeaf = ''mint''"
| "leaf_result ErrorLeaf = ''error''"

definition observe_leaf :: "leaf_metric \<Rightarrow> registry \<Rightarrow> registry option" where
  "observe_leaf k = Add ''relay_leaf_certs_total'' [leaf_result k] 1"

fun observe_all :: "event list \<Rightarrow> registry \<Rightarrow> registry option" where
  "observe_all [] reg = Some reg"
| "observe_all (e # es) reg =
     (case e of
        Counted m \<Rightarrow> (case observe m reg of None \<Rightarrow> None | Some reg1 \<Rightarrow> observe_all es reg1)
      | _ \<Rightarrow> observe_all es reg)"

section \<open>What a run adds to each series\<close>

fun metric_call :: "metric \<Rightarrow> series \<times> int" where
  "metric_call (Requests ns d mode) = ((''relay_requests_total'', [ns, decision_text d, mode]), 1)"
| "metric_call (UpstreamErrors upstream kind) = ((''relay_upstream_errors_total'', [upstream, kind]), 1)"
| "metric_call (ActiveInc mode) = ((''relay_active_connections'', [mode]), 1)"
| "metric_call (ActiveDec mode) = ((''relay_active_connections'', [mode]), - 1)"
| "metric_call (IdentityFailures kind) = ((''relay_identity_failures_total'', [kind]), 1)"
| "metric_call (BytesRelayed ns dir n) = ((''relay_bytes_total'', [ns, dir]), int n)"

fun adds :: "series \<Rightarrow> event \<Rightarrow> int" where
  "adds s (Counted m) = (if fst (metric_call m) = s then snd (metric_call m) else 0)"
| "adds s _ = 0"

definition added :: "series \<Rightarrow> event list \<Rightarrow> int" where
  "added s evs = sum_list (map (adds s) evs)"

lemma added_simps [simp]:
  "added s [] = 0" "added s (e # es) = adds s e + added s es" "added s (es @ fs) = added s es + added s fs"
  by (simp_all add: added_def)

lemma observe_call: "observe m reg = Some (\<lambda>s. reg s + adds s (Counted m))"
  by (cases m) (auto simp: Add_def WithLabelValues_def collectors_def fun_eq_iff)

text \<open>No sequence of events makes a collector panic, and each adds what its calls add.\<close>

lemma observe_all_added: "observe_all evs reg = Some (\<lambda>s. reg s + added s evs)"
proof (induction evs arbitrary: reg)
  case (Cons e es)
  then show ?case by (cases e) (simp_all add: observe_call add.assoc)
qed simp

section \<open>The gauge of active connections\<close>

definition active_series :: "string \<Rightarrow> series" where
  "active_series mode = (''relay_active_connections'', [mode])"

fun gauge_event :: "event \<Rightarrow> bool" where
  "gauge_event (Counted (ActiveInc _)) = True"
| "gauge_event (Counted (ActiveDec _)) = True"
| "gauge_event _ = False"

definition ungauged :: "event list \<Rightarrow> bool" where
  "ungauged evs \<longleftrightarrow> (\<forall>e\<in>set evs. \<not> gauge_event e)"

lemma ungauged_simps [simp]:
  "ungauged []" "ungauged (e # es) \<longleftrightarrow> \<not> gauge_event e \<and> ungauged es"
  "ungauged (es @ fs) \<longleftrightarrow> ungauged es \<and> ungauged fs" "ungauged (map Net ns)"
  by (auto simp: ungauged_def)

lemma audit_not_gauge [simp]: "\<not> gauge_event (audit wid remote rec)" "\<not> gauge_event (auditBumped w wid dec req t d r rdec)"
  by (simp_all add: audit_def auditBumped_def Let_def)

lemma ungauged_adds: "\<not> gauge_event e \<Longrightarrow> adds (active_series mode) e = 0"
proof (cases e)
  case (Counted m)
  then show "\<not> gauge_event e \<Longrightarrow> adds (active_series mode) e = 0" by (cases m) (simp_all add: active_series_def)
qed simp_all

lemma ungauged_added: "ungauged es \<Longrightarrow> added (active_series mode) es = 0"
  by (induction es) (auto simp: ungauged_adds)

lemma failures_ungauged [simp]:
  "ungauged (dialFailure w remote wid meth dec err)" "ungauged (internalError w remote wid meth host port perr)"
  "ungauged (denyIdentity w remote req ierr)"
  by (auto simp: dialFailure_def internalError_def denyIdentity_def case_prod_beta Let_def
      split: proxy_error.split upstream_error.split engine_error.split)

lemma exchange_plain_ungauged: "ungauged (fst (exchange_plain w remote wid req u host port dec rdec upgrade c auth))"
  by (simp add: exchange_plain_def case_prod_beta Let_def split: sum.split)

lemma relayPlain_ungauged: "ungauged (fst (relayPlainRequest sv w remote wid req u))"
  by (simp add: relayPlainRequest_def case_prod_beta Let_def exchange_plain_ungauged split: sum.split)

lemma handlePlainHTTP_ungauged: "ungauged (handlePlainHTTP sv w remote wid req later)"
proof (induction later arbitrary: w req)
  case Nil
  show ?case
    by (subst handlePlainHTTP.simps) (simp add: case_prod_beta relayPlain_ungauged split: option.split)
next
  case (Cons x later)
  then show ?case
    by (subst handlePlainHTTP.simps) (simp add: case_prod_beta relayPlain_ungauged split: option.split prod.split sum.split)
qed

lemma dialOriginTLS_ungauged: "ungauged (snd (dialOriginTLS sv w name addr))"
  by (auto simp: dialOriginTLS_def case_prod_beta Let_def split: option.split sum.split)

lemma forwardBumped_ungauged: "ungauged (fst (snd (forwardBumped sv w trs req rdec dec authority upgrade)))"
proof -
  have "\<not> gauge_event e" if "e \<in> set (fst (snd (roundTrip sv w trs1 name authority sent)))" "\<not> gauge_event sent" for e trs1 name sent
    using roundTrip_events [OF that(1)] that(2) dialOriginTLS_ungauged [of sv w name authority]
    unfolding ungauged_def by blast
  then have rt: "ungauged (fst (snd (roundTrip sv w trs1 name authority (Forwarded a u h hdr))))" for trs1 name a u h hdr
    by (auto simp: ungauged_def)
  show ?thesis
    by (simp add: forwardBumped_def case_prod_beta Let_def rt spliceUpgrade_def split: sum.split)
qed

lemma serveOne_ungauged: "ungauged (fst (serveOne sv w trs wid dec req))"
  by (simp add: serveOne_def case_prod_beta Let_def forwardBumped_ungauged split: sum.split)

lemma serveBumped_ungauged: "ungauged (fst (serveBumped sv trs wid dec later))"
proof (induction later arbitrary: trs)
  case (Cons x later)
  then show ?case by (cases x) (auto simp: case_prod_beta Let_def serveOne_ungauged split: option.split)
qed simp

text \<open>A run is free of gauge events, or has one increment and, later, one decrement of one mode.\<close>

definition bracketed :: "event list \<Rightarrow> bool" where
  "bracketed evs \<longleftrightarrow> ungauged evs \<or>
     (\<exists>mode as bs cs. evs = as @ Counted (ActiveInc mode) # bs @ Counted (ActiveDec mode) # cs \<and>
        ungauged as \<and> ungauged bs \<and> ungauged cs)"

lemma bracketedI: "ungauged as \<Longrightarrow> ungauged bs \<Longrightarrow> ungauged cs \<Longrightarrow>
    bracketed (as @ Counted (ActiveInc mode) # bs @ Counted (ActiveDec mode) # cs)"
  unfolding bracketed_def by blast

lemma tunnel_bracketed: "bracketed (tunnel sv w remote wid dec)"
proof -
  show ?thesis
  proof (cases "resolveTarget sv w (cd_Host dec) (cd_Port dec) (cd_Upstream dec)")
    case (Inl e)
    then show ?thesis by (simp add: tunnel_def bracketed_def)
  next
    case (Inr pt)
    obtain profile t where pt: "pt = (profile, t)" by fastforce
    obtain r ev where d: "Dial (sv_Dialer sv) (w_net w) (Some profile) t = (r, ev)" by fastforce
    show ?thesis
    proof (cases r)
      case (Inl e)
      with Inr pt d show ?thesis by (simp add: tunnel_def bracketed_def)
    next
      case c: (Inr c)
      show ?thesis
      proof (cases "w_client_ok w")
        case False
        with Inr pt d c show ?thesis by (simp add: tunnel_def bracketed_def case_prod_beta Let_def)
      next
        case True
        obtain up down where "w_spliced w = (up, down)" by fastforce
        with True Inr pt d c have "\<exists>rec. tunnel sv w remote wid dec = (map Net ev @ [Established]) @ Counted (ActiveInc TLSModeTunnel) #
            [Counted (Requests (id_Namespace wid) DecisionAllow TLSModeTunnel), Spliced,
             Counted (BytesRelayed (id_Namespace wid) ''up'' up), Counted (BytesRelayed (id_Namespace wid) ''down'' down),
             audit wid remote rec] @ Counted (ActiveDec TLSModeTunnel) # [Net (Closed (c_Addr c))]"
          by (simp add: tunnel_def Let_def) blast
        then obtain rec where "tunnel sv w remote wid dec = (map Net ev @ [Established]) @ Counted (ActiveInc TLSModeTunnel) #
            [Counted (Requests (id_Namespace wid) DecisionAllow TLSModeTunnel), Spliced,
             Counted (BytesRelayed (id_Namespace wid) ''up'' up), Counted (BytesRelayed (id_Namespace wid) ''down'' down),
             audit wid remote rec] @ Counted (ActiveDec TLSModeTunnel) # [Net (Closed (c_Addr c))]" ..
        then show ?thesis by (simp only: ) (rule bracketedI, simp_all)
      qed
    qed
  qed
qed

lemma handleInspect_bracketed: "bracketed (fst (handleInspect sv w trs remote wid dec later))"
proof (cases "sv_HasIssuer sv \<and> w_client_ok w")
  case False
  then show ?thesis by (auto simp: handleInspect_def bracketed_def)
next
  case ok: True
  show ?thesis
  proof (cases "w_handshake w")
    case (Inl e)
    obtain rec where "fst (handleInspect sv w trs remote wid dec later) = [Established] @ Counted (ActiveInc TLSModeInspect) #
        [audit wid remote rec] @ Counted (ActiveDec TLSModeInspect) # []"
      using ok Inl by (simp add: handleInspect_def)
    then show ?thesis by (simp only: ) (rule bracketedI, simp_all)
  next
    case (Inr _)
    obtain up down where "w_counted w = (up, down)" by fastforce
    with ok Inr have "fst (handleInspect sv w trs remote wid dec later) = [Established] @ Counted (ActiveInc TLSModeInspect) #
        (fst (serveBumped sv trs wid dec later) @ [Counted (BytesRelayed (id_Namespace wid) ''up'' up),
           Counted (BytesRelayed (id_Namespace wid) ''down'' down)]) @ Counted (ActiveDec TLSModeInspect) # []"
      by (simp add: handleInspect_def case_prod_beta Let_def)
    then show ?thesis by (simp only: ) (rule bracketedI, simp_all add: serveBumped_ungauged)
  qed
qed

lemma ungauged_bracketed: "ungauged es \<Longrightarrow> bracketed es"
  by (simp add: bracketed_def)

lemma handleConnect_bracketed: "bracketed (fst (handleConnect sv w trs remote wid req later))"
  by (simp add: handleConnect_def case_prod_beta Let_def handleInspect_bracketed tunnel_bracketed ungauged_bracketed
      split: sum.split)

lemma bracketed_snoc: "bracketed es \<Longrightarrow> \<not> gauge_event e \<Longrightarrow> bracketed (es @ [e])"
proof (cases "ungauged es")
  case False
  assume "bracketed es" "\<not> gauge_event e"
  with False obtain mode as bs cs where
    es: "es = as @ Counted (ActiveInc mode) # bs @ Counted (ActiveDec mode) # cs" "ungauged as" "ungauged bs" "ungauged cs"
    unfolding bracketed_def by blast
  then have "es @ [e] = as @ Counted (ActiveInc mode) # bs @ Counted (ActiveDec mode) # (cs @ [e])" by simp
  with es \<open>\<not> gauge_event e\<close> show "bracketed (es @ [e])" by (simp only: ) (rule bracketedI, simp_all)
qed (simp add: bracketed_def)

lemma handle_bracketed: "bracketed (fst (handle sv ready w trs remote got ident later))"
proof -
  have "bracketed (fst (handle sv ready w trs remote got ident later)) \<longleftrightarrow>
      bracketed (fst (if \<not> ready then ([Reply 503 LoadingPolicy], trs)
         else (case got of
                 Inl _ \<Rightarrow> ([], trs)
               | Inr req \<Rightarrow>
                   (case ident of
                      Inl err \<Rightarrow> (denyIdentity w remote req err, trs)
                    | Inr wid \<Rightarrow>
                        if rq_Method req = MethodConnect then
                          handleConnect sv w trs remote wid req later
                        else (handlePlainHTTP sv w remote wid req later, trs)))) @ [ClientClosed])"
    by (simp add: handle_def case_prod_beta Let_def)
  also have "\<dots>"
    by (rule bracketed_snoc)
      (simp_all add: ungauged_bracketed handleConnect_bracketed handlePlainHTTP_ungauged split: sum.split)
  finally show ?thesis by simp
qed

lemma added_active: "added (active_series mode) [Counted (ActiveInc m)] = (if m = mode then 1 else 0)"
    "added (active_series mode) [Counted (ActiveDec m)] = (if m = mode then - 1 else 0)"
  by (auto simp: active_series_def)

lemma ungauged_take: "ungauged es \<Longrightarrow> ungauged (take k es)"
  by (auto simp: ungauged_def dest: in_set_takeD)

text \<open>At every moment of a bracketed run the gauge is up by nothing or by one, and at its end by nothing.\<close>

lemma bracketed_active:
  assumes "bracketed evs"
  shows "added (active_series mode) (take k evs) \<in> {0, 1}" "added (active_series mode) evs = 0"
proof -
  have "added (active_series mode) (take k evs) \<in> {0, 1} \<and> added (active_series mode) evs = 0"
  proof (cases "ungauged evs")
    case True
    then show ?thesis by (simp add: ungauged_added ungauged_take)
  next
    case False
    with assms obtain m as bs cs where
      es: "evs = as @ [Counted (ActiveInc m)] @ bs @ [Counted (ActiveDec m)] @ cs" "ungauged as" "ungauged bs" "ungauged cs"
      unfolding bracketed_def by auto
    have "added (active_series mode) evs = 0"
      unfolding es(1) added_simps(3) added_active by (simp add: es(2-4) ungauged_added)
    moreover have "added (active_series mode) (take k evs) \<in> {0, 1}"
    proof -
      have flat: "added (active_series mode) (take j as) = 0" "added (active_series mode) (take j bs) = 0"
        "added (active_series mode) (take j cs) = 0" for j
        by (simp_all add: es(2-4) ungauged_added ungauged_take)
      have one: "added s (take j [e]) = (if j = 0 then 0 else added s [e])" for s j e by (cases j) simp_all
      show ?thesis
        unfolding es(1) take_append added_simps(3) flat one added_active by auto
    qed
    ultimately show ?thesis by simp
  qed
  then show "added (active_series mode) (take k evs) \<in> {0, 1}" "added (active_series mode) evs = 0" by simp_all
qed

end
