(* ===== verification/Logging.thy ===== *)
theory Logging
  imports Proxy
begin

text \<open>
  Where the audit stream goes: \<open>newLogger\<close> of \<open>cmd/relay/main.go\<close> with the level syntax of
  \<open>log/slog\<close>, \<open>audit.New\<close>, and the lines that the audit records of a run become. A level is an
  \<open>int\<close> of 64 bits, whose addition wraps; a handler writes a line when its level is at least the
  handler's own. How a handler lays a line out is the library's.
\<close>

section \<open>Levels\<close>

fun level_value :: "level \<Rightarrow> int" where
  "level_value Info = 0"
| "level_value Warn = 4"

definition int64 :: "int \<Rightarrow> int" where
  "int64 i = (i + 2 ^ 63) mod 2 ^ 64 - 2 ^ 63"

text \<open>
  \<open>strings.ToUpper\<close> as far as an ASCII result can tell: two letters outside ASCII have an ASCII upper
  case, the dotless i and the long s.
\<close>

fun ToUpper :: "string \<Rightarrow> string" where
  "ToUpper [] = []"
| "ToUpper [c] = [upper_char c]"
| "ToUpper (c # d # s) =
     (if c = CHR 0xC4 \<and> d = CHR 0xB1 then CHR ''I'' # ToUpper s
      else if c = CHR 0xC5 \<and> d = CHR 0xBF then CHR ''S'' # ToUpper s
      else upper_char c # ToUpper (d # s))"

definition level_name :: "string \<Rightarrow> int option" where
  "level_name name =
     (let n = ToUpper name in
      if n = ''DEBUG'' then Some (- 4)
      else if n = ''INFO'' then Some 0
      else if n = ''WARN'' then Some 4
      else if n = ''ERROR'' then Some 8
      else None)"

text \<open>\<open>Level.UnmarshalText\<close>: a name, and from the first sign on an offset.\<close>

definition UnmarshalLevel :: "string \<Rightarrow> int option" where
  "UnmarshalLevel s =
     (let name = cut_before {CHR ''+'', CHR ''-''} s; rest = drop (length name) s in
      case (if rest = [] then Some 0 else Atoi rest) of
        None \<Rightarrow> None
      | Some offset \<Rightarrow> (case level_name name of None \<Rightarrow> None | Some l \<Rightarrow> Some (int64 (l + offset))))"

section \<open>Loggers\<close>

datatype log_format = TextHandler | JSONHandler

record logger =
  lg_format :: log_format
  lg_level :: int
  lg_attrs :: "(string \<times> attr_value) list"

definition newLogger :: "string \<Rightarrow> string \<Rightarrow> logger" where
  "newLogger level format =
     (let lvl = (case UnmarshalLevel level of None \<Rightarrow> 0 | Some l \<Rightarrow> l) in
      if format = ''text'' then \<lparr>lg_format = TextHandler, lg_level = lvl, lg_attrs = []\<rparr>
      else \<lparr>lg_format = JSONHandler, lg_level = lvl, lg_attrs = []\<rparr>)"

definition audit_New :: "logger \<Rightarrow> logger option \<Rightarrow> logger" where
  "audit_New dflt log =
     (let l = (case log of None \<Rightarrow> dflt | Some l \<Rightarrow> l) in
      l\<lparr>lg_attrs := lg_attrs l @ [(''stream'', StringValue ''audit'')]\<rparr>)"

type_synonym log_line = "level \<times> string \<times> (string \<times> attr_value) list"

text \<open>What a logger makes of a message: nothing below its level.\<close>

definition emit :: "logger \<Rightarrow> log_line \<Rightarrow> log_line option" where
  "emit lg ln =
     (case ln of (lvl, msg, attrs) \<Rightarrow>
        if lg_level lg \<le> level_value lvl then Some (lvl, msg, lg_attrs lg @ attrs) else None)"

definition audit_line :: "logger \<Rightarrow> ('r \<Rightarrow> string) \<Rightarrow> 'r audit_record \<Rightarrow> log_line option" where
  "audit_line lg txt r = emit lg (Log txt r)"

text \<open>The audit lines of a run, in its order.\<close>

fun audit_stream :: "logger \<Rightarrow> (why \<Rightarrow> string) \<Rightarrow> event list \<Rightarrow> log_line list" where
  "audit_stream lg txt [] = []"
| "audit_stream lg txt (e # es) =
     (case e of
        Audited r \<Rightarrow> (case audit_line lg txt r of None \<Rightarrow> [] | Some ln \<Rightarrow> [ln]) @ audit_stream lg txt es
      | _ \<Rightarrow> audit_stream lg txt es)"

fun audited :: "event list \<Rightarrow> why audit_record list" where
  "audited [] = []"
| "audited (e # es) = (case e of Audited r \<Rightarrow> r # audited es | _ \<Rightarrow> audited es)"

section \<open>Which records are written\<close>

lemma int64_range: "- (2 ^ 63) \<le> int64 i" "int64 i < 2 ^ 63"
  by (simp_all add: int64_def)

lemma int64_id: "- (2 ^ 63) \<le> i \<Longrightarrow> i < 2 ^ 63 \<Longrightarrow> int64 i = i"
  by (simp add: int64_def)

lemma lg_level_newLogger [simp]: "lg_level (newLogger level format) = (case UnmarshalLevel level of None \<Rightarrow> 0 | Some l \<Rightarrow> l)"
  by (simp add: newLogger_def Let_def)

lemma lg_level_audit_New [simp]: "lg_level (audit_New dflt (Some lg)) = lg_level lg"
  by (simp add: audit_New_def)

lemma lg_attrs_simps [simp]:
  "lg_attrs (newLogger level format) = []"
  "lg_attrs (audit_New dflt (Some lg)) = lg_attrs lg @ [(''stream'', StringValue ''audit'')]"
  by (simp_all add: newLogger_def audit_New_def Let_def)

definition needed_level :: "decision \<Rightarrow> int" where
  "needed_level d = (if d = DecisionAllow then 0 else 4)"

lemma audit_line_iff: "audit_line lg txt r \<noteq> None \<longleftrightarrow> lg_level lg \<le> needed_level (ar_Decision r)"
  by (simp add: audit_line_def emit_def Log_def needed_level_def)

lemma audit_stream_lines:
  "audit_stream lg txt es = map (\<lambda>r. the (audit_line lg txt r))
     (filter (\<lambda>r. lg_level lg \<le> needed_level (ar_Decision r)) (audited es))"
proof (induction es)
  case (Cons e es)
  then show ?case
  proof (cases e)
    case (Audited r)
    with Cons audit_line_iff [of lg "txt" r] show ?thesis by (cases "audit_line lg txt r") auto
  qed simp_all
qed simp

lemma audited_length: "length (audited es) = length (filter (\<lambda>e. \<exists>r. e = Audited r) es)"
  by (induction es) (auto split: event.splits)

text \<open>The names without an offset, in any case.\<close>

lemma ToUpper_ascii: "list_all (\<lambda>c. c \<noteq> CHR 0xC4 \<and> c \<noteq> CHR 0xC5) s \<Longrightarrow> ToUpper s = map upper_char s"
  by (induction s rule: ToUpper.induct) auto

lemma upper_names:
  "ToUpper ''error'' = ''ERROR''" "ToUpper ''warn'' = ''WARN''" "ToUpper ''info'' = ''INFO''"
  "ToUpper ''debug'' = ''DEBUG''" "ToUpper ''verbose'' = ''VERBOSE''"
  by code_simp+

lemma level_examples:
  "UnmarshalLevel ''error'' = Some 8" "UnmarshalLevel ''warn'' = Some 4" "UnmarshalLevel ''info'' = Some 0"
  "UnmarshalLevel ''debug'' = Some (- 4)" "UnmarshalLevel ''verbose'' = None"
  "UnmarshalLevel ''error+9223372036854775807'' = Some (- 9223372036854775801)"
  by (simp_all add: UnmarshalLevel_def cut_before_def level_name_def upper_names Atoi_def dec_value_def
      is_digit_def int64_def Let_def del: ToUpper.simps)

end
