(* ===== verification/Memory.thy ===== *)
theory Memory
  imports Main
begin

text \<open>
  A store for the code that copies structures with shared parts: cells numbered in the order of
  their allocation, slices as windows into an array cell, and the contract of a deep copy
  (the locale \<open>copier\<close>) with the ways the code builds one copy from others. A pointer is a slice of
  length one, as it may point into an array; a nil slice or pointer is \<open>None\<close>.
\<close>

section \<open>Cells and slices\<close>

record 'c mem =
  m_cells :: "nat \<rightharpoonup> 'c"
  m_next :: nat

record slice =
  sl_array :: nat
  sl_off :: nat
  sl_len :: nat

definition array_at :: "('c \<Rightarrow> 'a list) \<Rightarrow> 'c mem \<Rightarrow> nat \<Rightarrow> 'a list" where
  "array_at unwrap m a = (case m_cells m a of None \<Rightarrow> [] | Some c \<Rightarrow> unwrap c)"

definition contents :: "('c \<Rightarrow> 'a list) \<Rightarrow> 'c mem \<Rightarrow> slice \<Rightarrow> 'a list" where
  "contents unwrap m s = take (sl_len s) (drop (sl_off s) (array_at unwrap m (sl_array s)))"

text \<open>\<open>make\<close> and \<open>new\<close> take the next address; the cell is written by \<open>put\<close>.\<close>

definition make :: "'c mem \<Rightarrow> nat \<times> 'c mem" where
  "make m = (m_next m, m\<lparr>m_next := Suc (m_next m)\<rparr>)"

definition put :: "nat \<Rightarrow> 'c \<Rightarrow> 'c mem \<Rightarrow> 'c mem" where
  "put a c m = m\<lparr>m_cells := (m_cells m)(a \<mapsto> c)\<rparr>"

lemma put_simps [simp]:
  "m_cells (put a c m) i = (if i = a then Some c else m_cells m i)" "m_next (put a c m) = m_next m"
  by (simp_all add: put_def)

lemma make_simps [simp]: "fst (make m) = m_next m" "m_cells (snd (make m)) = m_cells m"
    "m_next (snd (make m)) = Suc (m_next m)"
  by (simp_all add: make_def)

lemma contents_cong: "m_cells n (sl_array s) = m_cells m (sl_array s) \<Longrightarrow> contents unwrap n s = contents unwrap m s"
  by (simp add: contents_def array_at_def)

lemma contents_put: "contents unwrap (put (sl_array s) c m) s = take (sl_len s) (drop (sl_off s) (unwrap c))"
  by (simp add: contents_def array_at_def)

section \<open>The contract of a deep copy\<close>

text \<open>
  \<open>val\<close> is the value a structure stands for, \<open>foot\<close> the cells it reaches. A copy only allocates; it
  stands for the same value, reaches only cells that did not exist before, and a value depends on
  nothing but the cells that are reached.
\<close>

definition allocated :: "'c mem \<Rightarrow> nat set \<Rightarrow> bool" where
  "allocated m A \<longleftrightarrow> (\<forall>i\<in>A. i < m_next m)"

definition extends_mem :: "'c mem \<Rightarrow> 'c mem \<Rightarrow> bool" where
  "extends_mem m n \<longleftrightarrow> m_next m \<le> m_next n \<and> (\<forall>i<m_next m. m_cells n i = m_cells m i)"

lemma extends_refl [simp]: "extends_mem m m"
  by (simp add: extends_mem_def)

lemma extends_trans [trans]: "extends_mem m n \<Longrightarrow> extends_mem n p \<Longrightarrow> extends_mem m p"
  by (auto simp: extends_mem_def)

lemma allocated_mono: "allocated m A \<Longrightarrow> extends_mem m n \<Longrightarrow> allocated n A"
  by (auto simp: allocated_def extends_mem_def)

lemma allocated_simps [simp]: "allocated m {}" "allocated m (A \<union> B) \<longleftrightarrow> allocated m A \<and> allocated m B"
    "allocated m (insert i A) \<longleftrightarrow> i < m_next m \<and> allocated m A"
  by (auto simp: allocated_def)

locale copier =
  fixes copy :: "'a \<Rightarrow> 'c mem \<Rightarrow> 'a \<times> 'c mem"
    and val :: "'c mem \<Rightarrow> 'a \<Rightarrow> 'v"
    and foot :: "'c mem \<Rightarrow> 'a \<Rightarrow> nat set"
  assumes only_allocates: "copy a m = (b, n) \<Longrightarrow> extends_mem m n"
    and same_value: "allocated m (foot m a) \<Longrightarrow> copy a m = (b, n) \<Longrightarrow> val n b = val m a"
    and fresh: "allocated m (foot m a) \<Longrightarrow> copy a m = (b, n) \<Longrightarrow> foot n b \<subseteq> {m_next m..<m_next n}"
    and local: "(\<And>i. i \<in> foot m a \<Longrightarrow> m_cells n i = m_cells m i) \<Longrightarrow> val n a = val m a \<and> foot n a = foot m a"
begin

lemma kept: "allocated m (foot m a) \<Longrightarrow> extends_mem m n \<Longrightarrow> val n a = val m a \<and> foot n a = foot m a"
  by (rule local) (auto simp: allocated_def extends_mem_def)

text \<open>What is written through one of the two never shows through the other.\<close>

lemma separate:
  assumes "allocated m (foot m a)" "copy a m = (b, n)"
  shows "foot n b \<inter> foot n a = {}"
    "(\<And>i. i \<notin> foot n b \<Longrightarrow> m_cells w i = m_cells n i) \<Longrightarrow> val w a = val m a"
    "(\<And>i. i \<notin> foot n a \<Longrightarrow> m_cells w i = m_cells n i) \<Longrightarrow> val w b = val m a"
proof -
  note a = kept [OF assms(1) only_allocates [OF assms(2)]]
  show disj: "foot n b \<inter> foot n a = {}"
    using fresh [OF assms] assms(1) a by (fastforce simp: allocated_def)
  show "val w a = val m a" if w: "\<And>i. i \<notin> foot n b \<Longrightarrow> m_cells w i = m_cells n i"
  proof -
    have "val w a = val n a" using local [of n a w] w disj by blast
    with a show ?thesis by simp
  qed
  show "val w b = val m a" if w: "\<And>i. i \<notin> foot n a \<Longrightarrow> m_cells w i = m_cells n i"
  proof -
    have "val w b = val n b" using local [of n b w] w disj by blast
    with same_value [OF assms] show ?thesis by simp
  qed
qed

end

section \<open>Values without pointers\<close>

definition copy_flat :: "'a \<Rightarrow> 'c mem \<Rightarrow> 'a \<times> 'c mem" where
  "copy_flat a m = (a, m)"

interpretation flat: copier copy_flat "\<lambda>m a. a" "\<lambda>m a. {}"
  by unfold_locales (auto simp: copy_flat_def)

section \<open>Slices and pointers\<close>

text \<open>The loop over the elements, and the copy of a slice: \<open>make\<close>, then element by element.\<close>

fun copy_each :: "('a \<Rightarrow> 'c mem \<Rightarrow> 'a \<times> 'c mem) \<Rightarrow> 'a list \<Rightarrow> 'c mem \<Rightarrow> 'a list \<times> 'c mem" where
  "copy_each copy [] m = ([], m)"
| "copy_each copy (x # xs) m =
     (let (y, m1) = copy x m; (ys, m2) = copy_each copy xs m1 in (y # ys, m2))"

definition copy_slice ::
    "('a list \<Rightarrow> 'c) \<Rightarrow> ('c \<Rightarrow> 'a list) \<Rightarrow> ('a \<Rightarrow> 'c mem \<Rightarrow> 'a \<times> 'c mem) \<Rightarrow> slice \<Rightarrow> 'c mem \<Rightarrow> slice \<times> 'c mem" where
  "copy_slice wrap unwrap copy s m =
     (let xs = contents unwrap m s; (a, m1) = make m; (ys, m2) = copy_each copy xs m1 in
      (\<lparr>sl_array = a, sl_off = 0, sl_len = length xs\<rparr>, put a (wrap ys) m2))"

text \<open>Nil stays nil.\<close>

definition copy_opt :: "('a \<Rightarrow> 'c mem \<Rightarrow> 'a \<times> 'c mem) \<Rightarrow> 'a option \<Rightarrow> 'c mem \<Rightarrow> 'a option \<times> 'c mem" where
  "copy_opt copy p m = (case p of None \<Rightarrow> (None, m) | Some a \<Rightarrow> (let (b, n) = copy a m in (Some b, n)))"

definition slice_val :: "('c \<Rightarrow> 'a list) \<Rightarrow> ('c mem \<Rightarrow> 'a \<Rightarrow> 'v) \<Rightarrow> 'c mem \<Rightarrow> slice \<Rightarrow> 'v list" where
  "slice_val unwrap val m s = map (val m) (contents unwrap m s)"

definition slice_foot :: "('c \<Rightarrow> 'a list) \<Rightarrow> ('c mem \<Rightarrow> 'a \<Rightarrow> nat set) \<Rightarrow> 'c mem \<Rightarrow> slice \<Rightarrow> nat set" where
  "slice_foot unwrap foot m s = insert (sl_array s) (\<Union>x\<in>set (contents unwrap m s). foot m x)"

definition opt_foot :: "('c mem \<Rightarrow> 'a \<Rightarrow> nat set) \<Rightarrow> 'c mem \<Rightarrow> 'a option \<Rightarrow> nat set" where
  "opt_foot foot m p = (case p of None \<Rightarrow> {} | Some a \<Rightarrow> foot m a)"

context copier
begin

lemma each_allocates: "copy_each copy xs m = (ys, n) \<Longrightarrow> extends_mem m n"
proof (induction xs arbitrary: m ys)
  case (Cons x xs)
  then obtain y m1 zs where "copy x m = (y, m1)" "copy_each copy xs m1 = (zs, n)" by (auto split: prod.splits)
  with only_allocates Cons.IH show ?case by (blast intro: extends_trans)
qed simp

lemma each_spec:
  assumes "copy_each copy xs m = (ys, n)" "\<And>x. x \<in> set xs \<Longrightarrow> allocated m (foot m x)"
  shows "map (val n) ys = map (val m) xs \<and> (\<Union>y\<in>set ys. foot n y) \<subseteq> {m_next m..<m_next n}"
  using assms
proof (induction xs arbitrary: m ys)
  case (Cons x xs)
  obtain y m1 zs where c: "copy x m = (y, m1)" "copy_each copy xs m1 = (zs, n)" "ys = y # zs"
    using Cons.prems(1) by (auto split: prod.splits)
  have x: "allocated m (foot m x)" by (rule Cons.prems(2)) simp
  note e1 = only_allocates [OF c(1)] and e2 = each_allocates [OF c(2)]
  have new: "foot m1 y \<subseteq> {m_next m..<m_next m1}" by (rule fresh [OF x c(1)])
  then have "allocated m1 (foot m1 y)" by (auto simp: allocated_def)
  then have y: "val n y = val m1 y" "foot n y = foot m1 y" using kept e2 by blast+
  have xs: "val m1 z = val m z" "foot m1 z = foot m z" if "z \<in> set xs" for z
    using kept [OF Cons.prems(2) e1] that by simp_all
  have al: "allocated m1 (foot m1 z)" if "z \<in> set xs" for z
    using Cons.prems(2) [of z] allocated_mono [OF _ e1] xs(2) [OF that] that by simp
  from Cons.IH [OF c(2)] al have ih: "map (val n) zs = map (val m1) xs" "(\<Union>y\<in>set zs. foot n y) \<subseteq> {m_next m1..<m_next n}"
    by blast+
  have "map (val m1) xs = map (val m) xs" using xs(1) by simp
  moreover have "m_next m \<le> m_next m1" "m_next m1 \<le> m_next n" using e1 e2 by (simp_all add: extends_mem_def)
  ultimately show ?case
    using ih y new same_value [OF x c(1)] c(3) by (auto simp: subset_iff; fastforce)
qed simp

end

text \<open>A copier of the elements gives one of slices, a copier of what is pointed to one of pointers.\<close>

lemma copier_slice:
  assumes "copier copy val foot" and inv: "\<And>xs. unwrap (wrap xs) = xs"
  shows "copier (copy_slice wrap unwrap copy) (slice_val unwrap val) (slice_foot unwrap foot)"
proof -
  note each_allocates = copier.each_allocates [OF assms(1)] and each_spec = copier.each_spec [OF assms(1)]
    and elem = copier.local [OF assms(1)]
  have parts: "\<exists>ys m2. copy_each copy (contents unwrap m s) (snd (make m)) = (ys, m2) \<and> n = put (m_next m) (wrap ys) m2 \<and>
      t = \<lparr>sl_array = m_next m, sl_off = 0, sl_len = length ys\<rparr> \<and> extends_mem (snd (make m)) m2"
    if "copy_slice wrap unwrap copy s m = (t, n)" for s m t n
  proof -
    obtain ys m2 where e: "copy_each copy (contents unwrap m s) (snd (make m)) = (ys, m2)" by fastforce
    have "length ys = length xs" if "copy_each copy xs k = (ys, k')" for xs k k' ys
      using that by (induction xs arbitrary: k ys) (auto split: prod.splits)
    from this [OF e] each_allocates [OF e] that e show ?thesis by (auto simp: copy_slice_def Let_def make_def)
  qed
  show ?thesis
  proof
    fix s m t n assume "copy_slice wrap unwrap copy s m = (t, n)"
    from parts [OF this] show "extends_mem m n" by (auto simp: extends_mem_def)
  next
    fix s m t n assume al: "allocated m (slice_foot unwrap foot m s)" and c: "copy_slice wrap unwrap copy s m = (t, n)"
    from parts [OF c] obtain ys m2 where p: "copy_each copy (contents unwrap m s) (snd (make m)) = (ys, m2)"
      "n = put (m_next m) (wrap ys) m2" "t = \<lparr>sl_array = m_next m, sl_off = 0, sl_len = length ys\<rparr>"
      "extends_mem (snd (make m)) m2" by blast
    have in_m: "val (snd (make m)) x = val m x \<and> foot (snd (make m)) x = foot m x" for x by (rule elem) simp
    have "allocated (snd (make m)) (foot (snd (make m)) x)" if "x \<in> set (contents unwrap m s)" for x
      using al that in_m by (auto simp: slice_foot_def allocated_def intro: less_SucI)
    from each_spec [OF p(1) this] in_m
    have spec: "map (val m2) ys = map (val m) (contents unwrap m s)" "(\<Union>y\<in>set ys. foot m2 y) \<subseteq> {Suc (m_next m)..<m_next m2}"
      by auto
    have ys: "contents unwrap n t = ys" using contents_put [of unwrap t "wrap ys" m2] p(2,3) inv by simp
    have in_n: "val n y = val m2 y \<and> foot n y = foot m2 y" if "y \<in> set ys" for y
      by (rule elem) (use spec(2) that p(2) in auto)
    from in_n have "map (val n) ys = map (val m2) ys" by simp
    with spec(1) ys show "slice_val unwrap val n t = slice_val unwrap val m s" by (simp add: slice_val_def)
    have "m_next n = m_next m2" "m_next m < m_next m2" using p(2,4) by (simp_all add: extends_mem_def)
    with spec(2) in_n ys show "slice_foot unwrap foot n t \<subseteq> {m_next m..<m_next n}"
      by (auto simp: slice_foot_def p(3) subset_iff; fastforce)
  next
    fix s and m n :: "'b mem" assume "\<And>i. i \<in> slice_foot unwrap foot m s \<Longrightarrow> m_cells n i = m_cells m i"
    then have cells: "m_cells n (sl_array s) = m_cells m (sl_array s)"
      "\<And>x i. x \<in> set (contents unwrap m s) \<Longrightarrow> i \<in> foot m x \<Longrightarrow> m_cells n i = m_cells m i"
      by (auto simp: slice_foot_def)
    have "val n x = val m x \<and> foot n x = foot m x" if "x \<in> set (contents unwrap m s)" for x
      by (rule elem) (use cells(2) [OF that] in blast)
    with contents_cong [OF cells(1), of unwrap]
    show "slice_val unwrap val n s = slice_val unwrap val m s \<and> slice_foot unwrap foot n s = slice_foot unwrap foot m s"
      by (auto simp: slice_val_def slice_foot_def)
  qed
qed

lemma copier_opt:
  assumes "copier copy val foot"
  shows "copier (copy_opt copy) (\<lambda>m. map_option (val m)) (opt_foot foot)"
proof
  fix p m q n assume "copy_opt copy p m = (q, n)"
  with copier.only_allocates [OF assms] show "extends_mem m n"
    by (auto simp: copy_opt_def split: option.splits prod.splits)
next
  fix p m q n assume "allocated m (opt_foot foot m p)" "copy_opt copy p m = (q, n)"
  with copier.same_value [OF assms] show "map_option (val n) q = map_option (val m) p"
    by (auto simp: copy_opt_def opt_foot_def split: option.splits prod.splits)
next
  fix p m q n assume al: "allocated m (opt_foot foot m p)" and c: "copy_opt copy p m = (q, n)"
  show "opt_foot foot n q \<subseteq> {m_next m..<m_next n}"
  proof (cases p)
    case (Some a)
    with c obtain b where "copy a m = (b, n)" "q = Some b" by (auto simp: copy_opt_def split: prod.splits)
    with copier.fresh [OF assms, of m a b n] al Some show ?thesis by (simp add: opt_foot_def)
  qed (use c in \<open>simp add: copy_opt_def opt_foot_def\<close>)
next
  fix p and m n :: "'b mem" assume *: "\<And>i. i \<in> opt_foot foot m p \<Longrightarrow> m_cells n i = m_cells m i"
  show "map_option (val n) p = map_option (val m) p \<and> opt_foot foot n p = opt_foot foot m p"
  proof (cases p)
    case (Some a)
    with * copier.local [OF assms, of m a n] show ?thesis by (simp add: opt_foot_def)
  qed (simp add: opt_foot_def)
qed

section \<open>Structures\<close>

text \<open>
  A struct whose shallow copy gets one or two fields replaced by deep copies; \<open>rest\<close> is what holds no
  pointer.
\<close>

lemma copier_struct:
  assumes c1: "copier c1 v1 f1" and c2: "copier c2 v2 f2"
    and copy: "\<And>a m. copy a m = (let (x, m1) = c1 (g1 a) m; (y, m2) = c2 (g2 a) m1 in (mk a x y, m2))"
    and sel: "\<And>a x y. g1 (mk a x y) = x" "\<And>a x y. g2 (mk a x y) = y" "\<And>a x y. rest (mk a x y) = rest a"
    and val: "\<And>m a. val m a = build (rest a) (v1 m (g1 a)) (v2 m (g2 a))"
    and foot: "\<And>m a. foot m a = f1 m (g1 a) \<union> f2 m (g2 a)"
  shows "copier copy val foot"
proof -
  have parts: "\<exists>x m1 y. c1 (g1 a) m = (x, m1) \<and> c2 (g2 a) m1 = (y, n) \<and> b = mk a x y"
    if "copy a m = (b, n)" for a m b n
    using that by (auto simp: copy split: prod.splits)
  note e1 = copier.only_allocates [OF c1] and e2 = copier.only_allocates [OF c2]
  show ?thesis
  proof
    fix a m b n assume "copy a m = (b, n)"
    from parts [OF this] show "extends_mem m n" by (blast intro: extends_trans dest: e1 e2)
  next
    fix a m b n assume al: "allocated m (foot m a)" and c: "copy a m = (b, n)"
    from parts [OF c] obtain x m1 y where p: "c1 (g1 a) m = (x, m1)" "c2 (g2 a) m1 = (y, n)" "b = mk a x y" by blast
    have al1: "allocated m (f1 m (g1 a))" and al2: "allocated m (f2 m (g2 a))" using al by (simp_all add: foot)
    note second = copier.kept [OF c2 al2 e1 [OF p(1)]]
    have al2': "allocated m1 (f2 m1 (g2 a))" using allocated_mono [OF al2 e1 [OF p(1)]] second by simp
    note f1 = copier.fresh [OF c1 al1 p(1)] and f2 = copier.fresh [OF c2 al2' p(2)]
    have "allocated m1 (f1 m1 x)" using f1 by (auto simp: allocated_def)
    note first = copier.kept [OF c1 this e2 [OF p(2)]]
    show "val n b = val m a"
      using first second copier.same_value [OF c1 al1 p(1)] copier.same_value [OF c2 al2' p(2)]
      by (simp add: val p(3) sel)
    have "m_next m \<le> m_next m1" "m_next m1 \<le> m_next n"
      using e1 [OF p(1)] e2 [OF p(2)] by (simp_all add: extends_mem_def)
    with f1 f2 first show "foot n b \<subseteq> {m_next m..<m_next n}"
      by (auto simp: foot p(3) sel subset_iff; fastforce)
  next
    fix a and m n :: "'b mem" assume *: "\<And>i. i \<in> foot m a \<Longrightarrow> m_cells n i = m_cells m i"
    have "v1 n (g1 a) = v1 m (g1 a) \<and> f1 n (g1 a) = f1 m (g1 a)"
      by (rule copier.local [OF c1]) (use * foot in blast)
    moreover have "v2 n (g2 a) = v2 m (g2 a) \<and> f2 n (g2 a) = f2 m (g2 a)"
      by (rule copier.local [OF c2]) (use * foot in blast)
    ultimately show "val n a = val m a \<and> foot n a = foot m a" by (simp add: val foot)
  qed
qed

end
