(* ===== verification/Deepcopy.thy ===== *)
theory Deepcopy
  imports Memory Policy_Types
begin

text \<open>
  \<open>api/v1alpha1/zz_deepcopy.go\<close> over an explicit store: the structs of the API as they lie in memory,
  with slices and pointers into it, and one definition per \<open>DeepCopyInto\<close> and \<open>DeepCopy\<close>. The deep
  copies of \<open>LabelSelector\<close>, \<open>ObjectMeta\<close> and \<open>ListMeta\<close> are code of apimachinery: parameters, of which
  the lemmas assume the contract \<open>copier\<close>. The type \<open>'x\<close> is what such code keeps in cells of its own.
\<close>

section \<open>The structs in memory\<close>

record go_rule =
  gr_Path :: string
  gr_Exact :: bool
  gr_Methods :: "slice option"
  gr_AllowUpgrade :: bool

record go_destination =
  gd_Host :: string
  gd_Ports :: "slice option"
  gd_TLSMode :: tls_mode
  gd_Paths :: "slice option"

record go_selector =
  gs_Namespace :: "slice option"
  gs_Pod :: "slice option"

record go_policy_spec =
  gps_Selector :: go_selector
  gps_Destinations :: "slice option"
  gps_UpstreamRef :: string

type_synonym type_meta = "string \<times> string"

record 'm go_policy =
  gp_TypeMeta :: type_meta
  gp_ObjectMeta :: 'm
  gp_Spec :: go_policy_spec

record go_upstream_spec =
  gus_URL :: string
  gus_Credentials :: "slice option"
  gus_NoProxy :: "slice option"

record 'm go_upstream =
  gu_TypeMeta :: type_meta
  gu_ObjectMeta :: 'm
  gu_Spec :: go_upstream_spec

record 'l go_list =
  gl_TypeMeta :: type_meta
  gl_ListMeta :: 'l
  gl_Items :: "slice option"

type_synonym 'l go_upstream_list = "'l go_list"

datatype ('x, 'm, 'l) cell =
    Strings "string list"
  | Ports "int list"
  | Rules "go_rule list"
  | Destinations "go_destination list"
  | SecretRefs "secret_ref list"
  | Policies "'m go_policy list"
  | Upstreams "'m go_upstream list"
  | Lists "'l go_list list"
  | Foreign 'x

fun strings_of :: "('x, 'm, 'l) cell \<Rightarrow> string list" where
  "strings_of (Strings xs) = xs" | "strings_of _ = []"

fun ports_of :: "('x, 'm, 'l) cell \<Rightarrow> int list" where
  "ports_of (Ports xs) = xs" | "ports_of _ = []"

fun rules_of :: "('x, 'm, 'l) cell \<Rightarrow> go_rule list" where
  "rules_of (Rules xs) = xs" | "rules_of _ = []"

fun destinations_of :: "('x, 'm, 'l) cell \<Rightarrow> go_destination list" where
  "destinations_of (Destinations xs) = xs" | "destinations_of _ = []"

fun refs_of :: "('x, 'm, 'l) cell \<Rightarrow> secret_ref list" where
  "refs_of (SecretRefs xs) = xs" | "refs_of _ = []"

fun policies_of :: "('x, 'm, 'l) cell \<Rightarrow> 'm go_policy list" where
  "policies_of (Policies xs) = xs" | "policies_of _ = []"

fun upstreams_of :: "('x, 'm, 'l) cell \<Rightarrow> 'm go_upstream list" where
  "upstreams_of (Upstreams xs) = xs" | "upstreams_of _ = []"

fun lists_of :: "('x, 'm, 'l) cell \<Rightarrow> 'l go_list list" where
  "lists_of (Lists xs) = xs" | "lists_of _ = []"

type_synonym ('x, 'm, 'l, 'a) copies =
  "'a \<Rightarrow> ('x, 'm, 'l) cell mem \<Rightarrow> 'a \<times> ('x, 'm, 'l) cell mem"

section \<open>DeepCopyInto\<close>

definition PathRule_DeepCopyInto :: "('x, 'm, 'l, go_rule) copies" where
  "PathRule_DeepCopyInto inp m =
     (let (methods, m1) = copy_opt (copy_slice Strings strings_of copy_flat) (gr_Methods inp) m in
      (inp\<lparr>gr_Methods := methods\<rparr>, m1))"

definition Destination_DeepCopyInto :: "('x, 'm, 'l, go_destination) copies" where
  "Destination_DeepCopyInto inp m =
     (let (ports, m1) = copy_opt (copy_slice Ports ports_of copy_flat) (gd_Ports inp) m;
          (paths, m2) = copy_opt (copy_slice Rules rules_of PathRule_DeepCopyInto) (gd_Paths inp) m1 in
      (inp\<lparr>gd_Ports := ports, gd_Paths := paths\<rparr>, m2))"

definition WorkloadSelector_DeepCopyInto ::
    "('x, 'm, 'l, slice) copies \<Rightarrow> ('x, 'm, 'l, go_selector) copies" where
  "WorkloadSelector_DeepCopyInto selector_copy inp m =
     (let (ns, m1) = copy_opt selector_copy (gs_Namespace inp) m;
          (pod, m2) = copy_opt selector_copy (gs_Pod inp) m1 in
      (inp\<lparr>gs_Namespace := ns, gs_Pod := pod\<rparr>, m2))"

definition EgressPolicySpec_DeepCopyInto ::
    "('x, 'm, 'l, slice) copies \<Rightarrow> ('x, 'm, 'l, go_policy_spec) copies" where
  "EgressPolicySpec_DeepCopyInto selector_copy inp m =
     (let (sel, m1) = WorkloadSelector_DeepCopyInto selector_copy (gps_Selector inp) m;
          (dsts, m2) = copy_opt (copy_slice Destinations destinations_of Destination_DeepCopyInto)
                         (gps_Destinations inp) m1 in
      (inp\<lparr>gps_Selector := sel, gps_Destinations := dsts\<rparr>, m2))"

definition EgressPolicy_DeepCopyInto ::
    "('x, 'm, 'l, slice) copies \<Rightarrow> ('x, 'm, 'l, 'm) copies \<Rightarrow> ('x, 'm, 'l, 'm go_policy) copies" where
  "EgressPolicy_DeepCopyInto selector_copy meta_copy inp m =
     (let (meta, m1) = meta_copy (gp_ObjectMeta inp) m;
          (spec, m2) = EgressPolicySpec_DeepCopyInto selector_copy (gp_Spec inp) m1 in
      (inp\<lparr>gp_ObjectMeta := meta, gp_Spec := spec\<rparr>, m2))"

definition EgressPolicyList_DeepCopyInto ::
    "('x, 'm, 'l, slice) copies \<Rightarrow> ('x, 'm, 'l, 'm) copies \<Rightarrow> ('x, 'm, 'l, 'l) copies \<Rightarrow>
     ('x, 'm, 'l, 'l go_list) copies" where
  "EgressPolicyList_DeepCopyInto selector_copy meta_copy list_meta_copy inp m =
     (let (meta, m1) = list_meta_copy (gl_ListMeta inp) m;
          (items, m2) = copy_opt (copy_slice Policies policies_of (EgressPolicy_DeepCopyInto selector_copy meta_copy))
                          (gl_Items inp) m1 in
      (inp\<lparr>gl_ListMeta := meta, gl_Items := items\<rparr>, m2))"

text \<open>The struct of a reference holds strings only.\<close>

definition SecretRef_DeepCopyInto :: "('x, 'm, 'l, secret_ref) copies" where
  "SecretRef_DeepCopyInto inp m = (inp, m)"

definition UpstreamProxySpec_DeepCopyInto :: "('x, 'm, 'l, go_upstream_spec) copies" where
  "UpstreamProxySpec_DeepCopyInto inp m =
     (let (cred, m1) = copy_opt (copy_slice SecretRefs refs_of SecretRef_DeepCopyInto) (gus_Credentials inp) m;
          (noProxy, m2) = copy_opt (copy_slice Strings strings_of copy_flat) (gus_NoProxy inp) m1 in
      (inp\<lparr>gus_Credentials := cred, gus_NoProxy := noProxy\<rparr>, m2))"

definition UpstreamProxy_DeepCopyInto ::
    "('x, 'm, 'l, 'm) copies \<Rightarrow> ('x, 'm, 'l, 'm go_upstream) copies" where
  "UpstreamProxy_DeepCopyInto meta_copy inp m =
     (let (meta, m1) = meta_copy (gu_ObjectMeta inp) m;
          (spec, m2) = UpstreamProxySpec_DeepCopyInto (gu_Spec inp) m1 in
      (inp\<lparr>gu_ObjectMeta := meta, gu_Spec := spec\<rparr>, m2))"

definition UpstreamProxyList_DeepCopyInto ::
    "('x, 'm, 'l, 'm) copies \<Rightarrow> ('x, 'm, 'l, 'l) copies \<Rightarrow> ('x, 'm, 'l, 'l go_upstream_list) copies" where
  "UpstreamProxyList_DeepCopyInto meta_copy list_meta_copy inp m =
     (let (meta, m1) = list_meta_copy (gl_ListMeta inp) m;
          (items, m2) = copy_opt (copy_slice Upstreams upstreams_of (UpstreamProxy_DeepCopyInto meta_copy))
                          (gl_Items inp) m1 in
      (inp\<lparr>gl_ListMeta := meta, gl_Items := items\<rparr>, m2))"

section \<open>DeepCopy\<close>

text \<open>
  A nil receiver gives nil; otherwise a new struct is allocated and filled. \<open>DeepCopyObject\<close> returns
  the pointer as an interface, and the nil interface for a nil pointer.
\<close>

definition EgressPolicy_DeepCopy ::
    "('x, 'm, 'l, slice) copies \<Rightarrow> ('x, 'm, 'l, 'm) copies \<Rightarrow> ('x, 'm, 'l, slice option) copies" where
  "EgressPolicy_DeepCopy selector_copy meta_copy inp m =
     copy_opt (copy_slice Policies policies_of (EgressPolicy_DeepCopyInto selector_copy meta_copy)) inp m"

definition EgressPolicyList_DeepCopy ::
    "('x, 'm, 'l, slice) copies \<Rightarrow> ('x, 'm, 'l, 'm) copies \<Rightarrow> ('x, 'm, 'l, 'l) copies \<Rightarrow>
     ('x, 'm, 'l, slice option) copies" where
  "EgressPolicyList_DeepCopy selector_copy meta_copy list_meta_copy inp m =
     copy_opt (copy_slice Lists lists_of
       (EgressPolicyList_DeepCopyInto selector_copy meta_copy list_meta_copy)) inp m"

definition UpstreamProxy_DeepCopy ::
    "('x, 'm, 'l, 'm) copies \<Rightarrow> ('x, 'm, 'l, slice option) copies" where
  "UpstreamProxy_DeepCopy meta_copy inp m =
     copy_opt (copy_slice Upstreams upstreams_of (UpstreamProxy_DeepCopyInto meta_copy)) inp m"

definition UpstreamProxyList_DeepCopy ::
    "('x, 'm, 'l, 'm) copies \<Rightarrow> ('x, 'm, 'l, 'l) copies \<Rightarrow> ('x, 'm, 'l, slice option) copies" where
  "UpstreamProxyList_DeepCopy meta_copy list_meta_copy inp m =
     copy_opt (copy_slice Lists lists_of (UpstreamProxyList_DeepCopyInto meta_copy list_meta_copy)) inp m"

datatype 'p interface = NilInterface | Boxed 'p

definition DeepCopyObject :: "('x, 'm, 'l, slice option) copies \<Rightarrow> slice option \<Rightarrow>
    ('x, 'm, 'l) cell mem \<Rightarrow> slice interface \<times> ('x, 'm, 'l) cell mem" where
  "DeepCopyObject deep inp m =
     (case deep inp m of (None, n) \<Rightarrow> (NilInterface, n) | (Some c, n) \<Rightarrow> (Boxed c, n))"

definition EgressPolicy_DeepCopyObject where
  "EgressPolicy_DeepCopyObject sc mc = DeepCopyObject (EgressPolicy_DeepCopy sc mc)"

definition EgressPolicyList_DeepCopyObject where
  "EgressPolicyList_DeepCopyObject sc mc lc = DeepCopyObject (EgressPolicyList_DeepCopy sc mc lc)"

definition UpstreamProxy_DeepCopyObject where
  "UpstreamProxy_DeepCopyObject mc = DeepCopyObject (UpstreamProxy_DeepCopy mc)"

definition UpstreamProxyList_DeepCopyObject where
  "UpstreamProxyList_DeepCopyObject mc lc = DeepCopyObject (UpstreamProxyList_DeepCopy mc lc)"

section \<open>What a struct stands for, and the cells it reaches\<close>

definition flat_slice_val :: "('c \<Rightarrow> 'a list) \<Rightarrow> 'c mem \<Rightarrow> slice option \<Rightarrow> 'a list option" where
  "flat_slice_val unwrap m = map_option (slice_val unwrap (\<lambda>m a. a) m)"

definition flat_slice_foot :: "('c \<Rightarrow> 'a list) \<Rightarrow> 'c mem \<Rightarrow> slice option \<Rightarrow> nat set" where
  "flat_slice_foot unwrap = opt_foot (slice_foot unwrap (\<lambda>m a. {}))"

definition rule_val where
  "rule_val m r = (gr_Path r, gr_Exact r, gr_AllowUpgrade r, flat_slice_val strings_of m (gr_Methods r))"

definition rule_foot where
  "rule_foot m r = flat_slice_foot strings_of m (gr_Methods r)"

definition destination_val where
  "destination_val m d = (gd_Host d, gd_TLSMode d, flat_slice_val ports_of m (gd_Ports d),
     map_option (slice_val rules_of rule_val m) (gd_Paths d))"

definition destination_foot where
  "destination_foot m d = flat_slice_foot ports_of m (gd_Ports d) \<union> opt_foot (slice_foot rules_of rule_foot) m (gd_Paths d)"

definition selector_val where
  "selector_val sv m s = (map_option (sv m) (gs_Namespace s), map_option (sv m) (gs_Pod s))"

definition selector_foot where
  "selector_foot sf m s = opt_foot sf m (gs_Namespace s) \<union> opt_foot sf m (gs_Pod s)"

definition policy_spec_val where
  "policy_spec_val sv m p = (gps_UpstreamRef p, selector_val sv m (gps_Selector p),
     map_option (slice_val destinations_of destination_val m) (gps_Destinations p))"

definition policy_spec_foot where
  "policy_spec_foot sf m p = selector_foot sf m (gps_Selector p) \<union>
     opt_foot (slice_foot destinations_of destination_foot) m (gps_Destinations p)"

definition policy_val where
  "policy_val sv mv m p = (gp_TypeMeta p, mv m (gp_ObjectMeta p), policy_spec_val sv m (gp_Spec p))"

definition policy_foot where
  "policy_foot sf mf m p = mf m (gp_ObjectMeta p) \<union> policy_spec_foot sf m (gp_Spec p)"

definition list_val where
  "list_val unwrap lv iv m l = (gl_TypeMeta l, lv m (gl_ListMeta l), map_option (slice_val unwrap iv m) (gl_Items l))"

definition list_foot where
  "list_foot unwrap lf itf m l = lf m (gl_ListMeta l) \<union> opt_foot (slice_foot unwrap itf) m (gl_Items l)"

definition upstream_spec_val where
  "upstream_spec_val m u = (gus_URL u, flat_slice_val refs_of m (gus_Credentials u), flat_slice_val strings_of m (gus_NoProxy u))"

definition upstream_spec_foot where
  "upstream_spec_foot m u = flat_slice_foot refs_of m (gus_Credentials u) \<union> flat_slice_foot strings_of m (gus_NoProxy u)"

definition upstream_val where
  "upstream_val mv m u = (gu_TypeMeta u, mv m (gu_ObjectMeta u), upstream_spec_val m (gu_Spec u))"

definition upstream_foot where
  "upstream_foot mf m u = mf m (gu_ObjectMeta u) \<union> upstream_spec_foot m (gu_Spec u)"

section \<open>Every copy of the file is a deep copy\<close>

lemma flat_slice_copier:
  "(\<And>xs. unwrap (wrap xs) = xs) \<Longrightarrow>
     copier (copy_opt (copy_slice wrap unwrap copy_flat)) (flat_slice_val unwrap) (flat_slice_foot unwrap)"
  unfolding flat_slice_val_def [abs_def] flat_slice_foot_def
  by (intro copier_opt copier_slice flat.copier_axioms)

lemma item_slice_copier:
  "copier copy val foot \<Longrightarrow> (\<And>xs. unwrap (wrap xs) = xs) \<Longrightarrow>
     copier (copy_opt (copy_slice wrap unwrap copy)) (\<lambda>m. map_option (slice_val unwrap val m)) (opt_foot (slice_foot unwrap foot))"
  by (intro copier_opt copier_slice)

lemma SecretRef_is_flat: "SecretRef_DeepCopyInto = copy_flat"
  by (simp add: fun_eq_iff SecretRef_DeepCopyInto_def copy_flat_def)

interpretation rules: copier PathRule_DeepCopyInto rule_val rule_foot
  by (rule copier_struct [OF flat_slice_copier [of strings_of Strings] flat.copier_axioms,
        where ?g1.0 = gr_Methods and ?g2.0 = "\<lambda>_. ()" and mk = "\<lambda>a x _. a\<lparr>gr_Methods := x\<rparr>"
          and rest = "\<lambda>r. (gr_Path r, gr_Exact r, gr_AllowUpgrade r)"
          and build = "\<lambda>(p, e, u) x _. (p, e, u, x)"])
    (simp_all add: PathRule_DeepCopyInto_def rule_val_def rule_foot_def copy_flat_def)

interpretation destinations: copier Destination_DeepCopyInto destination_val destination_foot
  by (rule copier_struct [OF flat_slice_copier [of ports_of Ports] item_slice_copier [OF rules.copier_axioms, of rules_of Rules],
        where ?g1.0 = gd_Ports and ?g2.0 = gd_Paths and mk = "\<lambda>a x y. a\<lparr>gd_Ports := x, gd_Paths := y\<rparr>"
          and rest = "\<lambda>d. (gd_Host d, gd_TLSMode d)" and build = "\<lambda>(h, t) x y. (h, t, x, y)"])
    (simp_all add: Destination_DeepCopyInto_def destination_val_def destination_foot_def)

interpretation upstream_specs: copier UpstreamProxySpec_DeepCopyInto upstream_spec_val upstream_spec_foot
  by (rule copier_struct [OF flat_slice_copier [of refs_of SecretRefs] flat_slice_copier [of strings_of Strings],
        where ?g1.0 = gus_Credentials and ?g2.0 = gus_NoProxy and mk = "\<lambda>a x y. a\<lparr>gus_Credentials := x, gus_NoProxy := y\<rparr>"
          and rest = gus_URL and build = "\<lambda>u x y. (u, x, y)"])
    (simp_all add: UpstreamProxySpec_DeepCopyInto_def upstream_spec_val_def upstream_spec_foot_def SecretRef_is_flat)

lemma selector_copier:
  assumes "copier sc sv sf" shows "copier (WorkloadSelector_DeepCopyInto sc) (selector_val sv) (selector_foot sf)"
  by (rule copier_struct [OF copier_opt [OF assms] copier_opt [OF assms],
        where ?g1.0 = gs_Namespace and ?g2.0 = gs_Pod and mk = "\<lambda>a x y. a\<lparr>gs_Namespace := x, gs_Pod := y\<rparr>"
          and rest = "\<lambda>_. ()" and build = "\<lambda>_ x y. (x, y)"])
    (simp_all add: WorkloadSelector_DeepCopyInto_def selector_val_def selector_foot_def)

lemma policy_spec_copier:
  assumes "copier sc sv sf" shows "copier (EgressPolicySpec_DeepCopyInto sc) (policy_spec_val sv) (policy_spec_foot sf)"
  by (rule copier_struct [OF selector_copier [OF assms]
          item_slice_copier [OF destinations.copier_axioms, of destinations_of Destinations],
        where ?g1.0 = gps_Selector and ?g2.0 = gps_Destinations
          and mk = "\<lambda>a x y. a\<lparr>gps_Selector := x, gps_Destinations := y\<rparr>"
          and rest = gps_UpstreamRef and build = "\<lambda>u x y. (u, x, y)"])
    (simp_all add: EgressPolicySpec_DeepCopyInto_def policy_spec_val_def policy_spec_foot_def)

lemma policy_copier:
  assumes "copier sc sv sf" "copier mc mv mf"
  shows "copier (EgressPolicy_DeepCopyInto sc mc) (policy_val sv mv) (policy_foot sf mf)"
  by (rule copier_struct [OF assms(2) policy_spec_copier [OF assms(1)],
        where ?g1.0 = gp_ObjectMeta and ?g2.0 = gp_Spec and mk = "\<lambda>a x y. a\<lparr>gp_ObjectMeta := x, gp_Spec := y\<rparr>"
          and rest = gp_TypeMeta and build = "\<lambda>u x y. (u, x, y)"])
    (simp_all add: EgressPolicy_DeepCopyInto_def policy_val_def policy_foot_def)

lemma upstream_copier:
  assumes "copier mc mv mf"
  shows "copier (UpstreamProxy_DeepCopyInto mc) (upstream_val mv) (upstream_foot mf)"
  by (rule copier_struct [OF assms upstream_specs.copier_axioms,
        where ?g1.0 = gu_ObjectMeta and ?g2.0 = gu_Spec and mk = "\<lambda>a x y. a\<lparr>gu_ObjectMeta := x, gu_Spec := y\<rparr>"
          and rest = gu_TypeMeta and build = "\<lambda>u x y. (u, x, y)"])
    (simp_all add: UpstreamProxy_DeepCopyInto_def upstream_val_def upstream_foot_def)

lemma policy_list_copier:
  assumes "copier sc sv sf" "copier mc mv mf" "copier lc lv lf"
  shows "copier (EgressPolicyList_DeepCopyInto sc mc lc) (list_val policies_of lv (policy_val sv mv))
    (list_foot policies_of lf (policy_foot sf mf))"
  by (rule copier_struct [OF assms(3) item_slice_copier [OF policy_copier [OF assms(1,2)], of policies_of Policies],
        where ?g1.0 = gl_ListMeta and ?g2.0 = gl_Items and mk = "\<lambda>a x y. a\<lparr>gl_ListMeta := x, gl_Items := y\<rparr>"
          and rest = gl_TypeMeta and build = "\<lambda>u x y. (u, x, y)"])
    (simp_all add: EgressPolicyList_DeepCopyInto_def list_val_def list_foot_def)

lemma upstream_list_copier:
  assumes "copier mc mv mf" "copier lc lv lf"
  shows "copier (UpstreamProxyList_DeepCopyInto mc lc) (list_val upstreams_of lv (upstream_val mv))
    (list_foot upstreams_of lf (upstream_foot mf))"
  by (rule copier_struct [OF assms(2) item_slice_copier [OF upstream_copier [OF assms(1)], of upstreams_of Upstreams],
        where ?g1.0 = gl_ListMeta and ?g2.0 = gl_Items and mk = "\<lambda>a x y. a\<lparr>gl_ListMeta := x, gl_Items := y\<rparr>"
          and rest = gl_TypeMeta and build = "\<lambda>u x y. (u, x, y)"])
    (simp_all add: UpstreamProxyList_DeepCopyInto_def list_val_def list_foot_def)

text \<open>The copies through pointers, for the lists of both kinds as for their items.\<close>

lemma EgressPolicy_copier:
  assumes "copier sc sv sf" "copier mc mv mf"
  shows "copier (EgressPolicy_DeepCopy sc mc) (\<lambda>m. map_option (slice_val policies_of (policy_val sv mv) m))
    (opt_foot (slice_foot policies_of (policy_foot sf mf)))"
  unfolding EgressPolicy_DeepCopy_def [abs_def]
  by (rule item_slice_copier [OF policy_copier [OF assms]]) simp

lemma EgressPolicyList_copier:
  assumes "copier sc sv sf" "copier mc mv mf" "copier lc lv lf"
  shows "copier (EgressPolicyList_DeepCopy sc mc lc)
    (\<lambda>m. map_option (slice_val lists_of (list_val policies_of lv (policy_val sv mv)) m))
    (opt_foot (slice_foot lists_of (list_foot policies_of lf (policy_foot sf mf))))"
  unfolding EgressPolicyList_DeepCopy_def [abs_def]
  by (rule item_slice_copier [OF policy_list_copier [OF assms]]) simp

lemma UpstreamProxy_copier:
  assumes "copier mc mv mf"
  shows "copier (UpstreamProxy_DeepCopy mc) (\<lambda>m. map_option (slice_val upstreams_of (upstream_val mv) m))
    (opt_foot (slice_foot upstreams_of (upstream_foot mf)))"
  unfolding UpstreamProxy_DeepCopy_def [abs_def]
  by (rule item_slice_copier [OF upstream_copier [OF assms]]) simp

lemma UpstreamProxyList_copier:
  assumes "copier mc mv mf" "copier lc lv lf"
  shows "copier (UpstreamProxyList_DeepCopy mc lc)
    (\<lambda>m. map_option (slice_val lists_of (list_val upstreams_of lv (upstream_val mv)) m))
    (opt_foot (slice_foot lists_of (list_foot upstreams_of lf (upstream_foot mf))))"
  unfolding UpstreamProxyList_DeepCopy_def [abs_def]
  by (rule item_slice_copier [OF upstream_list_copier [OF assms]]) simp

text \<open>The interface is nil exactly for a nil pointer, never a boxed nil.\<close>

lemma DeepCopyObject_nil:
  "fst (DeepCopyObject (copy_opt copy) inp m) = NilInterface \<longleftrightarrow> inp = None"
  by (cases inp) (auto simp: DeepCopyObject_def copy_opt_def split: prod.splits)

lemma objects_nil:
  "fst (EgressPolicy_DeepCopyObject sc mc inp m) = NilInterface \<longleftrightarrow> inp = None"
  "fst (EgressPolicyList_DeepCopyObject sc mc lc inp m) = NilInterface \<longleftrightarrow> inp = None"
  "fst (UpstreamProxy_DeepCopyObject mc inp m) = NilInterface \<longleftrightarrow> inp = None"
  "fst (UpstreamProxyList_DeepCopyObject mc lc inp m) = NilInterface \<longleftrightarrow> inp = None"
  unfolding EgressPolicy_DeepCopyObject_def EgressPolicyList_DeepCopyObject_def UpstreamProxy_DeepCopyObject_def
    UpstreamProxyList_DeepCopyObject_def EgressPolicy_DeepCopy_def [abs_def] EgressPolicyList_DeepCopy_def [abs_def]
    UpstreamProxy_DeepCopy_def [abs_def] UpstreamProxyList_DeepCopy_def [abs_def]
  by (rule DeepCopyObject_nil)+

end
