(* ===== verification/Platform_Properties.thy ===== *)
theory Platform_Properties
  imports Examples Metrics Logging Flags Deepcopy
begin

text \<open>
  The properties of what the relay shares with its platform: the command line it is started with,
  the objects it takes from the API cache, the series it exports and the stream of its audit lines.
\<close>

section \<open>The command line\<close>

text \<open>Every option of a configuration that a flag can set, in the order \<open>BindFlags\<close> declares them.\<close>

definition flags_of :: "config \<Rightarrow> (string \<times> flag_value) list" where
  "flags_of c =
     [(''listen'', StringFlag (ListenAddr c)), (''admin-listen'', StringFlag (AdminAddr c)),
      (''namespace'', StringFlag (Namespace c)), (''ca-secret'', StringFlag (CASecretName c)),
      (''ca-configmap'', StringFlag (CAConfigMapName c)), (''origin-ca-file'', StringFlag (OriginCAFile c)),
      (''auto-init-ca'', BoolFlag (AutoInitCA c)),
      (''deny-cidr'', StringFlag (stringList_String (ExtraDeniedCIDRs c))),
      (''no-default-deny-cidrs'', BoolFlag (DisableDefaultDeniedCIDRs c)),
      (''handshake-timeout'', DurationFlag (HandshakeTimeout c)), (''idle-timeout'', DurationFlag (IdleTimeout c)),
      (''shutdown-grace'', DurationFlag (ShutdownGrace c)), (''upstream-timeout'', DurationFlag (UpstreamTimeout c)),
      (''leaf-validity'', DurationFlag (LeafValidity c)), (''ca-sync-interval'', DurationFlag (CASyncInterval c)),
      (''log-level'', StringFlag (LogLevel c)), (''log-format'', StringFlag (LogFormat c)),
      (''kubeconfig'', StringFlag (Kubeconfig c))]"

text \<open>What a command line can say: durations of 64 bits, ranges without commas or outer spaces.\<close>

definition sayable :: "config \<Rightarrow> bool" where
  "sayable c \<longleftrightarrow>
     (\<forall>d\<in>{HandshakeTimeout c, IdleTimeout c, ShutdownGrace c, UpstreamTimeout c, LeafValidity c, CASyncInterval c}.
        - (2 ^ 63) \<le> d \<and> d < 2 ^ 63) \<and>
     (\<forall>x\<in>set (ExtraDeniedCIDRs c). x \<noteq> [] \<and> CHR '','' \<notin> set x \<and> TrimSpace x = x) \<and>
     IdentityNegTTL c = seconds 2"

lemma flags_of_well_formed: "sayable c \<Longrightarrow> list_all well_formed_flag (flags_of c)"
  by (simp add: flags_of_def sayable_def string_flags_def bool_flags_def duration_flags_def)

lemma flags_of_apply: "sayable c \<Longrightarrow> apply_flags (flags_of c) (Default getenv) = Some c"
  by (cases c) (simp add: flags_of_def sayable_def apply_flag_def Default_def stringList_roundtrip)

lemma flags_of_parsed:
  "sayable c \<Longrightarrow> parseFlags (BindFlags frac) (map render_flag (flags_of c)) (Default getenv) = Parsed c"
  using Parse_render [OF flags_of_well_formed, of c "Default getenv" frac] flags_of_apply [of c getenv]
  by (auto simp: parseFlags_def)

text \<open>
  C34. Everything but the life time of negative identity entries can be said on the command line:
  written out as flags, with \<open>serve\<close> in front or without a command, a configuration is what the
  relay then serves with, whatever the environment and the defaults are.
\<close>

theorem command_line_round_trip:
  assumes "sayable c"
  shows "main_launch frac getenv (''serve'' # map render_flag (flags_of c)) = RunServe c \<and>
    main_launch frac getenv (map render_flag (flags_of c)) = RunServe c"
proof -
  have "run (''serve'' # map render_flag (flags_of c)) = Serve (map render_flag (flags_of c))"
    "run (map render_flag (flags_of c)) = Serve (map render_flag (flags_of c))"
    by (simp_all add: run_def isFlag_def flags_of_def render_flag_def)
  with flags_of_parsed [OF assms] show ?thesis by (simp add: main_launch_def)
qed

definition ex_said :: config where
  "ex_said = (Default (\<lambda>_. []))\<lparr>ExtraDeniedCIDRs := [''10.1.0.0/16'', ''fd00::/8''], LogLevel := ''warn'',
     LeafValidity := seconds 7200\<rparr>"

theorem command_line_round_trip_witness:
  "main_launch (\<lambda>_ _ _. 0) (\<lambda>_. ''env'') (''serve'' # map render_flag (flags_of ex_said)) = RunServe ex_said"
proof -
  have "sayable ex_said"
    by (simp add: sayable_def ex_said_def Default_def seconds_def TrimSpace_def trim_with_def is_space_def)
  from command_line_round_trip [OF this] show ?thesis by blast
qed

text \<open>
  A value after a boolean flag is not its value but the first argument, and ends the options without
  a word: the range that the operator denies here is not denied, and a CA is created although the
  line says not to.
\<close>

theorem flags_after_an_argument_are_dropped:
  "main_launch frac getenv [''serve'', ''--auto-init-ca'', ''false'', ''--deny-cidr=10.1.0.0/16''] =
     RunServe ((Default getenv)\<lparr>AutoInitCA := True\<rparr>)"
proof -
  have "parseOne (BindFlags frac) [''--auto-init-ca'', ''false'', ''--deny-cidr=10.1.0.0/16''] (Default getenv) =
      FlagSeen [''false'', ''--deny-cidr=10.1.0.0/16''] ((Default getenv)\<lparr>AutoInitCA := True\<rparr>)"
    by (simp add: parseOne_def cut_before_def set_flag_def BindFlags_def bool_flags_def ParseBool_def apply_flag_def Let_def)
  then have "Parse (BindFlags frac) [''--auto-init-ca'', ''false'', ''--deny-cidr=10.1.0.0/16''] (Default getenv) =
      Inr ((Default getenv)\<lparr>AutoInitCA := True\<rparr>, [''false'', ''--deny-cidr=10.1.0.0/16''])"
    by (subst Parse.simps) (simp add: Parse_argument)
  then show ?thesis by (simp add: main_launch_def run_def isFlag_def parseFlags_def)
qed

section \<open>Objects of the API cache\<close>

abbreviation policies_value where
  "policies_value sv mv lv m \<equiv> map_option (slice_val lists_of (list_val policies_of lv (policy_val sv mv)) m)"

abbreviation policies_cells where
  "policies_cells sf mf lf \<equiv> opt_foot (slice_foot lists_of (list_foot policies_of lf (policy_foot sf mf)))"

text \<open>
  C17. A deep copy of a policy list stands for the same policies, leaves the original as it was and
  shares no cell with it: nothing that is written through either of them, however deep, shows
  through the other; and the copy of nil is nil. The hypotheses are the same contract for the
  copies of label selectors and metadata, which the Kubernetes library makes.
\<close>

theorem deep_copies_share_nothing:
  assumes "copier sc sv sf" "copier mc mv mf" "copier lc lv lf"
    and "allocated m (policies_cells sf mf lf m inp)" "EgressPolicyList_DeepCopy sc mc lc inp m = (out, n)"
  shows "policies_value sv mv lv n out = policies_value sv mv lv m inp \<and>
    policies_value sv mv lv n inp = policies_value sv mv lv m inp \<and>
    policies_cells sf mf lf n out \<inter> policies_cells sf mf lf n inp = {} \<and>
    (\<forall>w. (\<forall>i. i \<notin> policies_cells sf mf lf n out \<longrightarrow> m_cells w i = m_cells n i) \<longrightarrow>
       policies_value sv mv lv w inp = policies_value sv mv lv m inp) \<and>
    (\<forall>w. (\<forall>i. i \<notin> policies_cells sf mf lf n inp \<longrightarrow> m_cells w i = m_cells n i) \<longrightarrow>
       policies_value sv mv lv w out = policies_value sv mv lv m inp) \<and>
    (out = None \<longleftrightarrow> inp = None)"
proof -
  note c = EgressPolicyList_copier [OF assms(1-3)]
  have "out = None \<longleftrightarrow> inp = None"
    using assms(5) by (auto simp: EgressPolicyList_DeepCopy_def copy_opt_def split: option.splits prod.splits)
  with copier.same_value [OF c assms(4,5)] copier.kept [OF c assms(4) copier.only_allocates [OF c assms(5)]]
    copier.separate [OF c assms(4,5)] show ?thesis by blast
qed

text \<open>A list of one policy that grants a method on a path of a port, with a selector of its own cell.\<close>

fun ex_words :: "(string list, unit, unit) cell \<Rightarrow> string list" where
  "ex_words (Foreign ws) = ws" | "ex_words _ = []"

definition ex_selector_copy :: "(string list, unit, unit, slice) copies" where
  "ex_selector_copy = copy_slice Foreign ex_words copy_flat"

definition ex_pointer :: "nat \<Rightarrow> slice" where
  "ex_pointer a = \<lparr>sl_array = a, sl_off = 0, sl_len = 1\<rparr>"

definition ex_memory :: "(string list, unit, unit) cell mem" where
  "ex_memory = \<lparr>m_cells =
     [0 \<mapsto> Lists [\<lparr>gl_TypeMeta = (''v1'', ''EgressPolicyList''), gl_ListMeta = (), gl_Items = Some (ex_pointer 1)\<rparr>],
      1 \<mapsto> Policies [\<lparr>gp_TypeMeta = (''v1'', ''EgressPolicy''), gp_ObjectMeta = (),
             gp_Spec = \<lparr>gps_Selector = \<lparr>gs_Namespace = None, gs_Pod = Some (ex_pointer 6)\<rparr>,
                        gps_Destinations = Some (ex_pointer 2), gps_UpstreamRef = ''corp''\<rparr>\<rparr>],
      2 \<mapsto> Destinations [\<lparr>gd_Host = ''a.io'', gd_Ports = Some (ex_pointer 3), gd_TLSMode = TLSModeInspect,
             gd_Paths = Some (ex_pointer 4)\<rparr>],
      3 \<mapsto> Ports [443],
      4 \<mapsto> Rules [\<lparr>gr_Path = ''/r'', gr_Exact = False, gr_Methods = Some (ex_pointer 5), gr_AllowUpgrade = False\<rparr>],
      5 \<mapsto> Strings [''GET''],
      6 \<mapsto> Foreign [''app=shop'']], m_next = 7\<rparr>"

lemma ex_selector_copier:
  "copier ex_selector_copy (slice_val ex_words (\<lambda>m a. a)) (slice_foot ex_words (\<lambda>m a. {}))"
  unfolding ex_selector_copy_def by (rule copier_slice [OF flat.copier_axioms]) simp

theorem deep_copies_share_nothing_witness:
  "\<exists>out n. EgressPolicyList_DeepCopy ex_selector_copy copy_flat copy_flat (Some (ex_pointer 0)) ex_memory = (Some out, n) \<and>
     policies_value (slice_val ex_words (\<lambda>m a. a)) (\<lambda>m a. a) (\<lambda>m a. a) n (Some out) =
       policies_value (slice_val ex_words (\<lambda>m a. a)) (\<lambda>m a. a) (\<lambda>m a. a) ex_memory (Some (ex_pointer 0))"
proof -
  obtain out n where r: "EgressPolicyList_DeepCopy ex_selector_copy copy_flat copy_flat (Some (ex_pointer 0)) ex_memory = (out, n)"
    by fastforce
  have "allocated ex_memory (policies_cells (slice_foot ex_words (\<lambda>m a. {})) (\<lambda>m a. {}) (\<lambda>m a. {}) ex_memory
      (Some (ex_pointer 0)))"
    by (simp add: ex_memory_def ex_pointer_def opt_foot_def slice_foot_def contents_def array_at_def list_foot_def
        policy_foot_def policy_spec_foot_def selector_foot_def destination_foot_def rule_foot_def flat_slice_foot_def)
  from deep_copies_share_nothing [OF ex_selector_copier flat.copier_axioms flat.copier_axioms this r] r
  show ?thesis by (cases out) auto
qed

section \<open>Metrics\<close>


section \<open>The audit stream\<close>


end
