(* ===== verification/Deployment.thy ===== *)
theory Deployment
  imports Startup Inspected
begin

text \<open>
  The relay as \<open>serve\<close> puts it together: the server with the guard, the dialler with the credential
  source and the origin configuration it is given, and what every connection of it contacts and
  authenticates with.
\<close>

section \<open>The server of a started service\<close>

text \<open>
  \<open>upstream.NewDialer\<close> and \<open>proxy.Options\<close> as \<open>serve\<close> fills them; \<open>url_parse\<close> is \<open>net/url\<close> and
  \<open>reader\<close> the cache of Secrets.
\<close>

definition NewDialer ::
    "(secret_ref option \<Rightarrow> (cred_error, string \<times> string) result) option \<Rightarrow> (string \<Rightarrow> (string, purl) result) \<Rightarrow> dialer" where
  "NewDialer creds url_parse = \<lparr>d_creds = creds, d_url_parse = url_parse\<rparr>"

definition served ::
    "('pool, 'ls) service \<Rightarrow> config \<Rightarrow> secret_reader \<Rightarrow> (string \<Rightarrow> (string, purl) result) \<Rightarrow> server" where
  "served sr cfg reader url_parse =
     \<lparr>sv_Guard = Some (sr_guard sr), sv_Dialer = NewDialer (Some (Credentials reader (Namespace cfg))) url_parse,
      sv_HasIssuer = True,
      sv_OriginTLS = (case sr_origin sr of
          None \<Rightarrow> None
        | Some (_, v) \<Rightarrow> Some \<lparr>oc_ServerName = [], oc_NextProtos = [], oc_MinVersion = v, oc_InsecureSkipVerify = False\<rparr>)\<rparr>"

section \<open>Every network action is part of a dial\<close>

definition part_of :: "('e, 'a) result \<times> net_event list \<Rightarrow> ('a \<Rightarrow> conn) \<Rightarrow> net_event \<Rightarrow> bool" where
  "part_of res conn_of e \<longleftrightarrow> e \<in> set (snd res) \<or> (\<exists>x. fst res = Inr x \<and> e = Closed (c_Addr (conn_of x)))"

text \<open>A dial of the tunnel or the origin leg under a profile of the API, or of the plain leg.\<close>

definition dialled :: "server \<Rightarrow> 'ls world \<Rightarrow> net_event \<Rightarrow> bool" where
  "dialled sv w e \<longleftrightarrow>
     (\<exists>name profile. w_upstream w name = Inr (Some profile) \<and>
        ((\<exists>host port t. resolveTarget sv w host port name = Inr (profile, t) \<and>
            part_of (Dial (sv_Dialer sv) (w_net w) (Some profile) t) id e) \<or>
         part_of (DialForward (sv_Dialer sv) (w_net w) (Some profile)) fst e))"

lemma dialled_target:
  assumes "resolveTarget sv w host port name = Inr (profile, t)"
    "part_of (Dial (sv_Dialer sv) (w_net w) (Some profile) t) id e"
  shows "dialled sv w e"
  using assms resolveTarget_Inr [OF assms(1)] unfolding dialled_def by blast

lemma tunnel_dialled:
  assumes "Net e \<in> set (tunnel sv w remote wid dec)"
  shows "dialled sv w e"
proof -
  obtain profile t where res: "resolveTarget sv w (cd_Host dec) (cd_Port dec) (cd_Upstream dec) = Inr (profile, t)"
    using assms by (auto simp: tunnel_def split: sum.splits)
  obtain r ev where dial: "Dial (sv_Dialer sv) (w_net w) (Some profile) t = (r, ev)" by fastforce
  have "part_of (r, ev) id e"
    using assms res dial by (cases r) (auto simp: part_of_def tunnel_def Let_def case_prod_beta split: if_splits)
  with dial dialled_target [OF res, of e] show ?thesis by simp
qed

lemma origin_dialled:
  assumes "Net e \<in> set (snd (dialOriginTLS sv w name addr))"
  shows "dialled sv w e"
proof -
  obtain host port profile t where res: "resolveTarget sv w host port name = Inr (profile, t)"
    and e: "Net e \<in> set (snd (case Dial (sv_Dialer sv) (w_net w) (Some profile) t of
        (Inl e, ev) \<Rightarrow> (Inl (UpstreamFailed e), map Net ev)
      | (Inr c, ev) \<Rightarrow>
          (let hs = map Net ev @ [OriginTLS (c_Addr c) (origin_tls (sv_OriginTLS sv) host)] in
           case w_origin_tls w of
             Inl e \<Rightarrow> (Inl (OriginHandshake host e), hs @ [Net (Closed (c_Addr c))])
           | Inr _ \<Rightarrow> (Inr \<lparr>ic_Authority = addr, ic_Profile = profile\<rparr>, hs))))"
    using assms by (auto simp: dialOriginTLS_def split: option.splits sum.splits)
  obtain r ev where dial: "Dial (sv_Dialer sv) (w_net w) (Some profile) t = (r, ev)" by fastforce
  have "part_of (r, ev) id e"
    using e dial by (cases r) (auto simp: part_of_def Let_def split: sum.splits)
  with dial dialled_target [OF res, of e] show ?thesis by simp
qed

lemma exchange_plain_no_net: "Net e \<notin> set (fst (exchange_plain w remote wid req u host port dec rdec upgrade c auth))"
  by (auto simp: exchange_plain_def Let_def case_prod_beta split: sum.splits if_splits)

lemma plain_dialled:
  assumes "Net e \<in> set (fst (relayPlainRequest sv w remote wid req u))"
  shows "dialled sv w e"
proof -
  obtain host port where tgt: "splitTarget req = (host, port)" by fastforce
  show ?thesis
  proof (cases rule: relayPlain_cases [OF tgt, of sv w remote wid u])
    case 1
    with assms show ?thesis by simp
  next
    case (2 out keep)
    with assms have "Net e \<in> set out" by simp
    with 2(4) show ?thesis by (metis outgoing.simps(1))
  next
    case (3 dec profile r ev out keep)
    have "part_of (r, ev) fst e"
      using 3(9,10) assms
      by (cases r) (auto simp: part_of_def case_prod_beta exchange_plain_no_net)
    with 3(6,8) show ?thesis unfolding dialled_def by metis
  qed
qed

lemma handle_dialled:
  assumes "Net e \<in> set (fst (handle sv ready w trs remote got ident later))"
  shows "\<exists>w'\<in>insert w (snd ` set later). dialled sv w' e"
proof -
  have out: "outgoing (Net e)" by simp
  from assms denyIdentity_quiet obtain wid req where
    base: "if rq_Method req = MethodConnect then Net e \<in> set (fst (handleConnect sv w trs remote wid req later))
       else Net e \<in> set (handlePlainHTTP sv w remote wid req later)"
    by (fastforce simp: handle_def case_prod_beta split: sum.splits if_splits)
  show ?thesis
  proof (cases "rq_Method req = MethodConnect")
    case True
    with base have "Net e \<in> set (fst (handleConnect sv w trs remote wid req later))" by simp
    from handleConnect_outgoing [OF this out] obtain dec where
      "Net e \<in> set (fst (serveBumped sv trs wid dec later)) \<or> Net e \<in> set (tunnel sv w remote wid dec)"
      by (auto split: if_splits)
    then show ?thesis
    proof
      assume "Net e \<in> set (fst (serveBumped sv trs wid dec later))"
      from serveBumped_outgoing [OF this out] obtain r w' where
        "(Inr r, w') \<in> set later" "origin_event sv w' dec r (Net e)" by blast
      then show ?thesis by (force simp: origin_event_def Let_def dest: origin_dialled)
    qed (use tunnel_dialled in blast)
  next
    case False
    with base have "Net e \<in> set (handlePlainHTTP sv w remote wid req later)" by simp
    from handlePlainHTTP_events [OF this out] show ?thesis by (force dest: plain_dialled)
  qed
qed

section \<open>What a dial contacts and sends\<close>

definition proxy_of :: "server \<Rightarrow> 'ls world \<Rightarrow> string \<Rightarrow> bool" where
  "proxy_of sv w a \<longleftrightarrow>
     (\<exists>name profile u. w_upstream w name = Inr (Some profile) \<and> d_url_parse (sv_Dialer sv) (up_URL profile) = Inr u \<and>
        a = proxy_address u)"

lemma Dial_part:
  assumes "part_of (Dial d net (Some profile) t) id e"
  shows "\<exists>k\<in>set (snd (Dial d net (Some profile) t)). contacted k = contacted e"
  using assms Dial_conn [of d net profile t] by (fastforce simp: part_of_def)

lemma DialForward_contacts:
  assumes "part_of (DialForward d net (Some profile)) fst e"
  shows "\<exists>u. d_url_parse d (up_URL profile) = Inr u \<and> contacted e = proxy_address u"
proof -
  obtain r ev where f: "DialForward d net (Some profile) = (r, ev)" by fastforce
  from assms f consider "e \<in> set ev" | c auth where "r = Inr (c, auth)" "e = Closed (c_Addr c)"
    by (auto simp: part_of_def)
  then show ?thesis
  proof cases
    case 1
    with f obtain u where u: "d_url_parse d (up_URL profile) = Inr u" "e \<in> set (snd (dialProxy net u))"
      by (auto simp: DialForward_def split: sum.splits prod.splits)
    from dialProxy_contacts [OF u(2)] u(1) show ?thesis by blast
  next
    case 2
    with DialForward_conn [of d net profile c auth ev] f show ?thesis by auto
  qed
qed

lemma dialled_contacts:
  assumes "dialled sv w e"
  shows "proxy_of sv w (contacted e) \<or>
    (\<exists>g ip port. sv_Guard sv = Some g \<and> \<not> Denied g ip \<and> contacted e = JoinHostPort (addr_String ip) (Itoa port))"
proof -
  from assms obtain name profile where p: "w_upstream w name = Inr (Some profile)" and
    "(\<exists>host port t. resolveTarget sv w host port name = Inr (profile, t) \<and>
        part_of (Dial (sv_Dialer sv) (w_net w) (Some profile) t) id e) \<or>
     part_of (DialForward (sv_Dialer sv) (w_net w) (Some profile)) fst e"
    unfolding dialled_def by blast
  then consider host port t where "resolveTarget sv w host port name = Inr (profile, t)"
      "part_of (Dial (sv_Dialer sv) (w_net w) (Some profile) t) id e"
    | "part_of (DialForward (sv_Dialer sv) (w_net w) (Some profile)) fst e" by blast
  then show ?thesis
  proof cases
    case 1
    from Dial_part [OF 1(2)] obtain k where
      k: "k \<in> set (snd (Dial (sv_Dialer sv) (w_net w) (Some profile) t))" "contacted k = contacted e" by blast
    from dial_reaches [OF 1(1) k(1)] k(2) show ?thesis unfolding reaches_def proxy_of_def by metis
  next
    case 2
    from DialForward_contacts [OF this] p show ?thesis by (auto simp: proxy_of_def)
  qed
qed

lemma DialForward_no_connect: "SentConnect a hp auth \<notin> set (snd (DialForward d net (Some profile)))"
  using dialProxy_no_connect [of a hp auth net]
  by (auto simp: DialForward_def split: sum.split prod.split) (metis snd_conv)+

text \<open>What is sent as an account is in a Secret of the namespace the source is pinned to.\<close>

lemma dialled_credentials:
  assumes "dialled sv w (SentConnect a hp (Some value))" "sv_Dialer sv = NewDialer (Some (Credentials reader own)) parse"
  shows "\<exists>name user pass. pinned_secret reader own name user pass \<and> value = basic_auth user pass"
proof -
  from assms(1) DialForward_no_connect obtain profile t where
    "SentConnect a hp (Some value) \<in> set (snd (Dial (sv_Dialer sv) (w_net w) (Some profile) t))"
    unfolding dialled_def part_of_def by fastforce
  moreover have "sv_Dialer sv = (sv_Dialer sv)\<lparr>d_creds := Some (Credentials reader own)\<rparr>"
    using assms(2) by (simp add: NewDialer_def)
  ultimately have "SentConnect a hp (Some value) \<in>
      set (snd (Dial ((sv_Dialer sv)\<lparr>d_creds := Some (Credentials reader own)\<rparr>) (w_net w) (Some profile) t))"
    by simp
  from pinned.sent_credentials_stored [OF this] show ?thesis by blast
qed

text \<open>With the default ranges on, a permitted address is in none of them and in no extra one.\<close>

lemma permitted_ranges:
  assumes "New extra False = Inr g" "\<not> Denied g ip"
  shows "(\<forall>p\<in>set default_prefixes. \<not> Contains p (Unmap ip)) \<and>
    (\<forall>cidr\<in>set extra. \<forall>p. parse_cidr cidr = Inr p \<longrightarrow> \<not> Contains p (Unmap ip))"
  using New_defaults [OF assms(1)] New_extra [OF assms(1)] assms(2) by (fastforce simp: Denied_iff)

end
