(* ===== verification/Composition_Properties.thy ===== *)
theory Composition_Properties
  imports Dataplane_Properties Operations_Properties Deployment
begin

text \<open>
  The properties of the components together: from the configuration of a relay to what its
  connections contact, and from the CA Secret over the rotation to what the tenants trust.
\<close>

section \<open>From the configuration to the network\<close>



section \<open>From the watch cache to the connections\<close>

text \<open>
  C8. Traffic follows a listing of the API. However the event handlers interleave, when every
  decision of a connection reads a snapshot of a run of the store that starts with its policies taken
  up, what leaves the relay is granted by policies that the cache listed together, at some state of
  the run that is no later than the snapshot; so a grant that no listing of the run has is refused,
  also where the snapshot lags.
\<close>

theorem traffic_follows_a_listing:
  assumes "took_up s" "successively store_step (s # sts)"
    and "\<forall>w'\<in>insert w (snd ` set later).
      \<exists>j<length (s # sts). w_listed w' = ListEgressPolicies (sys_snapshot ((s # sts) ! j))"
    and "e \<in> set (fst (handle sv ready w trs remote got ident later))" "outgoing e"
  shows "\<exists>wid w' r host port i j. ident = Inr wid \<and> ((got, w') = (Inr r, w) \<or> (Inr r, w') \<in> set later) \<and>
    splitTarget r = (host, port) \<and> i \<le> j \<and> j < length (s # sts) \<and>
    w_listed w' = ListEgressPolicies (sys_snapshot ((s # sts) ! j)) \<and>
    granted (w_as_selector w') wid host port (sys_policies ((s # sts) ! i))"
proof -
  from handle_outgoing [OF assms(4,5)] obtain wid r w' host port pols where
    r: "ident = Inr wid" "(got, w') = (Inr r, w) \<or> (Inr r, w') \<in> set later" "splitTarget r = (host, port)"
    and g: "w_listed w' = Inr pols" "granted (w_as_selector w') wid host port pols"
    by (auto simp: grants_target_def) blast+
  from r(2) have "w' \<in> insert w (snd ` set later)" by force
  with assms(3) obtain j where j: "j < length (s # sts)"
    "w_listed w' = ListEgressPolicies (sys_snapshot ((s # sts) ! j))" by blast
  from run_holds [OF assms(2,1) j(1)] g(1) j(2)
  obtain i where "i \<le> j" "pols = sys_policies ((s # sts) ! i)"
    by (auto simp: holds_only_def ListEgressPolicies_def)
  with r g(2) j show ?thesis by blast
qed

text \<open>The policy of the tenant is deleted, and a connection comes before a handler has taken it up.\<close>

definition ex_watched :: "(string \<times> string) list store_sys" where
  "ex_watched = \<lparr>sys_policies = [ex_policy], sys_upstreams = [ex_profile], sys_snapshot = ex_snapshot,
     sys_pending = (\<lambda>_. 0), sys_progress = (\<lambda>_. Waiting)\<rparr>"

definition ex_deleted :: "(string \<times> string) list store_sys" where
  "ex_deleted = ex_watched\<lparr>sys_policies := [],
     sys_pending := (sys_pending ex_watched)(PolicyHandler := Suc (sys_pending ex_watched PolicyHandler))\<rparr>"

theorem traffic_follows_a_listing_witness:
  "\<exists>i\<le>1. granted match_labels ex_identity ''a.io'' 443 (sys_policies ([ex_watched, ex_deleted] ! i))"
proof -
  have "store_start [ex_policy] [ex_profile] ex_watched"
    by (simp add: store_start_def ex_watched_def ex_snapshot_def)
  note t = store_start_took_up [OF this]
  have sts: "successively store_step [ex_watched, ex_deleted]"
    unfolding ex_deleted_def by (simp add: change_policies)
  have reads: "\<forall>w'\<in>insert ex_world (snd ` set []).
      \<exists>j<length [ex_watched, ex_deleted]. w_listed w' = ListEgressPolicies (sys_snapshot ([ex_watched, ex_deleted] ! j))"
    by (auto intro!: exI [of _ "1::nat"] simp: ex_world_def ListEgressPolicies_def ex_deleted_def ex_watched_def
        ex_snapshot_def build_snapshot_def)
  have e: "Net (Dialed ''px:1'') \<in> set (fst (handle ex_server True ex_world Map.empty None
      (Inr (connect_to ''a.io:443'')) (Inr ex_identity) []))" using ex_tunnel_events by auto
  from traffic_follows_a_listing [OF t sts reads e] obtain i j :: nat where
    "i \<le> j" "j < 2" "granted match_labels ex_identity ''a.io'' 443 (sys_policies ([ex_watched, ex_deleted] ! i))"
    by (auto simp: ex_world_def)
  then show ?thesis by (intro exI [of _ i]) simp
qed

section \<open>Rotating the CA\<close>

text \<open>The certificates of a bundle from a Secret, and what the rotation round keeps of them.\<close>

definition ca_encoded :: "crypto \<Rightarrow> ca \<Rightarrow> bool" where
  "ca_encoded cr c \<longleftrightarrow> ca_CertPEM c = pem_encode cr ''CERTIFICATE'' (x_Raw (ca_Certificate c))"

lemma LoadCA_encoded: "LoadCA cr ref p k = Inr c \<Longrightarrow> ca_encoded cr c"
  by (auto simp: LoadCA_def ca_encoded_def split: sum.splits option.splits)

lemma LoadCACert_encoded: "LoadCACert cr ref p = Inr c \<Longrightarrow> ca_encoded cr c"
  by (auto simp: LoadCACert_def ca_encoded_def split: sum.splits)

definition bundle_encoded :: "crypto \<Rightarrow> trust_bundle \<Rightarrow> bool" where
  "bundle_encoded cr b \<longleftrightarrow> (\<exists>c. b_Current b = Some c \<and> ca_Key c \<noteq> None \<and> ca_encoded cr c) \<and>
     (\<forall>n. b_Next b = Some n \<longrightarrow> ca_encoded cr n)"

lemma bundleFromSecret_encoded: "bundleFromSecret cr ref d = Inr b \<Longrightarrow> bundle_encoded cr b"
  using LoadCA_encoded LoadCACert_encoded LoadCA_parts
  by (fastforce simp: bundleFromSecret_def bundle_encoded_def split: sum.splits option.splits if_splits)

lemma same_bundle_PEM:
  assumes "same_bundle a b" "bundle_encoded cr a" "bundle_encoded cr b"
  shows "PEM a = PEM b \<and> map_option ca_CertPEM (b_Current a) = map_option ca_CertPEM (b_Current b)"
  using assms
  by (auto simp: same_bundle_def sameNext_def cert_equal_def bundle_encoded_def ca_encoded_def PEM_def split: option.splits)

text \<open>After a round that could read the Secret the issuer stands for what the Secret holds.\<close>

lemma rotate_once_reads:
  assumes "bundleFromSecret cr ref d = Inr b" "bundle_encoded cr (is_bundle i)"
  shows "PEM (is_bundle (rotate_once cr ref (Inr d) i)) = PEM b \<and>
    map_option ca_CertPEM (b_Current (is_bundle (rotate_once cr ref (Inr d) i))) = map_option ca_CertPEM (b_Current b) \<and>
    bundle_encoded cr (is_bundle (rotate_once cr ref (Inr d) i))"
proof (cases "same_bundle (is_bundle i) b")
  case True
  with same_bundle_PEM [OF True assms(2) bundleFromSecret_encoded [OF assms(1)]] assms show ?thesis
    by (simp add: rotate_once_def)
next
  case False
  have "is_bundle (SetBundle (Some b) i) = b"
    using bundleFromSecret_encoded [OF assms(1)] by (auto simp: SetBundle_def bundle_encoded_def)
  with False assms bundleFromSecret_encoded [OF assms(1)] show ?thesis by (simp add: rotate_once_def)
qed


text \<open>Two certificates, of which the second is announced by one Secret and signs under the next.\<close>

definition ex_rotation_crypto :: crypto where
  "ex_rotation_crypto = ex_install_crypto\<lparr>cr_parse := (\<lambda>der. Inr (zero_x509\<lparr>x_Raw := der, x_IsCA := True\<rparr>)),
     cr_pkcs8 := (\<lambda>_. Inr (Signer 7)), pem_encode := (\<lambda>_ der. der),
     pem_decode := (\<lambda>s. Some (if prefix ''C'' s then ''CERTIFICATE'' else ''PRIVATE KEY'', s))\<rparr>"

definition ex_announced :: secret_data where
  "ex_announced = [caCertKey \<mapsto> ''C1'', caKeyKey \<mapsto> ''K1'', nextCACertKey \<mapsto> ''C2'']"

definition ex_promoted :: secret_data where
  "ex_promoted = [caCertKey \<mapsto> ''C2'', caKeyKey \<mapsto> ''K2'']"

definition ex_ca_from :: "nat \<Rightarrow> string \<Rightarrow> nat option \<Rightarrow> ca" where
  "ex_ca_from ref der key = \<lparr>ca_Ref = ref, ca_Certificate = zero_x509\<lparr>x_Raw := der, x_IsCA := True\<rparr>, ca_Key = key,
     ca_CertPEM = der\<rparr>"

lemmas ex_rotation_defs = bundleFromSecret_def data_at_def caCertKey_def caKeyKey_def nextCACertKey_def LoadCA_def
  LoadCACert_def load_certificate_def parsePrivateKey_def ex_rotation_crypto_def ex_ca_from_def

lemma ex_rotation:
  "bundleFromSecret ex_rotation_crypto 0 [caCertKey \<mapsto> ''C1'', caKeyKey \<mapsto> ''K1''] =
     Inr \<lparr>b_Current = Some (ex_ca_from 0 ''C1'' (Some 7)), b_Next = None\<rparr>"
  "bundleFromSecret ex_rotation_crypto 4 ex_announced =
     Inr \<lparr>b_Current = Some (ex_ca_from 4 ''C1'' (Some 7)), b_Next = Some (ex_ca_from 5 ''C2'' None)\<rparr>"
  "bundleFromSecret ex_rotation_crypto 9 ex_promoted =
     Inr \<lparr>b_Current = Some (ex_ca_from 9 ''C2'' (Some 7)), b_Next = None\<rparr>"
  by (simp_all add: ex_rotation_defs ex_announced_def ex_promoted_def)


end
