(* ===== verification/Client_Leg.thy ===== *)
theory Client_Leg
  imports Command Wrappers
begin

text \<open>
  The TLS configuration of the client leg (\<open>ServerConfig\<close> of \<open>tlsbump/issuer.go\<close>) and the handshake that
  \<open>crypto/tls\<close> makes with it, as far as the configuration decides it: the version, the application
  protocol and the certificate. Then the reader the dialler hands out for a tunnel
  (\<open>bufferedConn\<close> of \<open>upstream/upstream.go\<close>).
\<close>

section \<open>The configuration\<close>

text \<open>\<open>GetCertificate\<close> takes the server name of the hello; the issuer it changes is an argument.\<close>

record tls_server =
  ts_MinVersion :: int
  ts_NextProtos :: "string list"
  ts_GetCertificate :: "string \<Rightarrow> issuer \<Rightarrow> (issuer_error, tls_cert) result \<times> leaf_metric option \<times> issuer"

definition ServerConfig :: "crypto \<Rightarrow> int \<times> int \<times> int \<Rightarrow> string \<Rightarrow> tls_server" where
  "ServerConfig cr ts fallbackHost =
     \<lparr>ts_MinVersion = VersionTLS12, ts_NextProtos = [''http/1.1''],
      ts_GetCertificate = (\<lambda>serverName. Certificate cr ts (handshake_name fallbackHost serverName))\<rparr>"

section \<open>The handshake\<close>

record client_hello =
  ch_MaxVersion :: int
  ch_ServerName :: string
  ch_Protos :: "string list"

datatype handshake_error = VersionTooOld | NoCommonProtocol "string list" | NoCertificate issuer_error

text \<open>
  The protocol a server agrees on: none when one of the sides names none, else the first of its own
  that the client names. A server that offers \<open>h2\<close> also takes a client that offers \<open>http/1.1\<close>.
\<close>

definition negotiateALPN :: "string list \<Rightarrow> string list \<Rightarrow> (handshake_error, string) result" where
  "negotiateALPN serverProtos clientProtos =
     (if serverProtos = [] \<or> clientProtos = [] then Inr []
      else (case find (\<lambda>p. p \<in> set clientProtos) serverProtos of
              Some p \<Rightarrow> Inr p
            | None \<Rightarrow> if ''h2'' \<in> set serverProtos \<and> ''http/1.1'' \<in> set clientProtos then Inr []
                      else Inl (NoCommonProtocol clientProtos)))"

definition server_handshake ::
    "tls_server \<Rightarrow> client_hello \<Rightarrow> issuer \<Rightarrow> (handshake_error, string \<times> tls_cert) result \<times> issuer" where
  "server_handshake cfg hello i =
     (if ch_MaxVersion hello < ts_MinVersion cfg then (Inl VersionTooOld, i)
      else (case negotiateALPN (ts_NextProtos cfg) (ch_Protos hello) of
              Inl e \<Rightarrow> (Inl e, i)
            | Inr proto \<Rightarrow>
                (case ts_GetCertificate cfg (ch_ServerName hello) i of
                   (Inl e, _, j) \<Rightarrow> (Inl (NoCertificate e), j)
                 | (Inr cert, _, j) \<Rightarrow> (Inr (proto, cert), j))))"

section \<open>What a client is shown\<close>

text \<open>A call of \<open>Certificate\<close> that runs alone keeps the cache and answers for the host it is asked.\<close>

lemma Certificate_issued:
  assumes ok: "issuer_ok i" "placed heap (is_bundle i)" "\<forall>e\<in>snd ` set (is_order i). vouched heap (is_validity i) e"
    and call: "Certificate cr ts host0 i = (Inr cert, m, j)"
  shows "canonicalHost host0 \<noteq> [] \<and> (\<exists>c notAfter. b_Current (is_bundle i) = Some c \<and>
    issued heap (is_validity i) (canonicalHost host0) (ca_Ref c) cert notAfter)"
proof -
  obtain t1 t2 t3 where ts: "ts = (t1, t2, t3)" by (metis prod_cases3)
  let ?h = "canonicalHost host0"
  from call have ne: "?h \<noteq> []" by (auto simp: Certificate_def ts)
  from call ne obtain c where c: "b_Current (is_bundle i) = Some c"
    by (auto simp: Certificate_def ts Let_def split: option.splits)
  obtain r k where pr: "probe t1 c ?h i = (r, k)" by fastforce
  have lk: "linked i" "length (is_order i) \<le> is_maxSize i" using ok(1) by (simp_all add: issuer_ok_def)
  have cached: "\<exists>notAfter. issued heap (is_validity i) ?h (ca_Ref c) x notAfter"
    if "probe t c ?h i' = (Some x, k')" "linked i'" "snd ` set (is_order i') \<subseteq> snd ` set (is_order i)" for t x i' k'
  proof -
    have "\<forall>e\<in>snd ` set (is_order i'). vouched heap (is_validity i) e" using ok(3) that(3) by blast
    from probe_handed [OF that(2,1) this, of True] show ?thesis unfolding handed_ok_def by auto
  qed
  show ?thesis
  proof (cases r)
    case (Some x)
    with call ne c pr have "x = cert" by (simp add: Certificate_def ts)
    with cached [of t1 i x k] pr Some lk(1) ne c show ?thesis by auto
  next
    case None
    note kept = probe_keeps [OF lk pr]
    from call ne c pr None obtain new na where
      new: "mint cr t2 (is_validity k) c ?h = Inr (new, na)" "(cert, m, j) = store t3 c ?h new na k"
      by (auto simp: Certificate_def ts Let_def split: sum.splits prod.splits)
    have v: "is_validity k = is_validity i" using kept by (simp add: same_config_def)
    have minted: "issued heap (is_validity i) ?h (ca_Ref c) new na"
      using new(1) ok(2) c v unfolding issued_def placed_def by auto
    obtain r2 k2 where pr2: "probe t3 c ?h k = (r2, k2)" by fastforce
    show ?thesis
    proof (cases r2)
      case None
      with new(2) pr2 have "cert = new" by (simp add: store_def)
      with minted ne c show ?thesis by auto
    next
      case (Some x)
      with new(2) pr2 have "cert = x" by (simp add: store_def)
      with cached [of t3 k x k2] pr2 Some kept ne c show ?thesis by auto
    qed
  qed
qed

text \<open>
  A handshake that succeeds agrees on HTTP/1.1 or on nothing, never on \<open>h2\<close>, uses TLS 1.2 or newer, and
  shows a leaf that the current authority issued for the name in the hello, or, without one, for
  the host of the CONNECT.
\<close>

lemma inspected_handshake:
  assumes "issuer_ok i" "placed heap (is_bundle i)" "\<forall>e\<in>snd ` set (is_order i). vouched heap (is_validity i) e"
    and "server_handshake (ServerConfig cr ts host) hello i = (Inr (proto, cert), j)"
  shows "proto = (if ch_Protos hello = [] then [] else ''http/1.1'') \<and>
    (ch_Protos hello \<noteq> [] \<longrightarrow> ''http/1.1'' \<in> set (ch_Protos hello)) \<and> VersionTLS12 \<le> ch_MaxVersion hello \<and>
    (\<exists>c notAfter. b_Current (is_bundle i) = Some c \<and>
       issued heap (is_validity i) (canonicalHost (if ch_ServerName hello = [] then host else ch_ServerName hello))
         (ca_Ref c) cert notAfter)"
proof -
  from assms(4) obtain m where
    p: "proto = (if ch_Protos hello = [] then [] else ''http/1.1'')"
      "ch_Protos hello \<noteq> [] \<longrightarrow> ''http/1.1'' \<in> set (ch_Protos hello)" "VersionTLS12 \<le> ch_MaxVersion hello"
    and cert: "Certificate cr ts (handshake_name host (ch_ServerName hello)) i = (Inr cert, m, j)"
    by (auto simp: server_handshake_def ServerConfig_def negotiateALPN_def split: if_splits sum.splits prod.splits)
  from Certificate_issued [OF assms(1-3) cert] p show ?thesis by (simp add: handshake_name_def)
qed

lemma h2_only_client_is_refused:
  "ch_Protos hello = [''h2''] \<Longrightarrow> \<exists>e. fst (server_handshake (ServerConfig cr ts host) hello i) = Inl e"
  by (simp add: server_handshake_def ServerConfig_def negotiateALPN_def)

section \<open>Reading a tunnel\<close>

text \<open>
  \<open>connect\<close> reads the answer of the corporate proxy through a \<open>bufio.Reader\<close>. When that has read on, the
  reader becomes part of the connection; otherwise the connection is used as it is. A read for
  \<open>room\<close> bytes: what is buffered first; an empty buffer is passed by when \<open>room\<close> is at least
  its size, and is filled by one read of the connection otherwise, which has \<open>ready\<close> bytes.
\<close>

datatype tunnel_conn = Plain | BufferedConn string

definition tunnel_reader :: "string \<Rightarrow> tunnel_conn" where
  "tunnel_reader buffered = (if 0 < length buffered then BufferedConn buffered else Plain)"

definition bufio_size :: nat where "bufio_size = 4096"

fun tunnel_Read :: "nat \<Rightarrow> nat \<Rightarrow> tunnel_conn \<times> string \<Rightarrow> string \<times> tunnel_conn \<times> string" where
  "tunnel_Read room ready (Plain, stream) =
     (let k = min room ready in (take k stream, Plain, drop k stream))"
| "tunnel_Read room ready (BufferedConn buffered, stream) =
     (if buffered \<noteq> [] then (take room buffered, BufferedConn (drop room buffered), stream)
      else if bufio_size \<le> room then
        (let k = min room ready in (take k stream, BufferedConn [], drop k stream))
      else
        (let k = min bufio_size ready; filled = take k stream in
         (take room filled, BufferedConn (drop room filled), drop k stream)))"

fun tunnel_reads :: "(nat \<times> nat) list \<Rightarrow> tunnel_conn \<times> string \<Rightarrow> string \<times> tunnel_conn \<times> string" where
  "tunnel_reads [] s = ([], s)"
| "tunnel_reads ((room, ready) # calls) s =
     (let (got, s1) = tunnel_Read room ready s; (rest, s2) = tunnel_reads calls s1 in (got @ rest, s2))"

fun unread :: "tunnel_conn \<times> string \<Rightarrow> string" where
  "unread (Plain, stream) = stream"
| "unread (BufferedConn buffered, stream) = buffered @ stream"

lemma take_drop_append: "take n xs @ drop n xs @ ys = xs @ ys"
  by (simp flip: append_assoc)

lemma tunnel_Read_exact: "tunnel_Read room ready s = (got, s1) \<Longrightarrow> got @ unread s1 = unread s"
  by (cases "(room, ready, s)" rule: tunnel_Read.cases) (auto simp: Let_def take_drop_append simp del: take_take split: if_splits)

text \<open>Whatever the sizes of the reads, no byte the origin sent behind the answer is lost or moved.\<close>

lemma tunnel_reads_exact:
  "tunnel_reads calls (tunnel_reader buffered, stream) = (got, s1) \<Longrightarrow> got @ unread s1 = buffered @ stream"
proof -
  have "tunnel_reads calls s = (got, s1) \<Longrightarrow> got @ unread s1 = unread s" for s
  proof (induction calls arbitrary: s got)
    case (Cons call calls)
    obtain room ready where call: "call = (room, ready)" by fastforce
    obtain first s' where r: "tunnel_Read room ready s = (first, s')" by (metis surj_pair)
    obtain rest where rest: "tunnel_reads calls s' = (rest, s1)" "got = first @ rest"
      using Cons.prems call r by (auto split: prod.splits)
    from Cons.IH [OF rest(1)] tunnel_Read_exact [OF r] rest(2) show ?case by simp
  qed simp
  then show "tunnel_reads calls (tunnel_reader buffered, stream) = (got, s1) \<Longrightarrow> got @ unread s1 = buffered @ stream"
    by (auto simp: tunnel_reader_def split: if_splits)
qed

end
