(* ===== verification/Api_Memory.thy ===== *)
theory Api_Memory
  imports Deepcopy Store
begin

text \<open>
  The structs in memory as the engine reads them: the records of \<open>Policy_Types\<close> as a view of the values
  that \<open>Deepcopy\<close> speaks of. A nil slice reads as an empty one. What the watch cache keeps and what a
  snapshot is built from are related by a deep copy, so the decisions of the relay do not see
  what is done to the objects of the cache.
\<close>

section \<open>The view\<close>

definition elements :: "'a list option \<Rightarrow> 'a list" where
  "elements xs = (case xs of None \<Rightarrow> [] | Some ys \<Rightarrow> ys)"

fun view_rule :: "string \<times> bool \<times> bool \<times> string list option \<Rightarrow> path_rule" where
  "view_rule (path, exact, upgrade, methods) =
     \<lparr>rule_Path = path, rule_Exact = exact, rule_Methods = elements methods, rule_AllowUpgrade = upgrade\<rparr>"

fun view_destination ::
    "string \<times> tls_mode \<times> int list option \<times> (string \<times> bool \<times> bool \<times> string list option) list option \<Rightarrow> destination" where
  "view_destination (host, mode, ports, paths) =
     \<lparr>dst_Host = host, dst_Ports = elements ports, dst_TLSMode = mode, dst_Paths = map view_rule (elements paths)\<rparr>"

text \<open>\<open>name_of\<close> reads the name out of the value of an \<open>ObjectMeta\<close>.\<close>

fun view_policy where
  "view_policy name_of (type_meta, meta, upstream, (namespaces, pods), dsts) =
     \<lparr>pol_Name = name_of meta, pol_Selector = \<lparr>sel_Namespace = namespaces, sel_Pod = pods\<rparr>,
      pol_Destinations = map view_destination (elements dsts), pol_Upstream = upstream\<rparr>"

text \<open>The \<open>Items\<close> of the list a pointer leads to.\<close>

definition view_items where
  "view_items name_of v =
     (case v of
        Some [(type_meta, meta, items)] \<Rightarrow> map (view_policy name_of) (elements items)
      | _ \<Rightarrow> [])"

definition policies_in where
  "policies_in sv mv lv name_of m p =
     view_items name_of (map_option (slice_val lists_of (list_val policies_of lv (policy_val sv mv)) m) p)"

section \<open>Snapshots are cut off from the cache\<close>

lemma copied_policies_decide_alike:
  assumes copiers: "copier sc sv sf" "copier mc mv mf" "copier lc lv lf"
    and cells: "cells = opt_foot (slice_foot lists_of (list_foot policies_of lf (policy_foot sf mf)))"
    and copy: "allocated m (cells m cached)" "EgressPolicyList_DeepCopy sc mc lc cached m = (listed, n)"
    and other: "\<And>i. i \<notin> cells n cached \<Longrightarrow> m_cells w i = m_cells n i"
  shows "ListEgressPolicies (build_snapshot (policies_in sv mv lv name_of w listed) ups) =
      Inr (policies_in sv mv lv name_of m cached)"
    "AuthorizeConnect as_sel (ListEgressPolicies (build_snapshot (policies_in sv mv lv name_of w listed) ups)) wid host port =
      AuthorizeConnect as_sel (Inr (policies_in sv mv lv name_of m cached)) wid host port"
proof -
  note c = EgressPolicyList_copier [OF copiers]
  have "policies_in sv mv lv name_of w listed = policies_in sv mv lv name_of m cached"
    using copier.separate(3) [OF c, of m cached listed n w] copy other by (simp add: policies_in_def cells)
  then show "ListEgressPolicies (build_snapshot (policies_in sv mv lv name_of w listed) ups) =
      Inr (policies_in sv mv lv name_of m cached)"
    by (simp add: ListEgressPolicies_def build_snapshot_def)
  then show "AuthorizeConnect as_sel (ListEgressPolicies (build_snapshot (policies_in sv mv lv name_of w listed) ups)) wid host port =
      AuthorizeConnect as_sel (Inr (policies_in sv mv lv name_of m cached)) wid host port" by simp
qed

end
