(* ===== verification/Registration.thy ===== *)
theory Registration
  imports Go_Strings
begin

text \<open>
  \<open>api/v1alpha1/register.go\<close>: how the kinds of the relay get into a scheme, and the scheme \<open>serve\<close>
  builds. Schemes and their builders are code of apimachinery: a record of functions, with the
  contract \<open>scheme_library\<close>.
\<close>

section \<open>The library\<close>

record group_version =
  gv_Group :: string
  gv_Version :: string

type_synonym 's scheme_builder = "'s \<Rightarrow> (string, 's) result"

record 's scheme_lib =
  sl_AddKnownTypes :: "group_version \<Rightarrow> string list \<Rightarrow> 's \<Rightarrow> 's"
  sl_AddToGroupVersion :: "group_version \<Rightarrow> 's \<Rightarrow> 's"
  sl_Build :: "'s scheme_builder list \<Rightarrow> 's scheme_builder"
  sl_Recognizes :: "'s \<Rightarrow> group_version \<Rightarrow> string \<Rightarrow> bool"

section \<open>The registration\<close>

definition GroupName :: string where
  "GroupName = ''relay.cropalato.io''"

definition GroupVersion :: group_version where
  "GroupVersion = \<lparr>gv_Group = GroupName, gv_Version = ''v1alpha1''\<rparr>"

definition known_kinds :: "string list" where
  "known_kinds = [''EgressPolicy'', ''EgressPolicyList'', ''UpstreamProxy'', ''UpstreamProxyList'']"

definition addKnownTypes :: "'s scheme_lib \<Rightarrow> 's scheme_builder" where
  "addKnownTypes lib scheme =
     (let s1 = sl_AddKnownTypes lib GroupVersion known_kinds scheme in
      Inr (sl_AddToGroupVersion lib GroupVersion s1))"

definition SchemeBuilder :: "'s scheme_lib \<Rightarrow> 's scheme_builder list" where
  "SchemeBuilder lib = [addKnownTypes lib]"

definition AddToScheme :: "'s scheme_lib \<Rightarrow> 's scheme_builder" where
  "AddToScheme lib = sl_Build lib (SchemeBuilder lib)"

text \<open>\<open>Resource\<close>: the group and the name.\<close>

definition Resource :: "string \<Rightarrow> string \<times> string" where
  "Resource resource = (gv_Group GroupVersion, resource)"

text \<open>The scheme of \<open>serve\<close>; \<open>client_go\<close> is the registration of the kinds of Kubernetes itself.\<close>

definition serve_scheme :: "'s scheme_lib \<Rightarrow> 's scheme_builder \<Rightarrow> 's scheme_builder" where
  "serve_scheme lib client_go blank =
     (case client_go blank of Inl e \<Rightarrow> Inl e | Inr scheme \<Rightarrow> AddToScheme lib scheme)"

section \<open>What a scheme knows afterwards\<close>

locale scheme_library =
  fixes lib :: "'s scheme_lib"
  assumes known: "sl_Recognizes lib (sl_AddKnownTypes lib gv kinds s) gv' kind \<longleftrightarrow>
      sl_Recognizes lib s gv' kind \<or> gv' = gv \<and> kind \<in> set kinds"
    and meta: "sl_Recognizes lib s gv' kind \<Longrightarrow> sl_Recognizes lib (sl_AddToGroupVersion lib gv s) gv' kind"
    and build_nil: "sl_Build lib [] s = Inr s"
    and build_cons: "sl_Build lib (f # fs) s = (case f s of Inl e \<Rightarrow> Inl e | Inr t \<Rightarrow> sl_Build lib fs t)"
begin

lemma AddToScheme_knows:
  obtains t where "AddToScheme lib s = Inr t"
    "\<And>kind. kind \<in> set known_kinds \<Longrightarrow> sl_Recognizes lib t GroupVersion kind"
    "\<And>gv kind. sl_Recognizes lib s gv kind \<Longrightarrow> sl_Recognizes lib t gv kind"
proof
  let ?t = "sl_AddToGroupVersion lib GroupVersion (sl_AddKnownTypes lib GroupVersion known_kinds s)"
  show "AddToScheme lib s = Inr ?t"
    by (simp add: AddToScheme_def SchemeBuilder_def build_cons build_nil addKnownTypes_def Let_def)
  show "sl_Recognizes lib ?t GroupVersion kind" if "kind \<in> set known_kinds" for kind
    using that by (intro meta) (simp add: known)
  show "sl_Recognizes lib ?t gv kind" if "sl_Recognizes lib s gv kind" for gv kind
    using that by (intro meta) (simp add: known)
qed

text \<open>The registration of the relay never fails, and takes nothing away.\<close>

lemma serve_scheme_knows:
  "(\<exists>e. serve_scheme lib client_go blank = Inl e) \<longleftrightarrow> (\<exists>e. client_go blank = Inl e)"
  "serve_scheme lib client_go blank = Inr t \<Longrightarrow> kind \<in> set known_kinds \<Longrightarrow> sl_Recognizes lib t GroupVersion kind"
  "serve_scheme lib client_go blank = Inr t \<Longrightarrow> client_go blank = Inr s \<Longrightarrow> sl_Recognizes lib s gv kind \<Longrightarrow>
     sl_Recognizes lib t gv kind"
proof -
  have ok: "\<exists>t. AddToScheme lib s = Inr t" for s using AddToScheme_knows by metis
  show "(\<exists>e. serve_scheme lib client_go blank = Inl e) \<longleftrightarrow> (\<exists>e. client_go blank = Inl e)"
    using ok by (cases "client_go blank") (auto simp: serve_scheme_def, metis sum.distinct(1))
  show "sl_Recognizes lib t GroupVersion kind"
    if "serve_scheme lib client_go blank = Inr t" "kind \<in> set known_kinds"
    using that AddToScheme_knows by (auto simp: serve_scheme_def split: sum.splits) (metis sum.inject(2))
  show "sl_Recognizes lib t gv kind"
    if "serve_scheme lib client_go blank = Inr t" "client_go blank = Inr s" "sl_Recognizes lib s gv kind"
    using that AddToScheme_knows by (auto simp: serve_scheme_def split: sum.splits) (metis sum.inject(2))
qed

end

text \<open>A scheme as the list of what it recognises.\<close>

fun run_builders :: "'s scheme_builder list \<Rightarrow> 's scheme_builder" where
  "run_builders [] s = Inr s"
| "run_builders (f # fs) s = (case f s of Inl e \<Rightarrow> Inl e | Inr t \<Rightarrow> run_builders fs t)"

definition listed_scheme :: "(group_version \<times> string) list scheme_lib" where
  "listed_scheme = \<lparr>sl_AddKnownTypes = (\<lambda>gv kinds s. s @ map (Pair gv) kinds),
     sl_AddToGroupVersion = (\<lambda>gv s. s @ map (Pair gv) [''WatchEvent'', ''ListOptions'']),
     sl_Build = run_builders, sl_Recognizes = (\<lambda>s gv kind. (gv, kind) \<in> set s)\<rparr>"

interpretation listed: scheme_library listed_scheme
  by unfold_locales (auto simp: listed_scheme_def split: sum.split)

lemma relay_kinds_are_registered:
  "serve_scheme listed_scheme Inr [] = Inr t \<Longrightarrow> (GroupVersion, ''EgressPolicy'') \<in> set t \<and> (GroupVersion, ''UpstreamProxy'') \<in> set t"
  using listed.serve_scheme_knows(2) [of Inr "[]" t] by (simp add: known_kinds_def) (simp add: listed_scheme_def)

end
