(* ===== verification/Spec2Isabelle.thy ===== *)
theory Spec2Isabelle
  imports Dataplane_Properties Policy_Properties Client_Properties Service_Properties Operations_Properties
    Platform_Properties Composition_Properties Client_Leg Api_Memory Registration
begin

text \<open>
  A verification library of proxy-relay-control: an HTTP proxy relay that identifies the pod behind
  a connection by its address, decides by policy whether it may reach a host (and, on inspected
  connections, a path), and forwards what is allowed through a corporate proxy with credentials the
  pod never sees.

  \<^bold>\<open>The parts.\<close> A connection is accepted by \<open>proxy.Server\<close>. \<open>handle\<close> reads one request, asks
  \<open>identity\<close> who the client is, and gives a CONNECT to \<open>handleConnect\<close> and everything else to
  \<open>handlePlainHTTP\<close>. Both ask \<open>policy.Engine\<close> (stage one: host and port), \<open>guard\<close> (addresses that
  are never dialled) and \<open>upstream.Dialer\<close> (the connection through the corporate proxy). A
  decision with TLS mode \<open>inspect\<close> terminates TLS with a certificate of \<open>tlsbump.Issuer\<close> and asks
  stage two for every request. Around that: the store keeps the policies, the controller publishes
  the CA to the tenants, the rotation watcher changes what is signed with, and \<open>cmd/relay\<close> puts it
  together.

  \<^bold>\<open>Theories and code\<close> (paths under \<open>src/internal\<close> unless they say otherwise; definitions carry
  the names of the functions they translate).
    \<^item> \<open>Relay_Prelude\<close>: results, loops that stop at the first error, reachability, and the locale
      \<open>machine_invariant\<close> that every state machine interprets.
    \<^item> \<open>Go_Strings\<close>, \<open>Netip\<close>, \<open>Http_Msg\<close>: what the code uses of \<open>strings\<close>, \<open>net/netip\<close>, \<open>net\<close> and
      \<open>net/http\<close>; \<open>Http_Msg\<close> also holds \<open>proxy/response.go\<close> and the header functions of
      \<open>proxy/inspect.go\<close>.
    \<^item> \<open>Normalize\<close>, \<open>Matching\<close>, \<open>Policy_Types\<close>, \<open>Engine\<close>, \<open>Store\<close>: \<open>policy/\<close> and
      \<open>src/api/v1alpha1/types.go\<close>.
    \<^item> \<open>Guard\<close>: \<open>guard/guard.go\<close>. \<open>Identity\<close>: \<open>identity/\<close>. \<open>Upstream\<close>: \<open>upstream/\<close>.
    \<^item> \<open>Authority\<close>, \<open>Issuer\<close>: \<open>tlsbump/ca.go\<close> and \<open>tlsbump/issuer.go\<close>. \<open>Audit_Log\<close>, \<open>Logging\<close>:
      \<open>audit/audit.go\<close> and \<open>newLogger\<close>. \<open>Metrics\<close>: \<open>metrics/metrics.go\<close>.
    \<^item> \<open>Proxy\<close>, \<open>Inspect\<close>, \<open>Tunnel\<close>, \<open>Wrappers\<close>, \<open>Lifecycle\<close>: \<open>proxy/connect.go\<close>, \<open>http.go\<close>, \<open>server.go\<close>,
      \<open>inspect.go\<close> and \<open>tunnel.go\<close>; \<open>Dataplane\<close> and \<open>Inspected\<close> hold the lemmas about them. \<open>Upgrade\<close> is what
      happens after a protocol upgrade, \<open>Framing\<close> where a relayed response ends for its reader, over what
      \<open>http.Response.Write\<close>, \<open>http.ReadResponse\<close> and \<open>http.Transport\<close> do with a response. \<open>Client_Leg\<close>: the TLS
      configuration of inspected clients (\<open>tlsbump/issuer.go\<close>) with the handshake of \<open>crypto/tls\<close>, and the reader
      of a tunnel (\<open>upstream/upstream.go\<close>).
    \<^item> \<open>Cabundle\<close>: \<open>cabundle/controller.go\<close>. \<open>Config\<close>: \<open>config/config.go\<close>. \<open>Command\<close>, \<open>Startup\<close>,
      \<open>Process\<close> (the end of \<open>serve\<close>), \<open>Init_CA\<close> and \<open>Flags\<close> (the command lines, over the \<open>flag\<close> package and the
      duration syntax in \<open>Durations\<close>): \<open>src/cmd/relay\<close>. \<open>Deployment\<close>: the server as \<open>serve\<close> fills it.
    \<^item> \<open>Memory\<close> (a store with slices and pointers) and \<open>Deepcopy\<close>: \<open>src/api/v1alpha1/zz_deepcopy.go\<close>.
      \<open>Api_Memory\<close> is the view of these structs as the records the engine reads. \<open>Registration\<close>:
      \<open>src/api/v1alpha1/register.go\<close>.
    \<^item> \<open>Examples\<close> is a small deployment on which the witnesses evaluate; the \<open>..._Properties\<close>
      theories state the properties.

  \<^bold>\<open>State and effects.\<close> A Go \<open>error\<close> return is the sum type \<open>result\<close>, with one datatype of errors
  per package. A handler is a function from its inputs and a \<open>world\<close> (what every call to the
  outside answers) to the list of events it causes: dials, handshakes, requests and answers
  written, audit records, metric increments, in order. Properties on traffic are statements on
  such lists. Components that are used concurrently are step relations over a record of their
  shared state: the two event handlers of the store, the negative cache of the resolver with its
  clock, the calls of the issuer between its two critical sections, the goroutines of a splice and of an upgrade,
  the accept loop with its handlers and its shutdown, and the process around it with the admin server.
  Where structures share memory, in the deep copies, the store is explicit: numbered cells, and slices
  as windows into them. Addresses are words of 32 and 128 bits.
  Durations and times are integers in nanoseconds. Strings are byte strings; letters change case
  and white space is recognised in ASCII only. A private key is a number, a certificate a record of
  the fields the code reads together with its encoding, and pointer comparison of certificates is
  comparison of the number a load or a generation allocated. The texts that \<open>fmt\<close> makes are kept as
  values (\<open>reason\<close>, \<open>why\<close>), except where their bytes matter: the answers of \<open>response.go\<close> and the
  lines of \<open>init-ca\<close>.

  \<^bold>\<open>Interfaces.\<close> \<open>machine_invariant\<close> (every step relation), \<open>destination_guard\<close> (what the proxy
  needs of the guard), \<open>policy_lister\<close> (what the engine needs of the store), \<open>identity_provider\<close>,
  \<open>credential_source\<close> (interpreted on the Secrets of the relay's namespace), and \<open>configmap_api\<close>
  (how the API server answers the controller on success and on failure, with an in-memory API as
  its interpretation), and \<open>copier\<close> (what a deep copy promises: it only allocates, stands for the same
  value and reaches only new cells), which every copy of the API types is shown to satisfy from those
  of its fields; and \<open>scheme_library\<close> (what a scheme recognises after a registration, interpreted on a
  list of kinds).

  \<^bold>\<open>What is shown.\<close> No traffic leaves without a grant, on any of the three paths, and what leaves is
  what was authorised; both decisions are characterised against the policies,
  and a workload's does not depend on policies that do not select it; a normalised path
  is canonical and is what the RFC's removal of dot segments gives; the matchers are equivalent to
  their declarative readings; the guard's denials are characterised address by address; identities,
  certificates and credentials come from where they must; the cache of the issuer refines a bounded
  LRU list; each outcome leaves the audit records it should; a splice returns; the published bundle
  touches nothing foreign and is complete; and what \<open>init-ca\<close> and a first install write is what a
  later start reads. Across components: a relay that \<open>serve\<close> started with the default ranges contacts
  only proxies of its profiles and addresses outside those ranges, with accounts of its own namespace; a
  CA is published to the tenants before it signs; what leaves is granted by policies the watch cache listed
  together, however the event handlers interleave; a configuration written out as flags is the one the
  relay runs with; every metric call fits its collector and the gauge returns to where it was; a deep
  copy shares nothing with its original; a response says where it ends when the connection goes on after
  it, but for those the relay decompressed; and the process can always be brought to its end. Some properties record behaviour a reader may not expect: a stale
  snapshot can persist, a zoned address passes the guard, a shutdown can miss a connection,
  one policy whose selector does not convert fails the decisions of every tenant, a failed listener leaves a relay that waits and says it is ready, a high log level silences the audit
  stream, an upgraded inspected connection passes nothing on to the origin.

  \<^bold>\<open>Bounds and recursion.\<close> All loops are structural recursion or have a proved measure (the flag
  parser: the number of arguments; the duration parser: the length of the text); nothing uses
  fuel for a loop of the code. Durations are parsed in 64 bits with the overflow checks of the library,
  and the offset of a log level wraps as an \<open>int\<close>. The check of an answer's framing reads at most six lines, one more
  than an answer has. The body of a denied request is drained up to \<open>2 ^ 20\<close> bytes, as in the code.

  \<^bold>\<open>Not modelled.\<close> Read and write deadlines and what a handler waits for (a step relation lets a handler end
  at any time), the layout of log lines and of the metrics page, the tests, the Helm
  chart and the scripts. Parameters
  of the model, with hypotheses where a property needs their documented behaviour: DNS, dialling
  and TLS, \<open>crypto/x509\<close> and \<open>encoding/pem\<close> (\<open>codec_laws\<close>), \<open>url.Parse\<close>, the Kubernetes client and
  caches, the label selectors and metadata of apimachinery with their copies, the file system, and the
  floating-point fraction of a duration, and the schemes of apimachinery.
\<close>

end
